(* ===== verification/Prelude.thy ===== *)
theory Prelude
  imports Main "HOL-Library.AList" "HOL-Library.Char_ord" "HOL-Library.List_Lexorder"
    "HOL-Library.Multiset"
begin

text \<open>
  Shared vocabulary of the development: the exceptions of the program as one datatype, results as
  sums, Python dictionaries as insertion-ordered association lists, the few string operations the
  source uses, and the generic invariant argument for step relations.

  A Python \<open>str\<close> is a list of code points below 256 (Isabelle's \<^typ>\<open>string\<close>); all identifiers,
  codes and messages of the source are ASCII.
\<close>

section \<open>Exceptions and results\<close>

text \<open>
  One constructor per exception class the modelled code raises.  \<open>FieldError\<close> is a pydantic
  \<open>Field\<close> constraint violation (named by its field), \<open>ValueError\<close> carries the message of an
  explicit \<open>raise ValueError\<close> or of a model validator.
\<close>

datatype exn =
    ValueError string
  | FieldError string
  | KeyError string
  | LookupError string
  | RuntimeError string
  | BudgetExceeded string
  | DefinitionNotFound
  | ArtifactNotFound
  | ArtifactTypeMismatch
  | PublicationNotEligible string
  | PublicationConflict string
  | LibraryIdentityNotFound string
  | LibraryVersionNotFound string
  | CertificationForbidden string
  | WithdrawalForbidden string
  | PublicationNotForkable
  | CapacityExceededError string string
  | CalculationRuntimeError string
  | PlanStepError string
  | PersonalConflictServiceError string
  | PersonalConflictProductError string
  | RunLineageInvalid
  | OverflowError string
  | CustomCalculationExecutionError string
  | GovernedMetricInputResolutionError string
  | CalculationInputResolverUnavailable

type_synonym 'a result = "exn + 'a"

named_theorems result_splits \<open>case splits for results, options and conditionals\<close>

lemmas [result_splits] = sum.splits option.splits if_splits prod.splits

abbreviation is_ok :: "'a result \<Rightarrow> bool" where
  "is_ok r \<equiv> (\<exists>v. r = Inr v)"

abbreviation is_err :: "'a result \<Rightarrow> bool" where
  "is_err r \<equiv> (\<exists>e. r = Inl e)"

text \<open>The first failing check of a list of guarded checks, in the order of the source.\<close>

fun first_failure :: "(bool \<times> exn) list \<Rightarrow> exn option" where
  "first_failure [] = None"
| "first_failure ((bad, e) # checks) = (if bad then Some e else first_failure checks)"

lemma first_failure_None_iff: "first_failure cs = None \<longleftrightarrow> (\<forall>(b, e) \<in> set cs. \<not> b)"
  by (induction cs rule: first_failure.induct) auto

text \<open>A validated construction: the first failing check, or the constructed value.\<close>

definition validated :: "(bool \<times> exn) list \<Rightarrow> 'a \<Rightarrow> 'a result" where
  "validated checks v = (case first_failure checks of Some e \<Rightarrow> Inl e | None \<Rightarrow> Inr v)"

lemma validated_Inr_iff [simp]:
  "validated cs v = Inr w \<longleftrightarrow> (v = w \<and> (\<forall>(b, e) \<in> set cs. \<not> b))"
  by (auto simp: validated_def first_failure_None_iff[symmetric] split: option.splits)

lemma validated_Nil: "validated [] v = Inr v"
  by (simp add: validated_def)

lemma validated_Cons:
  "validated ((b, e) # cs) v = (if b then Inl e else validated cs v)"
  by (simp add: validated_def)

lemmas validated_eval = validated_Nil validated_Cons

text \<open>Length bounds of a \<open>Field\<close>, and a bad optional value.\<close>

definition length_in :: "nat \<Rightarrow> nat \<Rightarrow> 'a list \<Rightarrow> bool" where
  "length_in lo hi s \<longleftrightarrow> lo \<le> length s \<and> length s \<le> hi"

definition opt_bad :: "('a \<Rightarrow> bool) \<Rightarrow> 'a option \<Rightarrow> bool" where
  "opt_bad ok v = (case v of None \<Rightarrow> False | Some x \<Rightarrow> \<not> ok x)"

text \<open>The values of a list of results, or its first error.\<close>

fun all_results :: "'a result list \<Rightarrow> 'a list result" where
  "all_results [] = Inr []"
| "all_results (Inl e # rs) = Inl e"
| "all_results (Inr x # rs) = map_sum id ((#) x) (all_results rs)"

lemma all_results_Inr: "all_results (map f xs) = Inr ys \<longleftrightarrow> (list_all2 (\<lambda>x y. f x = Inr y) xs ys)"
proof (induction xs arbitrary: ys)
  case (Cons x xs)
  show ?case
  proof (cases "f x")
    case (Inr y)
    then show ?thesis using Cons.IH by (cases "all_results (map f xs)") (auto simp: list_all2_Cons1)
  qed (auto simp: list_all2_Cons1)
qed auto

lemma all_results_same: "(\<And>x. x \<in> set xs \<Longrightarrow> f x = Inr x) \<Longrightarrow> all_results (map f xs) = Inr xs"
  by (simp add: all_results_Inr list_all2_same)

lemma all_results_elem:
  assumes "all_results (map f xs) = Inr ys"
  shows "y \<in> set ys \<Longrightarrow> \<exists>x \<in> set xs. f x = Inr y" and "x \<in> set xs \<Longrightarrow> \<exists>y. f x = Inr y"
proof -
  from assms have "list_all2 (\<lambda>x y. f x = Inr y) xs ys" by (simp add: all_results_Inr)
  then have "(y \<in> set ys \<longrightarrow> (\<exists>x \<in> set xs. f x = Inr y)) \<and> (x \<in> set xs \<longrightarrow> (\<exists>y. f x = Inr y))" for x y
    by (induction rule: list_all2_induct) auto
  then show "y \<in> set ys \<Longrightarrow> \<exists>x \<in> set xs. f x = Inr y" and "x \<in> set xs \<Longrightarrow> \<exists>y. f x = Inr y" by blast+
qed

lemma all_results_Inl: "all_results (map f xs) = Inl e \<Longrightarrow> \<exists>x \<in> set xs. f x = Inl e"
proof (induction xs)
  case (Cons x xs)
  then show ?case by (cases "f x"; cases "all_results (map f xs)") auto
qed simp

lemma map_sum_Inr_iff: "map_sum id f r = Inr y \<longleftrightarrow> (\<exists>x. r = Inr x \<and> f x = y)"
  by (cases r) auto

section \<open>Dictionaries\<close>

text \<open>
  A Python \<open>dict\<close> keeps insertion order and updates an existing key in place, which is what
  \<^const>\<open>AList.update\<close> does; \<^const>\<open>AList.delete\<close> is \<open>dict.pop(key, None)\<close> and
  \<^const>\<open>map_of\<close> is \<open>dict.get\<close>.
\<close>

type_synonym ('k, 'v) dict = "('k \<times> 'v) list"

abbreviation dget :: "('k, 'v) dict \<Rightarrow> 'k \<Rightarrow> 'v option" where
  "dget d k \<equiv> map_of d k"

abbreviation dset :: "'k \<Rightarrow> 'v \<Rightarrow> ('k, 'v) dict \<Rightarrow> ('k, 'v) dict" where
  "dset k v d \<equiv> AList.update k v d"

abbreviation dpop :: "'k \<Rightarrow> ('k, 'v) dict \<Rightarrow> ('k, 'v) dict" where
  "dpop k d \<equiv> AList.delete k d"

abbreviation dict_ok :: "('k, 'v) dict \<Rightarrow> bool" where
  "dict_ok d \<equiv> distinct (map fst d)"

text \<open>\<open>dict.setdefault\<close>: an existing entry is kept.\<close>

definition dsetdefault :: "'k \<Rightarrow> 'v \<Rightarrow> ('k, 'v) dict \<Rightarrow> ('k, 'v) dict" where
  "dsetdefault k v d = (case dget d k of None \<Rightarrow> dset k v d | Some _ \<Rightarrow> d)"

text \<open>\<open>dict.get(key, default)\<close>.\<close>

definition dget_or :: "'v \<Rightarrow> ('k, 'v) dict \<Rightarrow> 'k \<Rightarrow> 'v" where
  "dget_or v d k = (case dget d k of None \<Rightarrow> v | Some w \<Rightarrow> w)"

lemma dget_dset [simp]: "dget (dset k v d) k' = (if k' = k then Some v else dget d k')"
  by (simp add: update_conv')

lemma dget_dpop [simp]: "dget (dpop k d) k' = (if k' = k then None else dget d k')"
  by (simp add: delete_conv')

lemma dict_ok_dset [simp]: "dict_ok (dset k v d) \<longleftrightarrow> dict_ok d"
proof
  assume "dict_ok d"
  then show "dict_ok (dset k v d)" by (rule distinct_update)
next
  assume *: "dict_ok (dset k v d)"
  then show "dict_ok d"
    by (induction d) (auto simp: dom_update image_image image_iff split: if_splits)
qed

lemma dict_ok_dpop: "dict_ok d \<Longrightarrow> dict_ok (dpop k d)"
  by (rule distinct_delete)

lemma dget_dsetdefault [simp]:
  "dget (dsetdefault k v d) k' =
     (if k' = k \<and> dget d k = None then Some v else dget d k')"
  by (auto simp: dsetdefault_def split: option.splits)

lemma dget_or_dset [simp]:
  "dget_or w (dset k v d) k' = (if k' = k then v else dget_or w d k')"
  by (simp add: dget_or_def)

lemma in_set_dict_iff: "dict_ok d \<Longrightarrow> (k, v) \<in> set d \<longleftrightarrow> dget d k = Some v"
  by auto

lemma dset_set_subset: "set (dset k v d) \<subseteq> insert (k, v) (set d)"
  by (induction d) auto

section \<open>Python strings\<close>

text \<open>\<open>str.isspace\<close> on code points below 256, and \<open>str.strip\<close>.\<close>

definition is_space :: "char \<Rightarrow> bool" where
  "is_space c = (let n = of_char c :: nat in
     (9 \<le> n \<and> n \<le> 13) \<or> (28 \<le> n \<and> n \<le> 32) \<or> n = 133 \<or> n = 160)"

definition strip :: "string \<Rightarrow> string" where
  "strip s = rev (dropWhile is_space (rev (dropWhile is_space s)))"

text \<open>\<open>not s.strip()\<close>.\<close>

definition blank :: "string \<Rightarrow> bool" where
  "blank s \<longleftrightarrow> strip s = []"

lemma strip_Nil [simp]: "strip [] = []"
  by (simp add: strip_def)

lemma blank_Nil [simp]: "blank []"
  by (simp add: blank_def)

lemma dropWhile_rev_dropWhile:
  "dropWhile P (rev (dropWhile P (rev (dropWhile P xs)))) =
     rev (dropWhile P (rev (dropWhile P xs)))"
proof (cases "rev (dropWhile P (rev (dropWhile P xs)))")
  case Nil
  then show ?thesis by (simp only: dropWhile.simps)
next
  case (Cons y ys)
  let ?zs = "dropWhile P xs"
  have suff: "\<exists>us. rev ?zs = us @ dropWhile P (rev ?zs)"
    by (metis takeWhile_dropWhile_id)
  then obtain us where "rev ?zs = us @ dropWhile P (rev ?zs)" by blast
  then have "?zs = rev (dropWhile P (rev ?zs)) @ rev us"
    by (metis rev_append rev_rev_ident)
  with Cons have "hd ?zs = y" and "?zs \<noteq> []" by auto
  then have "\<not> P y" using hd_dropWhile[of P xs] by auto
  with Cons show ?thesis by simp
qed

lemma strip_idem [simp]: "strip (strip s) = strip s"
  by (simp add: strip_def dropWhile_rev_dropWhile dropWhile_idem)

text \<open>
  \<open>int(text)\<close> in base 10: surrounding white space, one optional sign, then digits in which single
  underscores may separate digits.  \<^const>\<open>None\<close> is the \<open>ValueError\<close>.
\<close>

definition is_digit :: "char \<Rightarrow> bool" where
  "is_digit c \<longleftrightarrow> 48 \<le> (of_char c :: nat) \<and> (of_char c :: nat) \<le> 57"

definition digit_val :: "char \<Rightarrow> nat" where
  "digit_val c = (of_char c :: nat) - 48"

fun int_digits :: "nat \<Rightarrow> bool \<Rightarrow> string \<Rightarrow> nat option" where
  "int_digits acc after_digit [] = (if after_digit then Some acc else None)"
| "int_digits acc after_digit (c # cs) =
     (if is_digit c then int_digits (acc * 10 + digit_val c) True cs
      else if c = CHR ''_'' \<and> after_digit then int_digits acc False cs
      else None)"

definition python_int :: "string \<Rightarrow> int option" where
  "python_int raw =
     (case strip raw of
        [] \<Rightarrow> None
      | c # cs \<Rightarrow>
          (if c = CHR ''-'' then map_option (\<lambda>n. - int n) (int_digits 0 False cs)
           else if c = CHR ''+'' then map_option int (int_digits 0 False cs)
           else map_option int (int_digits 0 False (c # cs))))"

text \<open>\<open>dict.fromkeys\<close> as the source uses it: first occurrences, in order.\<close>

fun nub :: "'a list \<Rightarrow> 'a list" where
  "nub [] = []"
| "nub (x # xs) = x # filter (\<lambda>y. y \<noteq> x) (nub xs)"

lemma set_nub [simp]: "set (nub xs) = set xs"
  by (induction xs) auto

lemma distinct_nub [simp]: "distinct (nub xs)"
  by (induction xs) auto

lemma nub_Nil_iff [simp]: "nub xs = [] \<longleftrightarrow> xs = []"
  by (cases xs) auto

section \<open>Self-delimiting codes\<close>

text \<open>
  A code whose words are non-empty and can be told off the front of any text: a sequence of such
  words is uniquely readable, up to the end of the text or up to a character no word starts with.
\<close>

locale prefix_code =
  fixes code :: "'a \<Rightarrow> 'b list" and letters :: "'a set"
  assumes code_nonempty: "x \<in> letters \<Longrightarrow> code x \<noteq> []"
    and code_inject: "x \<in> letters \<Longrightarrow> y \<in> letters \<Longrightarrow> code x @ r = code y @ r' \<Longrightarrow> x = y \<and> r = r'"
begin

lemma words_inject:
  "set xs \<subseteq> letters \<Longrightarrow> set ys \<subseteq> letters \<Longrightarrow> concat (map code xs) = concat (map code ys) \<Longrightarrow> xs = ys"
proof (induction xs arbitrary: ys)
  case Nil
  then show ?case using code_nonempty by (cases ys) auto
next
  case (Cons x xs)
  show ?case
  proof (cases ys)
    case Nil
    with Cons.prems show ?thesis using code_nonempty[of x] by simp
  next
    case ys: (Cons y zs)
    with Cons.prems have "x = y \<and> concat (map code xs) = concat (map code zs)" by (intro code_inject) auto
    then show ?thesis using ys Cons.prems Cons.IH[of zs] by simp
  qed
qed

end

locale terminated_code = prefix_code code letters for code :: "'a \<Rightarrow> 'b list" and letters :: "'a set" +
  fixes stop :: 'b
  assumes stop_fresh: "x \<in> letters \<Longrightarrow> hd (code x) \<noteq> stop"
begin

lemma word_not_stop: "x \<in> letters \<Longrightarrow> code x @ r \<noteq> stop # r'"
  using stop_fresh[of x] code_nonempty[of x] by (cases "code x") auto

lemma terminated_inject:
  "set xs \<subseteq> letters \<Longrightarrow> set ys \<subseteq> letters \<Longrightarrow> concat (map code xs) @ stop # r = concat (map code ys) @ stop # r'
     \<Longrightarrow> xs = ys \<and> r = r'"
proof (induction xs arbitrary: ys)
  case Nil
  show ?case
  proof (cases ys)
    case Nil
    with Nil.prems show ?thesis by simp
  next
    case (Cons y zs)
    with Nil.prems show ?thesis using word_not_stop[of y "concat (map code zs) @ stop # r'" r] by simp
  qed
next
  case (Cons x xs)
  show ?case
  proof (cases ys)
    case Nil
    with Cons.prems show ?thesis using word_not_stop[of x "concat (map code xs) @ stop # r" r'] by simp
  next
    case ys: (Cons y zs)
    with Cons.prems have "x = y \<and> concat (map code xs) @ stop # r = concat (map code zs) @ stop # r'"
      by (intro code_inject) auto
    then show ?thesis using ys Cons.prems Cons.IH[of zs] by simp
  qed
qed

end

section \<open>Invariants of step relations\<close>

text \<open>
  The shared safety argument: an invariant of the initial states that every step keeps holds in
  every state a sequence of steps reaches.  The stateful components (the capacity limiter, the
  budget ledger, the product stores) interpret this locale with their own step relation.
\<close>

locale invariant_system =
  fixes init :: "'s \<Rightarrow> bool"
    and step :: "'s \<Rightarrow> 's \<Rightarrow> bool"
    and inv :: "'s \<Rightarrow> bool"
  assumes init_inv: "init s \<Longrightarrow> inv s"
    and step_inv: "inv s \<Longrightarrow> step s t \<Longrightarrow> inv t"
begin

lemma steps_inv: "step\<^sup>*\<^sup>* s t \<Longrightarrow> inv s \<Longrightarrow> inv t"
  by (induction rule: rtranclp_induct) (auto intro: step_inv)

lemma reachable_inv: "init s \<Longrightarrow> step\<^sup>*\<^sup>* s t \<Longrightarrow> inv t"
  by (blast intro: init_inv steps_inv)

end

text \<open>A relation every step keeps between its two states is kept by runs from a good state.\<close>

locale preserved_relation = invariant_system +
  fixes rel :: "'s \<Rightarrow> 's \<Rightarrow> bool"
  assumes rel_refl: "rel s s"
    and rel_trans: "rel s t \<Longrightarrow> rel t u \<Longrightarrow> rel s u"
    and step_rel: "inv s \<Longrightarrow> step s t \<Longrightarrow> rel s t"
begin

lemma steps_rel: "step\<^sup>*\<^sup>* s t \<Longrightarrow> inv s \<Longrightarrow> rel s t"
proof (induction rule: rtranclp_induct)
  case base
  show ?case by (rule rel_refl)
next
  case (step t u)
  from step have "inv t" using steps_inv by blast
  with step show ?case by (blast intro: rel_trans step_rel)
qed

end

end
