(* ===== verification/Budget.thy ===== *)
theory Budget
  imports Prelude Complex_Main
begin

text \<open>
  Request budgets: \<^verbatim>\<open>src/src/nl2sql/orchestration/budget.py\<close> and the route-budget contracts of
  \<^verbatim>\<open>src/src/nl2sql/contracts.py\<close>.  \<open>call_budget\<close> is the per-call token/cost budget, \<open>ledger\<close> the
  request-local \<open>RouteBudgetLedger\<close>, whose methods mutate the object also on the paths that
  raise: every operation returns its result together with the ledger it leaves behind.

  Environment values (the process environment, the monotonic clock, the binary floating-point
  addition of costs, the SHA-256 contract checksum) are arguments.
\<close>

section \<open>Contracts\<close>

datatype route_name = Fast | Standard | Deep

datatype policy_lifecycle = Bootstrap | Calibrated | Frozen

record route_budget =
  deadline_ms :: int
  max_model_calls :: int
  max_sql_candidates :: int
  max_sql_executions :: int
  max_join_hops :: int
  max_repairs :: int

definition mk_route_budget :: "route_budget \<Rightarrow> route_budget result" where
  "mk_route_budget b = validated
     [(\<not> (1 \<le> deadline_ms b \<and> deadline_ms b \<le> 120000), FieldError ''deadline_ms''),
      (\<not> 0 \<le> max_model_calls b, FieldError ''max_model_calls''),
      (\<not> 1 \<le> max_sql_candidates b, FieldError ''max_sql_candidates''),
      (\<not> 1 \<le> max_sql_executions b, FieldError ''max_sql_executions''),
      (\<not> 0 \<le> max_join_hops b, FieldError ''max_join_hops''),
      (\<not> 0 \<le> max_repairs b, FieldError ''max_repairs'')] b"

text \<open>
  A validated \<open>RoutingBudgetPolicy\<close> defines exactly the three routes, so its \<open>routes\<close> are a total
  function here; \<open>mk_routing_budget_policy\<close> builds it from the dictionary the constructor gets.
\<close>

record routing_budget_policy =
  policy_version :: string
  policy_state :: policy_lifecycle
  routes :: "route_name \<Rightarrow> route_budget"
  policy_reserve_ms :: int
  max_same_sql :: int
  max_same_error :: int
  max_retryable_provider_errors :: int

definition min_deadline :: "(route_name \<Rightarrow> route_budget) \<Rightarrow> int" where
  "min_deadline rs = min (deadline_ms (rs Fast)) (min (deadline_ms (rs Standard)) (deadline_ms (rs Deep)))"

definition mk_routing_budget_policy ::
  "string \<Rightarrow> policy_lifecycle \<Rightarrow> (route_name, route_budget) dict \<Rightarrow> int \<Rightarrow> int \<Rightarrow> int \<Rightarrow> int
   \<Rightarrow> routing_budget_policy result" where
  "mk_routing_budget_policy ver st rs reserve same_sql same_err retr =
     (let table = (\<lambda>r. case dget rs r of Some b \<Rightarrow> b
                        | None \<Rightarrow> \<lparr>deadline_ms = 1, max_model_calls = 0, max_sql_candidates = 1,
                                    max_sql_executions = 1, max_join_hops = 0, max_repairs = 0\<rparr>)
      in validated
        [(\<not> (1 \<le> length ver \<and> length ver \<le> 128), FieldError ''version''),
         (\<not> 1 \<le> reserve, FieldError ''reserve_ms''),
         (\<not> 1 \<le> same_sql, FieldError ''max_same_sql''),
         (\<not> 1 \<le> same_err, FieldError ''max_same_error''),
         (\<not> 0 \<le> retr, FieldError ''max_retryable_provider_errors''),
         (fst ` set rs \<noteq> {Fast, Standard, Deep},
          ValueError ''routing budget policy must define fast, standard, and deep''),
         (reserve \<ge> min_deadline table,
          ValueError ''response reserve must be lower than every route deadline'')]
        \<lparr>policy_version = ver, policy_state = st, routes = table, policy_reserve_ms = reserve,
         max_same_sql = same_sql, max_same_error = same_err,
         max_retryable_provider_errors = retr\<rparr>)"

text \<open>What a constructed \<open>RouteBudget\<close> and a constructed \<open>RoutingBudgetPolicy\<close> guarantee.\<close>

definition route_budget_ok :: "route_budget \<Rightarrow> bool" where
  "route_budget_ok b \<longleftrightarrow> 1 \<le> deadline_ms b \<and> deadline_ms b \<le> 120000 \<and> 0 \<le> max_model_calls b \<and>
     1 \<le> max_sql_candidates b \<and> 1 \<le> max_sql_executions b \<and> 0 \<le> max_join_hops b \<and> 0 \<le> max_repairs b"

definition policy_ok :: "routing_budget_policy \<Rightarrow> bool" where
  "policy_ok p \<longleftrightarrow> policy_version p \<noteq> [] \<and> length (policy_version p) \<le> 128 \<and>
     (\<forall>r. route_budget_ok (routes p r)) \<and> 1 \<le> policy_reserve_ms p \<and>
     (\<forall>r. policy_reserve_ms p < deadline_ms (routes p r)) \<and> 1 \<le> max_same_sql p \<and>
     1 \<le> max_same_error p \<and> 0 \<le> max_retryable_provider_errors p"

lemma mk_route_budget_ok: "mk_route_budget b = Inr b' \<longleftrightarrow> b' = b \<and> route_budget_ok b"
  by (auto simp: mk_route_budget_def route_budget_ok_def)

lemma length_one_le [simp]: "Suc 0 \<le> length xs \<longleftrightarrow> xs \<noteq> []"
  by (cases xs) auto

lemma mk_routing_budget_policy_ok:
  assumes "mk_routing_budget_policy ver st rs reserve ss se re = Inr p"
    and "\<forall>b \<in> snd ` set rs. route_budget_ok b"
  shows "policy_ok p"
proof -
  have dom: "\<exists>b. dget rs r = Some b \<and> b \<in> snd ` set rs" for r
  proof -
    have "r \<in> fst ` set rs"
      using assms(1) by (cases r) (auto simp: mk_routing_budget_policy_def Let_def split: if_splits)
    then show ?thesis
      by (metis domI domIff dom_map_of_conv_image_fst map_of_SomeD option.exhaust snd_conv image_iff)
  qed
  have bud: "route_budget_ok (routes p r)" for r
    using dom[of r] assms
    by (auto simp: mk_routing_budget_policy_def Let_def split: if_splits)
  have "policy_reserve_ms p < deadline_ms (routes p r)" for r
    using assms(1)
    by (cases r) (auto simp: mk_routing_budget_policy_def Let_def min_deadline_def split: if_splits)
  with bud show ?thesis
    using assms(1)
    by (auto simp: policy_ok_def mk_routing_budget_policy_def Let_def split: if_splits)
qed

section \<open>Bootstrap policy\<close>

text \<open>\<open>_route_deadline_ms\<close>: a positive integer in the environment overrides the default.\<close>

definition route_deadline_ms :: "(string \<Rightarrow> string option) \<Rightarrow> string \<Rightarrow> int \<Rightarrow> int" where
  "route_deadline_ms environ env_name default_ms =
     (case environ env_name of
        None \<Rightarrow> default_ms
      | Some raw \<Rightarrow>
          (case python_int raw of
             None \<Rightarrow> default_ms
           | Some v \<Rightarrow> if v \<ge> 1 then v else default_ms))"

definition bootstrap_route_budget :: "(string \<Rightarrow> string option) \<Rightarrow> route_name \<Rightarrow> route_budget" where
  "bootstrap_route_budget environ r =
     (case r of
        Fast \<Rightarrow> \<lparr>deadline_ms = route_deadline_ms environ ''V2_ROUTE_DEADLINE_FAST_MS'' 4000,
                 max_model_calls = 1, max_sql_candidates = 1, max_sql_executions = 1,
                 max_join_hops = 0, max_repairs = 0\<rparr>
      | Standard \<Rightarrow> \<lparr>deadline_ms = route_deadline_ms environ ''V2_ROUTE_DEADLINE_STANDARD_MS'' 10000,
                 max_model_calls = 3, max_sql_candidates = 2, max_sql_executions = 2,
                 max_join_hops = 1, max_repairs = 1\<rparr>
      | Deep \<Rightarrow> \<lparr>deadline_ms = route_deadline_ms environ ''V2_ROUTE_DEADLINE_DEEP_MS'' 30000,
                 max_model_calls = 5, max_sql_candidates = 2, max_sql_executions = 2,
                 max_join_hops = 2, max_repairs = 1\<rparr>)"

definition bootstrap_routing_budget_policy ::
  "(string \<Rightarrow> string option) \<Rightarrow> routing_budget_policy result" where
  "bootstrap_routing_budget_policy environ =
     (case mk_route_budget (bootstrap_route_budget environ Fast) of
        Inl e \<Rightarrow> Inl e
      | Inr fast \<Rightarrow>
     (case mk_route_budget (bootstrap_route_budget environ Standard) of
        Inl e \<Rightarrow> Inl e
      | Inr standard \<Rightarrow>
     (case mk_route_budget (bootstrap_route_budget environ Deep) of
        Inl e \<Rightarrow> Inl e
      | Inr deep \<Rightarrow>
          mk_routing_budget_policy ''routing-budget.bootstrap.v1'' Bootstrap
            [(Fast, fast), (Standard, standard), (Deep, deep)] 800 2 2 1)))"

lemma bootstrap_policy_ok:
  assumes "bootstrap_routing_budget_policy environ = Inr p"
  shows "policy_ok p"
proof -
  from assms obtain f s d where
    "route_budget_ok f" "route_budget_ok s" "route_budget_ok d"
    "mk_routing_budget_policy ''routing-budget.bootstrap.v1'' Bootstrap
       [(Fast, f), (Standard, s), (Deep, d)] 800 2 2 1 = Inr p"
    by (auto simp: bootstrap_routing_budget_policy_def mk_route_budget_ok split: sum.splits)
  then show ?thesis by (auto intro: mk_routing_budget_policy_ok)
qed

section \<open>The per-call budget\<close>

text \<open>
  \<open>CallBudget\<close>.  Costs are Python floats: their values are reals and their addition is the
  argument \<open>fadd\<close> (IEEE addition).  The clock enters as \<open>elapsed_ms\<close>, the integer
  \<open>int((now - started_at) * 1000)\<close>.
\<close>

record call_budget =
  cb_deadline_ms :: int
  token_budget :: int
  cost_budget :: real
  max_attempts :: int
  attempts :: int
  input_tokens :: int
  output_tokens :: int
  cost_used :: real

definition tokens_used :: "call_budget \<Rightarrow> int" where
  "tokens_used b = input_tokens b + output_tokens b"

definition remaining_ms :: "call_budget \<Rightarrow> int \<Rightarrow> int" where
  "remaining_ms b elapsed_ms = max 0 (cb_deadline_ms b - elapsed_ms)"

definition reserve_ms :: "call_budget \<Rightarrow> int" where
  "reserve_ms b = max 1 (cb_deadline_ms b div 5)"

definition can_charge :: "(real \<Rightarrow> real \<Rightarrow> real) \<Rightarrow> int \<Rightarrow> real \<Rightarrow> call_budget \<Rightarrow> bool" where
  "can_charge fadd tokens cost b \<longleftrightarrow>
     tokens \<ge> 0 \<and> cost \<ge> 0 \<and> tokens_used b + tokens \<le> token_budget b \<and>
     fadd (cost_used b) cost \<le> cost_budget b"

definition begin_attempt :: "call_budget \<Rightarrow> unit result \<times> call_budget" where
  "begin_attempt b =
     (if attempts b \<ge> max_attempts b then (Inl (BudgetExceeded ''attempt_budget_exhausted''), b)
      else (Inr (), b\<lparr>attempts := attempts b + 1\<rparr>))"

definition charge ::
  "(real \<Rightarrow> real \<Rightarrow> real) \<Rightarrow> int \<Rightarrow> int \<Rightarrow> real \<Rightarrow> call_budget \<Rightarrow> unit result \<times> call_budget" where
  "charge fadd inp outp cost b =
     (let tokens = inp + outp in
      if \<not> can_charge fadd tokens cost b
      then (Inl (BudgetExceeded ''model_call_budget_exceeded''), b)
      else (Inr (), b\<lparr>input_tokens := input_tokens b + inp,
                       output_tokens := output_tokens b + outp,
                       cost_used := fadd (cost_used b) cost\<rparr>))"

text \<open>\<open>should_stop\<close>: the policy is optional, and only a given policy raises the reserve.\<close>

definition should_stop ::
  "routing_budget_policy \<Rightarrow> call_budget \<Rightarrow> int \<Rightarrow> int \<Rightarrow> bool \<Rightarrow> routing_budget_policy option \<Rightarrow> int
   \<Rightarrow> string option" where
  "should_stop bootstrap b fingerprint_seen same_error_seen policy_denied policy elapsed_ms =
     (let resolved = (case policy of Some p \<Rightarrow> p | None \<Rightarrow> bootstrap);
          reserve = (case policy of Some p \<Rightarrow> max (policy_reserve_ms resolved) (reserve_ms b)
                      | None \<Rightarrow> reserve_ms b)
      in if policy_denied then Some ''policy_denied''
         else if remaining_ms b elapsed_ms \<le> reserve then Some ''deadline_reserve''
         else if attempts b \<ge> max_attempts b then Some ''attempt_budget_exhausted''
         else if fingerprint_seen \<ge> max_same_sql resolved then Some ''repeated_sql''
         else if same_error_seen \<ge> max_same_error resolved then Some ''repeated_error''
         else None)"

end
