(* ===== verification/Ledger.thy ===== *)
theory Ledger
  imports Budget
begin

text \<open>
  The mutable route ledger: class \<open>RouteBudgetLedger\<close> of
  \<^verbatim>\<open>src/src/nl2sql/orchestration/budget.py\<close> with its checkpoint record.  Operations return
  \<open>(result, ledger)\<close>, because \<open>_increment\<close> and \<open>observe_join_hops\<close> halt the ledger before they
  raise.
\<close>

section \<open>State and operations\<close>

record ledger =
  route :: route_name
  policy :: routing_budget_policy
  model_calls :: int
  sql_candidates :: int
  sql_executions :: int
  join_hops :: int
  repairs :: int
  retryable_provider_errors :: int
  sql_fingerprint_counts :: "(string, int) dict"
  error_counts :: "(string, int) dict"
  stop_reason :: "string option"

definition new_ledger :: "route_name \<Rightarrow> routing_budget_policy \<Rightarrow> ledger" where
  "new_ledger r p = \<lparr>route = r, policy = p, model_calls = 0, sql_candidates = 0,
     sql_executions = 0, join_hops = 0, repairs = 0, retryable_provider_errors = 0,
     sql_fingerprint_counts = [], error_counts = [], stop_reason = None\<rparr>"

definition limits :: "ledger \<Rightarrow> route_budget" where
  "limits l = routes (policy l) (route l)"

text \<open>The attributes \<open>_increment\<close> reads and writes by name.\<close>

datatype counter = ModelCalls | SqlCandidates | SqlExecutions | Repairs

fun counter_val :: "counter \<Rightarrow> ledger \<Rightarrow> int" where
  "counter_val ModelCalls l = model_calls l"
| "counter_val SqlCandidates l = sql_candidates l"
| "counter_val SqlExecutions l = sql_executions l"
| "counter_val Repairs l = repairs l"

fun counter_set :: "counter \<Rightarrow> int \<Rightarrow> ledger \<Rightarrow> ledger" where
  "counter_set ModelCalls v l = l\<lparr>model_calls := v\<rparr>"
| "counter_set SqlCandidates v l = l\<lparr>sql_candidates := v\<rparr>"
| "counter_set SqlExecutions v l = l\<lparr>sql_executions := v\<rparr>"
| "counter_set Repairs v l = l\<lparr>repairs := v\<rparr>"

text \<open>\<open>halt\<close> keeps the first reason; \<open>set_stop\<close> is its effect for a non-blank reason.\<close>

definition set_stop :: "string \<Rightarrow> ledger \<Rightarrow> ledger" where
  "set_stop reason l =
     (case stop_reason l of None \<Rightarrow> l\<lparr>stop_reason := Some reason\<rparr> | Some _ \<Rightarrow> l)"

definition halt :: "string \<Rightarrow> ledger \<Rightarrow> string result \<times> ledger" where
  "halt reason l =
     (let normalized = strip reason in
      if normalized = [] then (Inl (ValueError ''stop reason must be non-empty''), l)
      else (let l' = set_stop normalized l in
            (Inr (case stop_reason l' of Some r \<Rightarrow> r | None \<Rightarrow> normalized), l')))"

text \<open>\<open>_ensure_active\<close>: the exception to raise, if any.\<close>

definition ensure_active :: "ledger \<Rightarrow> exn option" where
  "ensure_active l = map_option BudgetExceeded (stop_reason l)"

definition increment :: "counter \<Rightarrow> int \<Rightarrow> string \<Rightarrow> ledger \<Rightarrow> unit result \<times> ledger" where
  "increment c limit reason l =
     (case ensure_active l of
        Some e \<Rightarrow> (Inl e, l)
      | None \<Rightarrow>
          (if counter_val c l \<ge> limit
           then (Inl (BudgetExceeded reason), snd (halt reason l))
           else (Inr (), counter_set c (counter_val c l + 1) l)))"

definition begin_model_call :: "ledger \<Rightarrow> unit result \<times> ledger" where
  "begin_model_call l =
     increment ModelCalls (max_model_calls (limits l)) ''model_call_budget_exhausted'' l"

definition record_sql_candidate :: "string \<Rightarrow> ledger \<Rightarrow> string option result \<times> ledger" where
  "record_sql_candidate fingerprint l =
     (let normalized = strip fingerprint in
      if normalized = [] then (Inl (ValueError ''SQL fingerprint must be non-empty''), l)
      else (case increment SqlCandidates (max_sql_candidates (limits l))
                   ''sql_candidate_budget_exhausted'' l of
              (Inl e, l1) \<Rightarrow> (Inl e, l1)
            | (Inr _, l1) \<Rightarrow>
                (let count = dget_or 0 (sql_fingerprint_counts l1) normalized + 1;
                     l2 = l1\<lparr>sql_fingerprint_counts := dset normalized count (sql_fingerprint_counts l1)\<rparr>;
                     l3 = (if count \<ge> max_same_sql (policy l2) then snd (halt ''repeated_sql'' l2) else l2)
                 in (Inr (stop_reason l3), l3))))"

definition begin_sql_execution :: "ledger \<Rightarrow> unit result \<times> ledger" where
  "begin_sql_execution l =
     increment SqlExecutions (max_sql_executions (limits l)) ''sql_execution_budget_exhausted'' l"

definition observe_join_hops :: "int \<Rightarrow> ledger \<Rightarrow> unit result \<times> ledger" where
  "observe_join_hops hops l =
     (case ensure_active l of
        Some e \<Rightarrow> (Inl e, l)
      | None \<Rightarrow>
          (if hops < 0 then (Inl (ValueError ''join hops cannot be negative''), l)
           else if hops > max_join_hops (limits l)
           then (Inl (BudgetExceeded ''join_hop_budget_exhausted''),
                 snd (halt ''join_hop_budget_exhausted'' l))
           else (Inr (), l\<lparr>join_hops := max (join_hops l) hops\<rparr>)))"

definition begin_repair :: "ledger \<Rightarrow> unit result \<times> ledger" where
  "begin_repair l = increment Repairs (max_repairs (limits l)) ''repair_budget_exhausted'' l"

definition record_provider_retries :: "int \<Rightarrow> ledger \<Rightarrow> string option result \<times> ledger" where
  "record_provider_retries retries l =
     (case ensure_active l of
        Some e \<Rightarrow> (Inl e, l)
      | None \<Rightarrow>
          (if retries < 0 then (Inl (ValueError ''provider retries cannot be negative''), l)
           else (let l1 = l\<lparr>retryable_provider_errors := retryable_provider_errors l + retries\<rparr>;
                     l2 = (if retryable_provider_errors l1 > max_retryable_provider_errors (policy l1)
                           then snd (halt ''retryable_provider_error_budget_exhausted'' l1) else l1)
                 in (Inr (stop_reason l2), l2))))"

definition record_error :: "string \<Rightarrow> bool \<Rightarrow> bool \<Rightarrow> ledger \<Rightarrow> string option result \<times> ledger" where
  "record_error taxonomy policy_denied retryable_provider l =
     (let normalized = strip taxonomy in
      if normalized = [] then (Inl (ValueError ''error taxonomy must be non-empty''), l)
      else (case ensure_active l of
              Some e \<Rightarrow> (Inl e, l)
            | None \<Rightarrow>
                (let count = dget_or 0 (error_counts l) normalized + 1;
                     l1 = l\<lparr>error_counts := dset normalized count (error_counts l)\<rparr>
                 in case (if retryable_provider then record_provider_retries 1 l1
                          else (Inr None, l1)) of
                      (Inl e, l2) \<Rightarrow> (Inl e, l2)
                    | (Inr _, l2) \<Rightarrow>
                        (let l3 = (if policy_denied then snd (halt ''policy_denied'' l2)
                                   else if count \<ge> max_same_error (policy l2)
                                   then snd (halt ''repeated_error'' l2) else l2)
                         in (Inr (stop_reason l3), l3)))))"

section \<open>Checkpointing\<close>

record route_budget_usage =
  u_model_calls :: int
  u_sql_candidates :: int
  u_sql_executions :: int
  u_join_hops :: int
  u_repairs :: int
  u_retryable_provider_errors :: int

record route_budget_record =
  r_policy_version :: string
  r_policy_state :: policy_lifecycle
  r_policy_checksum :: string
  r_route :: route_name
  r_limits :: route_budget
  r_usage :: route_budget_usage
  r_sql_fingerprint_counts :: "(string, int) dict"
  r_error_counts :: "(string, int) dict"
  r_stop_reason :: "string option"

definition usage_ok :: "route_budget_usage \<Rightarrow> bool" where
  "usage_ok u \<longleftrightarrow> 0 \<le> u_model_calls u \<and> 0 \<le> u_sql_candidates u \<and> 0 \<le> u_sql_executions u \<and>
     0 \<le> u_join_hops u \<and> 0 \<le> u_repairs u \<and> 0 \<le> u_retryable_provider_errors u"

text \<open>\<open>validate_counter_map\<close>: keys non-empty, counts positive.\<close>

definition counter_map_ok :: "(string, int) dict \<Rightarrow> bool" where
  "counter_map_ok d \<longleftrightarrow> (\<forall>(k, n) \<in> set d. k \<noteq> [] \<and> n \<ge> 1)"

text \<open>
  The \<open>RouteBudgetRecord\<close> constructor.  \<open>is_hex64\<close> is the pattern of a checksum field.
\<close>

definition is_hex :: "char \<Rightarrow> bool" where
  "is_hex c \<longleftrightarrow> is_digit c \<or> (97 \<le> (of_char c :: nat) \<and> (of_char c :: nat) \<le> 102)"

definition is_hex64 :: "string \<Rightarrow> bool" where
  "is_hex64 s \<longleftrightarrow> length s = 64 \<and> list_all is_hex s"

definition mk_route_budget_record :: "route_budget_record \<Rightarrow> route_budget_record result" where
  "mk_route_budget_record r = validated
     [(\<not> (1 \<le> length (r_policy_version r) \<and> length (r_policy_version r) \<le> 128), FieldError ''policy_version''),
      (\<not> is_hex64 (r_policy_checksum r), FieldError ''policy_checksum''),
      (\<not> usage_ok (r_usage r), FieldError ''usage''),
      (\<not> counter_map_ok (r_sql_fingerprint_counts r),
       ValueError ''counter keys must be non-empty and counts positive''),
      (\<not> counter_map_ok (r_error_counts r),
       ValueError ''counter keys must be non-empty and counts positive''),
      (case r_stop_reason r of None \<Rightarrow> False | Some s \<Rightarrow> \<not> (1 \<le> length s \<and> length s \<le> 128),
       FieldError ''stop_reason'')] r"

definition checkpoint_record ::
  "(routing_budget_policy \<Rightarrow> string) \<Rightarrow> ledger \<Rightarrow> route_budget_record result" where
  "checkpoint_record checksum l = mk_route_budget_record
     \<lparr>r_policy_version = policy_version (policy l), r_policy_state = policy_state (policy l),
      r_policy_checksum = checksum (policy l), r_route = route l, r_limits = limits l,
      r_usage = \<lparr>u_model_calls = model_calls l, u_sql_candidates = sql_candidates l,
                 u_sql_executions = sql_executions l, u_join_hops = join_hops l,
                 u_repairs = repairs l, u_retryable_provider_errors = retryable_provider_errors l\<rparr>,
      r_sql_fingerprint_counts = sql_fingerprint_counts l, r_error_counts = error_counts l,
      r_stop_reason = stop_reason l\<rparr>"

definition from_record ::
  "(routing_budget_policy \<Rightarrow> string) \<Rightarrow> routing_budget_policy \<Rightarrow> route_budget_record \<Rightarrow> ledger result" where
  "from_record checksum p r =
     (if r_policy_version r \<noteq> policy_version p \<or> r_policy_checksum r \<noteq> checksum p
      then Inl (ValueError ''checkpoint routing budget policy does not match the active policy'')
      else if r_limits r \<noteq> routes p (r_route r)
      then Inl (ValueError ''checkpoint route limits do not match the active policy'')
      else Inr \<lparr>route = r_route r, policy = p, model_calls = u_model_calls (r_usage r),
        sql_candidates = u_sql_candidates (r_usage r),
        sql_executions = u_sql_executions (r_usage r), join_hops = u_join_hops (r_usage r),
        repairs = u_repairs (r_usage r),
        retryable_provider_errors = u_retryable_provider_errors (r_usage r),
        sql_fingerprint_counts = r_sql_fingerprint_counts r,
        error_counts = r_error_counts r, stop_reason = r_stop_reason r\<rparr>)"

section \<open>Operations as one step relation\<close>

datatype ledger_op =
    BeginModelCall
  | RecordSqlCandidate string
  | BeginSqlExecution
  | ObserveJoinHops int
  | BeginRepair
  | RecordProviderRetries int
  | RecordError string bool bool
  | Halt string

fun run_op :: "ledger_op \<Rightarrow> ledger \<Rightarrow> string option result \<times> ledger" where
  "run_op BeginModelCall l = map_prod (map_sum id (\<lambda>_. None)) id (begin_model_call l)"
| "run_op (RecordSqlCandidate fp) l = record_sql_candidate fp l"
| "run_op BeginSqlExecution l = map_prod (map_sum id (\<lambda>_. None)) id (begin_sql_execution l)"
| "run_op (ObserveJoinHops n) l = map_prod (map_sum id (\<lambda>_. None)) id (observe_join_hops n l)"
| "run_op BeginRepair l = map_prod (map_sum id (\<lambda>_. None)) id (begin_repair l)"
| "run_op (RecordProviderRetries n) l = record_provider_retries n l"
| "run_op (RecordError t d r) l = record_error t d r l"
| "run_op (Halt reason) l = map_prod (map_sum id Some) id (halt reason l)"

definition ledger_step :: "ledger \<Rightarrow> ledger \<Rightarrow> bool" where
  "ledger_step l l' \<longleftrightarrow> (\<exists>op. l' = snd (run_op op l))"

definition ledger_init :: "ledger \<Rightarrow> bool" where
  "ledger_init l \<longleftrightarrow> (\<exists>r p. policy_ok p \<and> l = new_ledger r p)"

text \<open>
  What every reachable ledger satisfies: counters stay between zero and the route's limits, the
  per-fingerprint counts add up to the number of candidates, and as long as no stop reason is
  set no breaker threshold has been reached.
\<close>

definition ledger_inv :: "ledger \<Rightarrow> bool" where
  "ledger_inv l \<longleftrightarrow>
     policy_ok (policy l) \<and>
     0 \<le> model_calls l \<and> model_calls l \<le> max_model_calls (limits l) \<and>
     0 \<le> sql_candidates l \<and> sql_candidates l \<le> max_sql_candidates (limits l) \<and>
     0 \<le> sql_executions l \<and> sql_executions l \<le> max_sql_executions (limits l) \<and>
     0 \<le> join_hops l \<and> join_hops l \<le> max_join_hops (limits l) \<and>
     0 \<le> repairs l \<and> repairs l \<le> max_repairs (limits l) \<and>
     0 \<le> retryable_provider_errors l \<and>
     dict_ok (sql_fingerprint_counts l) \<and> counter_map_ok (sql_fingerprint_counts l) \<and>
     dict_ok (error_counts l) \<and> counter_map_ok (error_counts l) \<and>
     sum_list (map snd (sql_fingerprint_counts l)) = sql_candidates l \<and>
     (case stop_reason l of
        Some r \<Rightarrow> r \<noteq> [] \<and> strip r = r
      | None \<Rightarrow>
          (\<forall>(k, n) \<in> set (sql_fingerprint_counts l). n < max_same_sql (policy l)) \<and>
          (\<forall>(k, n) \<in> set (error_counts l). n < max_same_error (policy l)) \<and>
          retryable_provider_errors l \<le> max_retryable_provider_errors (policy l))"

section \<open>Halting\<close>

lemma set_stop_fields [simp]:
  "route (set_stop r l) = route l" "policy (set_stop r l) = policy l"
  "model_calls (set_stop r l) = model_calls l" "sql_candidates (set_stop r l) = sql_candidates l"
  "sql_executions (set_stop r l) = sql_executions l" "join_hops (set_stop r l) = join_hops l"
  "repairs (set_stop r l) = repairs l"
  "retryable_provider_errors (set_stop r l) = retryable_provider_errors l"
  "sql_fingerprint_counts (set_stop r l) = sql_fingerprint_counts l"
  "error_counts (set_stop r l) = error_counts l"
  "limits (set_stop r l) = limits l"
  by (simp_all add: set_stop_def limits_def split: option.splits)

lemma stop_reason_set_stop [simp]:
  "stop_reason (set_stop r l) = (case stop_reason l of None \<Rightarrow> Some r | Some s \<Rightarrow> Some s)"
  by (simp add: set_stop_def split: option.splits)

lemma snd_halt: "snd (halt r l) = (if strip r = [] then l else set_stop (strip r) l)"
  by (simp add: halt_def Let_def)

text \<open>The reasons the ledger halts with are stripped, non-empty literals.\<close>

lemma strip_reasons [simp]:
  "strip ''model_call_budget_exhausted'' = ''model_call_budget_exhausted''"
  "strip ''sql_candidate_budget_exhausted'' = ''sql_candidate_budget_exhausted''"
  "strip ''sql_execution_budget_exhausted'' = ''sql_execution_budget_exhausted''"
  "strip ''join_hop_budget_exhausted'' = ''join_hop_budget_exhausted''"
  "strip ''repair_budget_exhausted'' = ''repair_budget_exhausted''"
  "strip ''retryable_provider_error_budget_exhausted'' = ''retryable_provider_error_budget_exhausted''"
  "strip ''repeated_sql'' = ''repeated_sql''"
  "strip ''repeated_error'' = ''repeated_error''"
  "strip ''policy_denied'' = ''policy_denied''"
  by (simp_all add: strip_def is_space_def)

lemma sum_list_dset_inc:
  assumes "dict_ok d"
  shows "sum_list (map snd (dset k (dget_or 0 d k + 1) d)) = sum_list (map snd d) + (1 :: int)"
  using assms
proof (induction d)
  case Nil
  then show ?case by (simp add: dget_or_def)
next
  case (Cons p d)
  then show ?case by (cases p) (auto simp: dget_or_def)
qed

lemma counter_map_ok_dset:
  "counter_map_ok d \<Longrightarrow> k \<noteq> [] \<Longrightarrow> 1 \<le> n \<Longrightarrow> counter_map_ok (dset k n d)"
  using dset_set_subset[of k n d] by (auto simp: counter_map_ok_def)

lemma counter_map_ok_dget_or: "counter_map_ok d \<Longrightarrow> 0 \<le> dget_or 0 d k"
  by (fastforce simp: counter_map_ok_def dget_or_def split: option.splits dest: map_of_SomeD)

lemma below_dset:
  "\<forall>(k, n) \<in> set d. n < m \<Longrightarrow> v < m \<Longrightarrow> \<forall>(k, n) \<in> set (dset k v d). n < (m :: int)"
  using dset_set_subset[of k v d] by auto

section \<open>The invariant\<close>

lemmas ledger_op_defs = begin_model_call_def begin_sql_execution_def begin_repair_def
  record_sql_candidate_def observe_join_hops_def record_provider_retries_def record_error_def
  increment_def ensure_active_def Let_def snd_halt

lemma limits_upd [simp]:
  "limits (l\<lparr>model_calls := a\<rparr>) = limits l" "limits (l\<lparr>sql_candidates := a\<rparr>) = limits l"
  "limits (l\<lparr>sql_executions := a\<rparr>) = limits l" "limits (l\<lparr>join_hops := a\<rparr>) = limits l"
  "limits (l\<lparr>repairs := a\<rparr>) = limits l" "limits (l\<lparr>retryable_provider_errors := a\<rparr>) = limits l"
  "limits (l\<lparr>sql_fingerprint_counts := d\<rparr>) = limits l" "limits (l\<lparr>error_counts := d\<rparr>) = limits l"
  "limits (l\<lparr>stop_reason := s\<rparr>) = limits l"
  by (simp_all add: limits_def)

lemma ledger_inv_set_stop: "ledger_inv l \<Longrightarrow> r \<noteq> [] \<Longrightarrow> strip r = r \<Longrightarrow> ledger_inv (set_stop r l)"
  by (simp add: ledger_inv_def split: option.splits)

lemma ledger_inv_new: "policy_ok p \<Longrightarrow> ledger_inv (new_ledger r p)"
  by (simp add: ledger_inv_def new_ledger_def counter_map_ok_def limits_def policy_ok_def
        route_budget_ok_def zero_le_one order_trans[OF zero_le_one])

lemma ledger_inv_increment:
  assumes "ledger_inv l" "c \<noteq> SqlCandidates" "strip reason = reason" "reason \<noteq> []"
    and "limit = (case c of ModelCalls \<Rightarrow> max_model_calls (limits l)
                  | SqlExecutions \<Rightarrow> max_sql_executions (limits l)
                  | Repairs \<Rightarrow> max_repairs (limits l) | SqlCandidates \<Rightarrow> 0)"
  shows "ledger_inv (snd (increment c limit reason l))"
proof (cases "ensure_active l = None \<and> counter_val c l < limit")
  case True
  with assms show ?thesis
    by (cases c) (auto simp: ledger_inv_def increment_def split: option.splits)
next
  case False
  then have "snd (increment c limit reason l) \<in> {l, set_stop reason l}"
    using assms(3,4) by (auto simp: increment_def snd_halt split: option.splits)
  with assms show ?thesis by (auto intro: ledger_inv_set_stop)
qed

lemma ledger_inv_sql_candidate:
  assumes "ledger_inv l"
  shows "ledger_inv (snd (record_sql_candidate fp l))"
proof -
  let ?k = "strip fp" and ?d = "sql_fingerprint_counts l"
  let ?n = "dget_or 0 ?d ?k + 1"
  let ?l2 = "l\<lparr>sql_candidates := sql_candidates l + 1, sql_fingerprint_counts := dset ?k ?n ?d\<rparr>"
  show ?thesis
  proof (cases "?k = [] \<or> stop_reason l \<noteq> None \<or> sql_candidates l \<ge> max_sql_candidates (limits l)")
    case True
    with assms show ?thesis
      by (auto simp: record_sql_candidate_def increment_def ensure_active_def Let_def snd_halt
          split: option.splits intro: ledger_inv_set_stop)
  next
    case False
    have pos: "1 \<le> ?n"
      using assms counter_map_ok_dget_or[of ?d ?k] by (simp add: ledger_inv_def)
    have run: "snd (record_sql_candidate fp l) =
        (if ?n \<ge> max_same_sql (policy l) then set_stop ''repeated_sql'' ?l2 else ?l2)"
      using False by (auto simp: record_sql_candidate_def increment_def ensure_active_def Let_def snd_halt)
    have mset: "sum_list (map snd (dset ?k ?n ?d)) = sql_candidates l + 1"
      using assms sum_list_dset_inc[of ?d ?k] by (simp add: ledger_inv_def)
    have cm: "counter_map_ok (dset ?k ?n ?d)"
      using assms False pos by (auto simp: ledger_inv_def intro: counter_map_ok_dset)
    show ?thesis
    proof (cases "?n \<ge> max_same_sql (policy l)")
      case True
      with run assms False mset cm show ?thesis by (simp add: ledger_inv_def)
    next
      case f: False
      from assms False have old: "\<forall>(k, n) \<in> set ?d. n < max_same_sql (policy l)"
        by (simp add: ledger_inv_def)
      have below: "\<forall>(k, n) \<in> set (dset ?k ?n ?d). n < max_same_sql (policy l)"
        by (rule below_dset[OF old]) (use f in simp)
      from f have "snd (record_sql_candidate fp l) = ?l2" using run by simp
      moreover have "ledger_inv ?l2"
        using assms False mset cm below by (auto simp: ledger_inv_def)
      ultimately show ?thesis by simp
    qed
  qed
qed

lemma ledger_inv_join_hops: "ledger_inv l \<Longrightarrow> ledger_inv (snd (observe_join_hops n l))"
  by (auto simp: observe_join_hops_def ensure_active_def snd_halt ledger_inv_set_stop
      split: option.splits) (auto simp: ledger_inv_def)

lemma ledger_inv_retries: "ledger_inv l \<Longrightarrow> ledger_inv (snd (record_provider_retries n l))"
  by (auto simp: record_provider_retries_def ensure_active_def snd_halt Let_def ledger_inv_def
      split: option.splits)

text \<open>Counting one more error, before any halt: only the breaker threshold may be touched.\<close>

lemma ledger_inv_record_error:
  assumes "ledger_inv l"
  shows "ledger_inv (snd (record_error t d r l))"
proof -
  let ?k = "strip t" and ?d = "error_counts l"
  let ?n = "dget_or 0 ?d ?k + 1"
  let ?l1 = "l\<lparr>error_counts := dset ?k ?n ?d\<rparr>"
  show ?thesis
  proof (cases "?k = [] \<or> stop_reason l \<noteq> None")
    case True
    with assms show ?thesis
      by (auto simp: record_error_def ensure_active_def Let_def split: option.splits)
  next
    case False
    have "1 \<le> ?n"
      using assms counter_map_ok_dget_or[of ?d ?k] by (simp add: ledger_inv_def)
    then have cm: "counter_map_ok (dset ?k ?n ?d)"
      using assms False by (auto simp: ledger_inv_def intro: counter_map_ok_dset)
    from assms False have old: "\<forall>(k, n) \<in> set ?d. n < max_same_error (policy l)"
      by (simp add: ledger_inv_def)
    have below: "?n < max_same_error (policy l) \<Longrightarrow>
        \<forall>(k, n) \<in> set (dset ?k ?n ?d). n < max_same_error (policy l)"
      by (rule below_dset[OF old])
    show ?thesis
      using assms False cm below
      by (auto simp: record_error_def record_provider_retries_def ensure_active_def Let_def snd_halt
          ledger_inv_def split: option.splits if_splits)
  qed
qed

lemma ledger_inv_step: "ledger_inv l \<Longrightarrow> ledger_step l l' \<Longrightarrow> ledger_inv l'"
proof -
  assume inv: "ledger_inv l" and "ledger_step l l'"
  then obtain op where l': "l' = snd (run_op op l)" by (auto simp: ledger_step_def)
  have h: "ledger_inv (snd (halt r l))" for r
    using inv by (auto simp: snd_halt intro: ledger_inv_set_stop)
  have i: "ledger_inv (snd (begin_model_call l))" "ledger_inv (snd (begin_sql_execution l))"
    "ledger_inv (snd (begin_repair l))"
    unfolding begin_model_call_def begin_sql_execution_def begin_repair_def
    by (rule ledger_inv_increment[OF inv]; simp)+
  show ?thesis
    unfolding l'
    by (cases op) (simp_all add: snd_map_prod h i inv ledger_inv_sql_candidate
        ledger_inv_join_hops ledger_inv_retries ledger_inv_record_error)
qed

interpretation ledger_sys: invariant_system ledger_init ledger_step ledger_inv
  by unfold_locales (auto simp: ledger_init_def ledger_inv_new intro: ledger_inv_step)

section \<open>Stopping is final\<close>

text \<open>Between two states of a run: same route and policy, and a stop reason is never replaced.\<close>

definition stop_kept :: "ledger \<Rightarrow> ledger \<Rightarrow> bool" where
  "stop_kept l l' \<longleftrightarrow> route l' = route l \<and> policy l' = policy l \<and>
     (\<forall>r. stop_reason l = Some r \<longrightarrow> stop_reason l' = Some r)"

lemma increment_stopped:
  "stop_reason l = Some r \<Longrightarrow> increment c limit reason l = (Inl (BudgetExceeded r), l)"
  by (simp add: increment_def ensure_active_def)

lemma stop_kept_op: "stop_kept l (snd (run_op op l))"
proof (cases "stop_reason l")
  case (Some r)
  then have "snd (run_op op l) = l"
    by (cases op) (auto simp: ledger_op_defs set_stop_def split: option.splits)
  then show ?thesis by (simp add: stop_kept_def)
next
  case None
  have inc: "route (snd (increment c n s l)) = route l \<and> policy (snd (increment c n s l)) = policy l"
    for c n s
    using None by (cases c) (auto simp: increment_def ensure_active_def snd_halt)
  have "route (snd (run_op op l)) = route l \<and> policy (snd (run_op op l)) = policy l"
    using None inc
    by (cases op) (auto simp: snd_map_prod begin_model_call_def begin_sql_execution_def
        begin_repair_def record_sql_candidate_def observe_join_hops_def record_provider_retries_def
        record_error_def increment_def ensure_active_def Let_def snd_halt split: option.splits)
  with None show ?thesis by (simp add: stop_kept_def)
qed

interpretation ledger_rel: preserved_relation ledger_init ledger_step ledger_inv stop_kept
  by unfold_locales (auto simp: stop_kept_def ledger_step_def intro: stop_kept_op[unfolded stop_kept_def, THEN conjunct1]
      stop_kept_op[unfolded stop_kept_def, THEN conjunct2, THEN conjunct1]
      dest: stop_kept_op[unfolded stop_kept_def, THEN conjunct2, THEN conjunct2, rule_format])

section \<open>Bounded counters\<close>

text \<open>\<open>n\<close> calls of a counting operation in a row: how many of them succeed.\<close>

fun successes :: "('s \<Rightarrow> unit result \<times> 's) \<Rightarrow> nat \<Rightarrow> 's \<Rightarrow> nat" where
  "successes tick 0 s = 0"
| "successes tick (Suc n) s =
     (if fst (tick s) = Inr () then 1 else 0) + successes tick n (snd (tick s))"

text \<open>
  The contract the counting operations share: a stopped object refuses with its stop reason, an
  object below its cap counts one up, an object at its cap stops with the operation's reason.
\<close>

locale bounded_counter =
  fixes tick :: "'s \<Rightarrow> unit result \<times> 's"
    and used :: "'s \<Rightarrow> int"
    and cap :: "'s \<Rightarrow> int"
    and stopped :: "'s \<Rightarrow> string option"
    and reason :: string
  assumes tick_stopped: "stopped s = Some r \<Longrightarrow> tick s = (Inl (BudgetExceeded r), s)"
    and tick_below: "stopped s = None \<Longrightarrow> used s < cap s \<Longrightarrow>
          fst (tick s) = Inr () \<and> used (snd (tick s)) = used s + 1 \<and>
          cap (snd (tick s)) = cap s \<and> stopped (snd (tick s)) = None"
    and tick_full: "stopped s = None \<Longrightarrow> cap s \<le> used s \<Longrightarrow>
          fst (tick s) = Inl (BudgetExceeded reason) \<and> used (snd (tick s)) = used s \<and>
          cap (snd (tick s)) = cap s \<and> stopped (snd (tick s)) = Some reason"
begin

lemma successes_stopped: "stopped s = Some r \<Longrightarrow> successes tick n s = 0"
  by (induction n) (auto simp: tick_stopped)

lemma successes_eq:
  "stopped s = None \<Longrightarrow> used s \<le> cap s \<Longrightarrow> successes tick n s = min n (nat (cap s - used s))"
proof (induction n arbitrary: s)
  case 0
  show ?case by simp
next
  case (Suc n)
  show ?case
  proof (cases "used s < cap s")
    case True
    with Suc.prems tick_below[of s] Suc.IH[of "snd (tick s)"] show ?thesis by auto
  next
    case False
    with Suc.prems tick_full[of s] show ?thesis by (auto simp: successes_stopped)
  qed
qed

end

lemma increment_below:
  "stop_reason l = None \<Longrightarrow> counter_val c l < limit \<Longrightarrow>
   increment c limit reason l = (Inr (), counter_set c (counter_val c l + 1) l)"
  by (simp add: increment_def ensure_active_def)

lemma increment_full:
  "stop_reason l = None \<Longrightarrow> limit \<le> counter_val c l \<Longrightarrow> strip reason = reason \<Longrightarrow> reason \<noteq> [] \<Longrightarrow>
   increment c limit reason l = (Inl (BudgetExceeded reason), l\<lparr>stop_reason := Some reason\<rparr>)"
  by (simp add: increment_def ensure_active_def snd_halt set_stop_def)

lemmas increment_cases = increment_stopped increment_below increment_full

interpretation model_counter: bounded_counter begin_model_call model_calls
  "\<lambda>l. max_model_calls (limits l)" stop_reason "''model_call_budget_exhausted''"
  by unfold_locales (auto simp: begin_model_call_def increment_cases)

interpretation execution_counter: bounded_counter begin_sql_execution sql_executions
  "\<lambda>l. max_sql_executions (limits l)" stop_reason "''sql_execution_budget_exhausted''"
  by unfold_locales (auto simp: begin_sql_execution_def increment_cases)

interpretation repair_counter: bounded_counter begin_repair repairs
  "\<lambda>l. max_repairs (limits l)" stop_reason "''repair_budget_exhausted''"
  by unfold_locales (auto simp: begin_repair_def increment_cases)

section \<open>Properties\<close>

text \<open>The default policy of an empty environment, for concrete runs.\<close>

definition default_policy :: routing_budget_policy where
  "default_policy = \<lparr>policy_version = ''routing-budget.bootstrap.v1'', policy_state = Bootstrap,
     routes = bootstrap_route_budget (\<lambda>_. None), policy_reserve_ms = 800, max_same_sql = 2,
     max_same_error = 2, max_retryable_provider_errors = 1\<rparr>"

lemma bootstrap_default: "bootstrap_routing_budget_policy (\<lambda>_. None) = Inr default_policy"
proof -
  have "(\<lambda>r. case dget [(Fast, bootstrap_route_budget (\<lambda>_. None) Fast),
                (Standard, bootstrap_route_budget (\<lambda>_. None) Standard),
                (Deep, bootstrap_route_budget (\<lambda>_. None) Deep)] r of Some b \<Rightarrow> b | None \<Rightarrow> d)
        = bootstrap_route_budget (\<lambda>_. None)" for d
    by (rule ext, rename_tac r, case_tac r) simp_all
  then show ?thesis
    by (auto simp: bootstrap_routing_budget_policy_def mk_route_budget_def mk_routing_budget_policy_def
        default_policy_def Let_def min_deadline_def bootstrap_route_budget_def route_deadline_ms_def
        validated_eval)
qed

lemma default_policy_ok: "policy_ok default_policy"
  by (rule bootstrap_policy_ok[OF bootstrap_default])

lemma ledger_step_run: "ledger_step l (snd (run_op op l))"
  by (auto simp: ledger_step_def)

lemma stopped_run_op: "stop_reason l = Some r \<Longrightarrow> snd (run_op op l) = l"
  by (cases op) (auto simp: ledger_op_defs set_stop_def split: option.splits)

lemma stopped_steps: "ledger_step\<^sup>*\<^sup>* l l' \<Longrightarrow> stop_reason l = Some r \<Longrightarrow> l' = l"
  by (induction rule: rtranclp_induct) (auto simp: ledger_step_def stopped_run_op)

lemma reachable_ledger_inv: "policy_ok p \<Longrightarrow> ledger_step\<^sup>*\<^sup>* (new_ledger r p) l \<Longrightarrow> ledger_inv l"
  using ledger_sys.reachable_inv[of "new_ledger r p" l] by (auto simp: ledger_init_def)

lemma reachable_ledger_frame:
  "policy_ok p \<Longrightarrow> ledger_step\<^sup>*\<^sup>* (new_ledger r p) l \<Longrightarrow> policy l = p \<and> route l = r"
  using ledger_rel.steps_rel[of "new_ledger r p" l] ledger_inv_new[of p r]
  by (simp add: stop_kept_def new_ledger_def)

text \<open>C5. Whatever sequence of ledger operations a request performs, with whatever arguments and
  including operations that raise, no counter ever exceeds the limit its route has in the
  policy, and the recorded per-fingerprint counts add up to the number of SQL candidates.\<close>

theorem ledger_within_limits:
  assumes "policy_ok p" and "ledger_step\<^sup>*\<^sup>* (new_ledger r p) l"
  shows "model_calls l \<le> max_model_calls (routes p r) \<and>
    sql_candidates l \<le> max_sql_candidates (routes p r) \<and>
    sql_executions l \<le> max_sql_executions (routes p r) \<and>
    join_hops l \<le> max_join_hops (routes p r) \<and> repairs l \<le> max_repairs (routes p r) \<and>
    sum_list (map snd (sql_fingerprint_counts l)) = sql_candidates l"
  using reachable_ledger_inv[OF assms] reachable_ledger_frame[OF assms]
  by (simp add: ledger_inv_def limits_def)

theorem ledger_within_limits_witness:
  "\<exists>l. policy_ok default_policy \<and> ledger_step\<^sup>*\<^sup>* (new_ledger Fast default_policy) l \<and>
     model_calls l = 1 \<and> model_calls l \<le> max_model_calls (routes default_policy Fast)"
proof -
  let ?l = "snd (run_op BeginModelCall (new_ledger Fast default_policy))"
  have step: "ledger_step\<^sup>*\<^sup>* (new_ledger Fast default_policy) ?l"
    using ledger_step_run by blast
  have "model_calls ?l = 1"
    by (simp add: begin_model_call_def increment_def ensure_active_def new_ledger_def limits_def
        default_policy_def bootstrap_route_budget_def)
  with ledger_within_limits[OF default_policy_ok step] step default_policy_ok show ?thesis by blast
qed

text \<open>C6. Once a ledger has a stop reason, no sequence of further operations changes it: every
  counting operation raises \<open>BudgetExceeded\<close> with exactly that first reason, and the ledger
  keeps its counters.\<close>

theorem ledger_stop_is_final:
  assumes "stop_reason l = Some why" and "ledger_step\<^sup>*\<^sup>* l l'"
  shows "l' = l \<and> begin_model_call l' = (Inl (BudgetExceeded why), l) \<and>
    begin_sql_execution l' = (Inl (BudgetExceeded why), l) \<and>
    begin_repair l' = (Inl (BudgetExceeded why), l) \<and>
    observe_join_hops n l' = (Inl (BudgetExceeded why), l) \<and>
    (\<not> blank fp \<longrightarrow> record_sql_candidate fp l' = (Inl (BudgetExceeded why), l)) \<and>
    (\<not> blank tx \<longrightarrow> record_error tx d rt l' = (Inl (BudgetExceeded why), l))"
  using stopped_steps[OF assms(2,1)] assms(1)
  by (auto simp: begin_model_call_def begin_sql_execution_def begin_repair_def increment_stopped
      observe_join_hops_def record_sql_candidate_def record_error_def ensure_active_def blank_def Let_def)

theorem ledger_stop_is_final_witness:
  "\<exists>l. stop_reason l = Some ''repeated_sql'' \<and> ledger_step\<^sup>*\<^sup>* l l \<and>
     fst (begin_model_call l) = Inl (BudgetExceeded ''repeated_sql'')"
proof -
  let ?l = "(new_ledger Deep default_policy)\<lparr>stop_reason := Some ''repeated_sql''\<rparr>"
  have s: "stop_reason ?l = Some ''repeated_sql''" by simp
  from ledger_stop_is_final[OF s rtranclp.rtrancl_refl]
  have "begin_model_call ?l = (Inl (BudgetExceeded ''repeated_sql''), ?l)" by blast
  then show ?thesis using s by (metis fst_conv rtranclp.rtrancl_refl)
qed



text \<open>From any reachable ledger that has not stopped, \<open>n\<close> consecutive model calls, SQL
  executions or repairs succeed exactly as often as the remaining allowance permits.\<close>

theorem ledger_calls_exact:
  assumes "policy_ok p" and "ledger_step\<^sup>*\<^sup>* (new_ledger r p) l" and "stop_reason l = None"
  shows "successes begin_model_call n l = min n (nat (max_model_calls (routes p r) - model_calls l)) \<and>
    successes begin_sql_execution n l =
      min n (nat (max_sql_executions (routes p r) - sql_executions l)) \<and>
    successes begin_repair n l = min n (nat (max_repairs (routes p r) - repairs l))"
  using reachable_ledger_inv[OF assms(1,2)] reachable_ledger_frame[OF assms(1,2)] assms(3)
    model_counter.successes_eq[of l n] execution_counter.successes_eq[of l n]
    repair_counter.successes_eq[of l n]
  by (simp add: ledger_inv_def limits_def)

theorem ledger_calls_exact_witness:
  "successes begin_model_call 7 (new_ledger Standard default_policy) = 3"
proof -
  have "ledger_step\<^sup>*\<^sup>* (new_ledger Standard default_policy) (new_ledger Standard default_policy)" by simp
  from ledger_calls_exact[OF default_policy_ok this, of 7] show ?thesis
    by (simp add: new_ledger_def default_policy_def bootstrap_route_budget_def)
qed

end
