(* ===== verification/Routing.thy ===== *)
theory Routing
  imports Budget
begin

text \<open>
  Deterministic risk routing: \<^verbatim>\<open>src/src/nl2sql/orchestration/routing.py\<close> and \<open>RoutePolicy\<close> of
  \<^verbatim>\<open>src/src/nl2sql/contracts.py\<close>.  Confidences are floats that are only compared, so they are
  reals; the policy checksum is an argument.
\<close>

section \<open>Signals, policy and decision\<close>

record risk_signals =
  restricted_data :: bool
  table_count :: int
  ambiguous_metric_or_filter :: bool
  dynamic_calculation :: bool
  unknown_explain_cost :: bool
  requires_model :: bool
  fast_budget_available :: bool

definition mk_risk_signals :: "risk_signals \<Rightarrow> risk_signals result" where
  "mk_risk_signals s =
     (if table_count s < 1 then Inl (ValueError ''table count must be positive'') else Inr s)"

definition score :: "risk_signals \<Rightarrow> int" where
  "score s = 35 * of_bool (restricted_data s) + 20 * of_bool (table_count s \<ge> 3)
     + 20 * of_bool (ambiguous_metric_or_filter s) + 15 * of_bool (dynamic_calculation s)
     + 10 * of_bool (unknown_explain_cost s)"

record route_policy =
  rp_version :: string
  rp_state :: policy_lifecycle
  fast_max_risk :: int
  fast_min_confidence :: real
  fast_max_tables :: int
  standard_max_risk :: int
  standard_min_confidence :: real

definition mk_route_policy :: "route_policy \<Rightarrow> route_policy result" where
  "mk_route_policy p = validated
     [(\<not> (1 \<le> length (rp_version p) \<and> length (rp_version p) \<le> 128), FieldError ''version''),
      (\<not> (0 \<le> fast_max_risk p \<and> fast_max_risk p \<le> 100), FieldError ''fast_max_risk''),
      (\<not> (0 \<le> fast_min_confidence p \<and> fast_min_confidence p \<le> 1), FieldError ''fast_min_confidence''),
      (\<not> 1 \<le> fast_max_tables p, FieldError ''fast_max_tables''),
      (\<not> (0 \<le> standard_max_risk p \<and> standard_max_risk p \<le> 100), FieldError ''standard_max_risk''),
      (\<not> (0 \<le> standard_min_confidence p \<and> standard_min_confidence p \<le> 1),
       FieldError ''standard_min_confidence''),
      (fast_max_risk p > standard_max_risk p, ValueError ''fast risk threshold cannot exceed standard''),
      (fast_min_confidence p < standard_min_confidence p,
       ValueError ''fast confidence threshold cannot be lower than standard'')] p"

record route_decision =
  rd_route :: route_name
  rd_risk :: int
  rd_confidence :: real
  rd_reason :: string
  rd_signals :: risk_signals
  rd_policy_version :: string
  rd_policy_state :: policy_lifecycle
  rd_policy_checksum :: string

definition bootstrap_route_policy :: route_policy where
  "bootstrap_route_policy = \<lparr>rp_version = ''route.bootstrap.v2'', rp_state = Bootstrap,
     fast_max_risk = 20, fast_min_confidence = 85 / 100, fast_max_tables = 1,
     standard_max_risk = 60, standard_min_confidence = 55 / 100\<rparr>"

definition choose_route ::
  "(route_policy \<Rightarrow> string) \<Rightarrow> risk_signals \<Rightarrow> real \<Rightarrow> route_policy option \<Rightarrow> route_decision result" where
  "choose_route checksum signals confidence policy =
     (if \<not> (0 \<le> confidence \<and> confidence \<le> 1)
      then Inl (ValueError ''route confidence must be between 0 and 1'')
      else
        let resolved = (case policy of Some p \<Rightarrow> p | None \<Rightarrow> bootstrap_route_policy);
            risk = score signals;
            fast_candidate = (risk \<le> fast_max_risk resolved \<and>
              confidence \<ge> fast_min_confidence resolved \<and>
              table_count signals \<le> fast_max_tables resolved);
            (route, reason) =
              (if fast_candidate \<and> \<not> requires_model signals \<and> fast_budget_available signals
               then (Fast, ''low_risk_high_confidence'')
               else if risk \<le> standard_max_risk resolved \<and> confidence \<ge> standard_min_confidence resolved
               then (Standard,
                     if fast_candidate \<and> \<not> requires_model signals \<and> \<not> fast_budget_available signals
                     then ''fast_budget_unavailable''
                     else if fast_candidate then ''model_required'' else ''bounded_risk'')
               else (Deep, ''high_risk_or_low_confidence''))
        in Inr \<lparr>rd_route = route, rd_risk = risk, rd_confidence = confidence, rd_reason = reason,
             rd_signals = signals, rd_policy_version = rp_version resolved,
             rd_policy_state = rp_state resolved, rd_policy_checksum = checksum resolved\<rparr>)"

section \<open>Monotonicity of routing\<close>

text \<open>The cost order of the routes and the risk order on signals.\<close>

fun route_rank :: "route_name \<Rightarrow> nat" where
  "route_rank Fast = 0"
| "route_rank Standard = 1"
| "route_rank Deep = 2"

definition riskier :: "risk_signals \<Rightarrow> risk_signals \<Rightarrow> bool" where
  "riskier s t \<longleftrightarrow> (restricted_data s \<longrightarrow> restricted_data t) \<and> table_count s \<le> table_count t \<and>
     (ambiguous_metric_or_filter s \<longrightarrow> ambiguous_metric_or_filter t) \<and>
     (dynamic_calculation s \<longrightarrow> dynamic_calculation t) \<and>
     (unknown_explain_cost s \<longrightarrow> unknown_explain_cost t) \<and>
     (requires_model s \<longrightarrow> requires_model t) \<and>
     (fast_budget_available t \<longrightarrow> fast_budget_available s)"

lemma score_bounds: "0 \<le> score s \<and> score s \<le> 100"
  by (simp add: score_def of_bool_def)

lemma score_mono: "riskier s t \<Longrightarrow> score s \<le> score t"
  by (auto simp: riskier_def score_def of_bool_def)

text \<open>The route as a function of the policy in force, and its dependence on risk and confidence.\<close>

definition route_of :: "route_policy \<Rightarrow> risk_signals \<Rightarrow> real \<Rightarrow> route_name" where
  "route_of p s c =
     (if score s \<le> fast_max_risk p \<and> c \<ge> fast_min_confidence p \<and> table_count s \<le> fast_max_tables p \<and>
         \<not> requires_model s \<and> fast_budget_available s then Fast
      else if score s \<le> standard_max_risk p \<and> c \<ge> standard_min_confidence p then Standard else Deep)"

lemma choose_route_route:
  "choose_route cs s c (Some p) = Inr d \<Longrightarrow> rd_route d = route_of p s c \<and> rd_risk d = score s"
  by (auto simp: choose_route_def route_of_def Let_def split: if_splits)

lemma route_of_mono:
  assumes "fast_max_risk p \<le> standard_max_risk p" "standard_min_confidence p \<le> fast_min_confidence p"
    and "riskier s t" "c' \<le> c"
  shows "route_rank (route_of p s c) \<le> route_rank (route_of p t c')"
  using assms(1,2,4) score_mono[OF assms(3)] assms(3)
  by (auto simp: route_of_def riskier_def)

text \<open>C8. Routing is monotone: under a policy that passed its own validation, adding risk
  signals, tables or a model requirement, taking the fast budget away, or lowering the
  confidence never moves a request to a cheaper route.\<close>

theorem choose_route_monotone:
  assumes "mk_route_policy p = Inr p'" and "riskier s t" and "c' \<le> c"
    and "choose_route cs s c (Some p) = Inr d" and "choose_route cs t c' (Some p) = Inr d'"
  shows "route_rank (rd_route d) \<le> route_rank (rd_route d')"
proof -
  have "fast_max_risk p \<le> standard_max_risk p" "standard_min_confidence p \<le> fast_min_confidence p"
    using assms(1) by (auto simp: mk_route_policy_def split: if_splits)
  then show ?thesis
    using route_of_mono[OF _ _ assms(2,3)] choose_route_route[OF assms(4)] choose_route_route[OF assms(5)]
    by simp
qed

text \<open>A quiet single-table request, and the same request over restricted data.\<close>

definition quiet_signals :: risk_signals where
  "quiet_signals = \<lparr>restricted_data = False, table_count = 1, ambiguous_metric_or_filter = False,
     dynamic_calculation = False, unknown_explain_cost = False, requires_model = False,
     fast_budget_available = True\<rparr>"

theorem choose_route_monotone_witness:
  "\<exists>d d'. choose_route (\<lambda>_. []) quiet_signals 1 (Some bootstrap_route_policy) = Inr d \<and>
     choose_route (\<lambda>_. []) (quiet_signals\<lparr>restricted_data := True\<rparr>) (9 / 10)
       (Some bootstrap_route_policy) = Inr d' \<and>
     rd_route d = Fast \<and> rd_route d' = Standard \<and> route_rank (rd_route d) \<le> route_rank (rd_route d')"
proof -
  have v: "mk_route_policy bootstrap_route_policy = Inr bootstrap_route_policy"
    by (simp add: mk_route_policy_def bootstrap_route_policy_def)
  have r: "riskier quiet_signals (quiet_signals\<lparr>restricted_data := True\<rparr>)"
    by (simp add: riskier_def quiet_signals_def)
  obtain d where d: "choose_route (\<lambda>_. []) quiet_signals 1 (Some bootstrap_route_policy) = Inr d"
    "rd_route d = Fast"
    by (simp add: choose_route_def quiet_signals_def bootstrap_route_policy_def score_def)
  obtain d' where d': "choose_route (\<lambda>_. []) (quiet_signals\<lparr>restricted_data := True\<rparr>) (9 / 10)
       (Some bootstrap_route_policy) = Inr d'" "rd_route d' = Standard"
    by (simp add: choose_route_def quiet_signals_def bootstrap_route_policy_def score_def)
  have "(9 / 10 :: real) \<le> 1" by simp
  from choose_route_monotone[OF v r this d(1) d'(1)] d d' show ?thesis by blast
qed

end
