(* ===== verification/Mode_Contract.thy ===== *)
theory Mode_Contract
  imports Prelude
begin

text \<open>
  Product modes and run envelopes: \<^verbatim>\<open>src/src/nl2sql/orchestration/mode_contract.py\<close>.  A run has
  one effective mode; a mode switch is a new run that may carry context but never permissions.
\<close>

section \<open>Modes and capabilities\<close>

datatype product_mode = QUERY | ANALYZE | BUILD

datatype requested_mode = Auto | Requested product_mode

definition default_mode_for_auto :: product_mode where
  "default_mode_for_auto = ANALYZE"

fun capabilities_for_mode :: "product_mode \<Rightarrow> string list" where
  "capabilities_for_mode QUERY = [''deterministic_retrieval'']"
| "capabilities_for_mode ANALYZE =
     [''deterministic_retrieval'', ''model_analysis'', ''run_scoped_derivation'']"
| "capabilities_for_mode BUILD =
     [''deterministic_retrieval'', ''model_analysis'', ''run_scoped_derivation'', ''semantic_authoring'']"

definition forbidden_capabilities :: "string set" where
  "forbidden_capabilities = {''data_authorization'', ''organization_scope'', ''relation_access'',
     ''model_input_egress'', ''canonical_authority'', ''publication_authority'', ''code_act''}"

fun resolve_requested_mode :: "requested_mode \<Rightarrow> product_mode" where
  "resolve_requested_mode Auto = default_mode_for_auto"
| "resolve_requested_mode (Requested m) = m"

section \<open>Envelopes, proposals and outcomes\<close>

text \<open>\<open>Field(min_length=lo, max_length=hi)\<close>, and the same on an optional field.\<close>

definition len_between :: "nat \<Rightarrow> nat \<Rightarrow> string \<Rightarrow> bool" where
  "len_between lo hi s \<longleftrightarrow> lo \<le> length s \<and> length s \<le> hi"

definition opt_len_between :: "nat \<Rightarrow> nat \<Rightarrow> string option \<Rightarrow> bool" where
  "opt_len_between lo hi o_s = (case o_s of None \<Rightarrow> True | Some s \<Rightarrow> len_between lo hi s)"

record run_envelope =
  run_id :: string
  requested_mode :: requested_mode
  effective_mode :: product_mode
  switched_from_run_id :: "string option"
  migrated_context_ref :: "string option"

definition mk_run_envelope :: "run_envelope \<Rightarrow> run_envelope result" where
  "mk_run_envelope e = validated
     [(\<not> len_between 1 64 (run_id e), FieldError ''run_id''),
      (\<not> opt_len_between 1 64 (switched_from_run_id e), FieldError ''switched_from_run_id''),
      (\<not> opt_len_between 1 128 (migrated_context_ref e), FieldError ''migrated_context_ref''),
      (effective_mode e \<noteq> resolve_requested_mode (requested_mode e),
       ValueError ''effective mode must be the resolution of the requested mode''),
      (switched_from_run_id e = Some (run_id e), ValueError ''a mode switch must start a NEW run''),
      (switched_from_run_id e = None \<and> migrated_context_ref e \<noteq> None,
       ValueError ''migrated context requires a switch lineage'')] e"

definition envelope_capabilities :: "run_envelope \<Rightarrow> string list" where
  "envelope_capabilities e = capabilities_for_mode (effective_mode e)"

record mode_switch_proposal =
  current_run_id :: string
  current_mode :: product_mode
  proposed_mode :: product_mode
  proposal_reason :: string

definition mk_mode_switch_proposal :: "mode_switch_proposal \<Rightarrow> mode_switch_proposal result" where
  "mk_mode_switch_proposal p = validated
     [(\<not> len_between 1 64 (current_run_id p), FieldError ''current_run_id''),
      (\<not> len_between 1 512 (proposal_reason p), FieldError ''reason''),
      (current_mode p = proposed_mode p, ValueError ''a mode-switch proposal must change the mode'')] p"

datatype outcome = Resolved | ClarificationRequired | CannotResolve

record mode_capability_outcome =
  o_run_id :: string
  o_effective_mode :: product_mode
  o_outcome :: outcome
  o_suggested_mode :: "product_mode option"
  o_unresolved_slots :: "string list"

definition mk_mode_capability_outcome ::
  "mode_capability_outcome \<Rightarrow> mode_capability_outcome result" where
  "mk_mode_capability_outcome r = validated
     [(\<not> len_between 1 64 (o_run_id r), FieldError ''run_id''),
      (length (o_unresolved_slots r) > 16, FieldError ''unresolved_slots''),
      (o_outcome r = CannotResolve \<and> o_suggested_mode r = None,
       ValueError ''cannot_resolve must name a suggested mode''),
      (o_outcome r \<noteq> CannotResolve \<and> o_suggested_mode r \<noteq> None,
       ValueError ''suggested mode is only meaningful for cannot_resolve''),
      (o_suggested_mode r = Some (o_effective_mode r),
       ValueError ''a suggestion must name a different mode''),
      (o_outcome r = Resolved \<and> o_unresolved_slots r \<noteq> [],
       ValueError ''a resolved outcome cannot carry unresolved slots''),
      (o_outcome r = ClarificationRequired \<and> o_unresolved_slots r = [],
       ValueError ''clarification requires an unresolved slot'')] r"

section \<open>Properties\<close>

lemma mode_not_forbidden: "set (capabilities_for_mode m) \<inter> forbidden_capabilities = {}"
proof -
  have "list_all (\<lambda>c. c \<notin> forbidden_capabilities) (capabilities_for_mode m)"
    by (cases m) (simp_all add: forbidden_capabilities_def)
  then show ?thesis by (auto simp: list_all_iff)
qed

lemma mode_model_analysis: "''model_analysis'' \<in> set (capabilities_for_mode m) \<longleftrightarrow> m \<noteq> QUERY"
  by (cases m) simp_all

lemma mode_authoring: "''semantic_authoring'' \<in> set (capabilities_for_mode m) \<longleftrightarrow> m = BUILD"
  by (cases m) simp_all

text \<open>C9. Every run envelope that validates has exactly the capabilities of the mode its request
  resolves to; none of them is a forbidden authority; a QUERY run has no model capability, only
  a BUILD run may author semantics, and an automatic request never gets authoring.\<close>

theorem envelope_capabilities_bounded:
  assumes "mk_run_envelope e = Inr e'"
  shows "envelope_capabilities e' = capabilities_for_mode (resolve_requested_mode (requested_mode e)) \<and>
    set (envelope_capabilities e') \<inter> forbidden_capabilities = {} \<and>
    (''model_analysis'' \<in> set (envelope_capabilities e') \<longleftrightarrow> requested_mode e \<noteq> Requested QUERY) \<and>
    (''semantic_authoring'' \<in> set (envelope_capabilities e') \<longleftrightarrow> requested_mode e = Requested BUILD)"
proof -
  from assms have e: "e' = e" "effective_mode e = resolve_requested_mode (requested_mode e)"
    by (auto simp: mk_run_envelope_def)
  then have caps: "envelope_capabilities e' = capabilities_for_mode (resolve_requested_mode (requested_mode e))"
    by (simp add: envelope_capabilities_def)
  show ?thesis
    unfolding caps
    by (cases "requested_mode e")
      (simp_all add: default_mode_for_auto_def mode_not_forbidden mode_model_analysis mode_authoring
        del: capabilities_for_mode.simps)
qed

theorem envelope_capabilities_bounded_witness:
  "\<exists>e. mk_run_envelope e = Inr e \<and> requested_mode e = Auto \<and>
     ''semantic_authoring'' \<notin> set (envelope_capabilities e)"
proof -
  let ?e = "\<lparr>run_id = ''r2'', requested_mode = Auto, effective_mode = ANALYZE,
             switched_from_run_id = Some ''r1'', migrated_context_ref = Some ''ctx''\<rparr>"
  have v: "mk_run_envelope ?e = Inr ?e"
    by (simp add: mk_run_envelope_def len_between_def opt_len_between_def default_mode_for_auto_def)
  have "requested_mode ?e = Auto" by simp
  with envelope_capabilities_bounded[OF v] v show ?thesis by (metis requested_mode.distinct(1))
qed

end
