(* ===== verification/Capacity.thy ===== *)
theory Capacity
  imports Prelude Complex_Main
begin

text \<open>
  Bounded FIFO capacity: class \<open>_BoundedCapacity\<close> and \<open>ConcurrencyGovernor\<close> of
  \<^verbatim>\<open>src/src/nl2sql/infra/governance/semaphore.py\<close>.

  The synchronous methods are functions on the limiter's state.  The coroutine \<open>acquire\<close> runs in
  many tasks of one event loop and can be suspended only at its \<open>await\<close> and its \<open>yield\<close>, so it is
  a step relation over task states: entering, the loop cancelling a waiting task (by timeout or
  from outside; a pending future is cancelled at once, a future that already has its result is
  not), resuming, and leaving.  Waiter objects are named by natural numbers.
\<close>

section \<open>The limiter\<close>

datatype future = Pending | ResultSet | Cancelled

record capacity =
  resource_type :: string
  active_limit :: int
  wait_queue_size :: int
  active :: int
  waiters :: "nat list"
  future_of :: "nat \<Rightarrow> future"
  granted :: "nat \<Rightarrow> bool"
  next_waiter :: nat

definition mk_capacity :: "string \<Rightarrow> int \<Rightarrow> int \<Rightarrow> real \<Rightarrow> capacity result" where
  "mk_capacity kind limit queue_size timeout_seconds = validated
     [(limit < 1, ValueError (kind @ '' active concurrency must be positive'')),
      (queue_size < 0, ValueError (kind @ '' wait queue size cannot be negative'')),
      (timeout_seconds \<le> 0, ValueError (kind @ '' capacity wait timeout must be positive''))]
     \<lparr>resource_type = kind, active_limit = limit, wait_queue_size = queue_size, active = 0, waiters = [],
      future_of = (\<lambda>_. Pending), granted = (\<lambda>_. False), next_waiter = 0\<rparr>"

definition future_done :: "capacity \<Rightarrow> nat \<Rightarrow> bool" where
  "future_done c w \<longleftrightarrow> future_of c w \<noteq> Pending"

definition discard_cancelled_waiters :: "capacity \<Rightarrow> capacity" where
  "discard_cancelled_waiters c =
     (if list_ex (future_done c) (waiters c)
      then c\<lparr>waiters := filter (\<lambda>w. \<not> future_done c w) (waiters c)\<rparr> else c)"

text \<open>\<open>_reserve_or_enqueue\<close>: \<open>Inr None\<close> is an immediate slot, \<open>Inr (Some w)\<close> a new waiter.\<close>

definition reserve_or_enqueue :: "capacity \<Rightarrow> nat option result \<times> capacity" where
  "reserve_or_enqueue c0 =
     (let c = discard_cancelled_waiters c0 in
      if active c < active_limit c \<and> waiters c = []
      then (Inr None, c\<lparr>active := active c + 1\<rparr>)
      else if int (length (waiters c)) \<ge> wait_queue_size c
      then (Inl (CapacityExceededError ''queue_full'' (resource_type c)), c)
      else (let w = next_waiter c in
            (Inr (Some w),
             c\<lparr>waiters := waiters c @ [w], next_waiter := w + 1,
               future_of := (future_of c)(w := Pending), granted := (granted c)(w := False)\<rparr>)))"

text \<open>The \<open>while\<close> loop of \<open>_release\<close>: skip finished futures, grant the first pending one.\<close>

fun hand_over :: "nat list \<Rightarrow> capacity \<Rightarrow> capacity" where
  "hand_over [] c = c\<lparr>waiters := []\<rparr>"
| "hand_over (w # ws) c =
     (if future_done c w then hand_over ws c
      else c\<lparr>waiters := ws, granted := (granted c)(w := True), active := active c + 1,
             future_of := (future_of c)(w := ResultSet)\<rparr>)"

definition release :: "capacity \<Rightarrow> unit result \<times> capacity" where
  "release c =
     (if active c < 1
      then (Inl (RuntimeError (resource_type c @ '' capacity slot released without an active holder'')), c)
      else (let c1 = c\<lparr>active := active c - 1\<rparr> in (Inr (), hand_over (waiters c1) c1)))"

definition withdraw_waiter :: "nat \<Rightarrow> capacity \<Rightarrow> unit result \<times> capacity" where
  "withdraw_waiter w c =
     (if granted c w then release c
      else (let c1 = c\<lparr>waiters := remove1 w (waiters c)\<rparr> in
            (Inr (), if \<not> future_done c1 w then c1\<lparr>future_of := (future_of c1)(w := Cancelled)\<rparr> else c1)))"

record capacity_status =
  st_limit :: int
  st_available :: int
  st_active :: int
  st_waiting :: int
  st_queue_limit :: int

definition status :: "capacity \<Rightarrow> capacity_status" where
  "status c = \<lparr>st_limit = active_limit c, st_available = active_limit c - active c,
     st_active = active c, st_waiting = int (length (waiters c)), st_queue_limit = wait_queue_size c\<rparr>"

section \<open>Tasks running \<open>acquire\<close>\<close>

datatype abandon = TimedOut | TaskCancelled

datatype task =
    Idle
  | Waiting nat
  | Cancelling nat abandon
  | Holding
  | Finished
  | Rejected exn
  | Aborted

record limiter =
  cap :: capacity
  tasks :: "nat \<Rightarrow> task"

text \<open>How an abandoned wait ends: a timeout becomes an error, an outside cancellation propagates.\<close>

fun abandoned :: "string \<Rightarrow> abandon \<Rightarrow> task" where
  "abandoned kind TimedOut = Rejected (CapacityExceededError ''wait_timeout'' kind)"
| "abandoned kind TaskCancelled = Aborted"

inductive acquire_step :: "limiter \<Rightarrow> limiter \<Rightarrow> bool" where
  enter_now: "tasks s t = Idle \<Longrightarrow> reserve_or_enqueue (cap s) = (Inr None, c) \<Longrightarrow>
     acquire_step s (s\<lparr>cap := c, tasks := (tasks s)(t := Holding)\<rparr>)"
| enter_wait: "tasks s t = Idle \<Longrightarrow> reserve_or_enqueue (cap s) = (Inr (Some w), c) \<Longrightarrow>
     acquire_step s (s\<lparr>cap := c, tasks := (tasks s)(t := Waiting w)\<rparr>)"
| enter_full: "tasks s t = Idle \<Longrightarrow> reserve_or_enqueue (cap s) = (Inl e, c) \<Longrightarrow>
     acquire_step s (s\<lparr>cap := c, tasks := (tasks s)(t := Rejected e)\<rparr>)"
| resume: "tasks s t = Waiting w \<Longrightarrow> future_of (cap s) w = ResultSet \<Longrightarrow>
     acquire_step s (s\<lparr>tasks := (tasks s)(t := Holding)\<rparr>)"
| interrupt: "tasks s t = Waiting w \<Longrightarrow>
     acquire_step s (s\<lparr>cap := (if future_of (cap s) w = Pending
          then (cap s)\<lparr>future_of := (future_of (cap s))(w := Cancelled)\<rparr> else cap s),
        tasks := (tasks s)(t := Cancelling w why)\<rparr>)"
| give_up: "tasks s t = Cancelling w why \<Longrightarrow> withdraw_waiter w (cap s) = (Inr u, c) \<Longrightarrow>
     acquire_step s (s\<lparr>cap := c, tasks := (tasks s)(t := abandoned (resource_type (cap s)) why)\<rparr>)"
| give_up_fails: "tasks s t = Cancelling w why \<Longrightarrow> withdraw_waiter w (cap s) = (Inl e, c) \<Longrightarrow>
     acquire_step s (s\<lparr>cap := c, tasks := (tasks s)(t := Rejected e)\<rparr>)"
| leave: "tasks s t = Holding \<Longrightarrow> release (cap s) = (Inr u, c) \<Longrightarrow>
     acquire_step s (s\<lparr>cap := c, tasks := (tasks s)(t := Finished)\<rparr>)"
| leave_fails: "tasks s t = Holding \<Longrightarrow> release (cap s) = (Inl e, c) \<Longrightarrow>
     acquire_step s (s\<lparr>cap := c, tasks := (tasks s)(t := Rejected e)\<rparr>)"

definition limiter_init :: "limiter \<Rightarrow> bool" where
  "limiter_init s \<longleftrightarrow>
     (\<exists>kind limit queue_size timeout. mk_capacity kind limit queue_size timeout = Inr (cap s)) \<and> tasks s = (\<lambda>_. Idle)"

section \<open>The governor\<close>

text \<open>\<open>ConcurrencyGovernor.__init__\<close>: the four capacities by resource name, in source order.\<close>

definition mk_governor ::
  "int \<Rightarrow> int \<Rightarrow> int \<Rightarrow> int \<Rightarrow> int \<Rightarrow> real \<Rightarrow> int \<Rightarrow> int \<Rightarrow> int \<Rightarrow> (string, capacity) dict result" where
  "mk_governor rag sql code_lim index_lim sql_queue wait_timeout rag_queue code_queue index_queue =
     (case mk_capacity ''RAG'' rag rag_queue wait_timeout of Inl e \<Rightarrow> Inl e | Inr c_rag \<Rightarrow>
     (case mk_capacity ''SQL'' sql sql_queue wait_timeout of Inl e \<Rightarrow> Inl e | Inr c_sql \<Rightarrow>
     (case mk_capacity ''code'' code_lim code_queue wait_timeout of Inl e \<Rightarrow> Inl e | Inr c_code \<Rightarrow>
     (case mk_capacity ''index'' index_lim index_queue wait_timeout of Inl e \<Rightarrow> Inl e | Inr c_index \<Rightarrow>
        Inr [(''rag'', c_rag), (''sql'', c_sql), (''code'', c_code), (''index'', c_index)]))))"

definition get_status :: "(string, capacity) dict \<Rightarrow> (string \<times> capacity_status) list" where
  "get_status g = map (\<lambda>(name, c). (name, status c)) g"

section \<open>Occupied slots and the invariant\<close>

text \<open>A task occupies a slot when it is inside the body or its waiter has been granted one.\<close>

fun occupies :: "(nat \<Rightarrow> bool) \<Rightarrow> task \<Rightarrow> bool" where
  "occupies g Holding = True"
| "occupies g (Waiting w) = g w"
| "occupies g (Cancelling w why) = g w"
| "occupies g _ = False"

fun waiter_of :: "task \<Rightarrow> nat option" where
  "waiter_of (Waiting w) = Some w"
| "waiter_of (Cancelling w why) = Some w"
| "waiter_of _ = None"

definition occupants :: "limiter \<Rightarrow> nat set" where
  "occupants s = {t. occupies (granted (cap s)) (tasks s t)}"

definition pending :: "limiter \<Rightarrow> nat list" where
  "pending s = filter (\<lambda>w. future_of (cap s) w = Pending) (waiters (cap s))"

definition limiter_inv :: "limiter \<Rightarrow> bool" where
  "limiter_inv s \<longleftrightarrow>
     1 \<le> active_limit (cap s) \<and> 0 \<le> wait_queue_size (cap s) \<and>
     finite (occupants s) \<and> active (cap s) = int (card (occupants s)) \<and>
     active (cap s) \<le> active_limit (cap s) \<and>
     distinct (waiters (cap s)) \<and> int (length (waiters (cap s))) \<le> wait_queue_size (cap s) \<and>
     (\<forall>w \<in> set (waiters (cap s)). w < next_waiter (cap s) \<and> \<not> granted (cap s) w \<and>
        (future_of (cap s) w = Pending \<longrightarrow> (\<exists>t. tasks s t = Waiting w))) \<and>
     (\<forall>t w. tasks s t = Waiting w \<longrightarrow> w < next_waiter (cap s) \<and>
        (if granted (cap s) w then future_of (cap s) w = ResultSet
         else future_of (cap s) w = Pending \<and> w \<in> set (waiters (cap s)))) \<and>
     (\<forall>t w why. tasks s t = Cancelling w why \<longrightarrow> w < next_waiter (cap s) \<and>
        (if granted (cap s) w then future_of (cap s) w = ResultSet
         else future_of (cap s) w = Cancelled)) \<and>
     (\<forall>t t' w. waiter_of (tasks s t) = Some w \<longrightarrow> waiter_of (tasks s t') = Some w \<longrightarrow> t = t') \<and>
     (pending s \<noteq> [] \<longrightarrow> active (cap s) = active_limit (cap s))"

section \<open>Preservation\<close>

lemma future_done_active [simp]: "future_done (c\<lparr>active := a\<rparr>) = future_done c"
  by (simp add: future_done_def fun_eq_iff)

lemma hand_over_eq:
  "hand_over ws c =
     (case dropWhile (future_done c) ws of
        [] \<Rightarrow> c\<lparr>waiters := []\<rparr>
      | w # rest \<Rightarrow> c\<lparr>waiters := rest, granted := (granted c)(w := True), active := active c + 1,
                      future_of := (future_of c)(w := ResultSet)\<rparr>)"
  by (induction ws) auto

lemma release_eq:
  "1 \<le> active c \<Longrightarrow> release c =
     (Inr (), case dropWhile (future_done c) (waiters c) of
        [] \<Rightarrow> c\<lparr>active := active c - 1, waiters := []\<rparr>
      | w # rest \<Rightarrow> c\<lparr>waiters := rest, granted := (granted c)(w := True),
                      future_of := (future_of c)(w := ResultSet)\<rparr>)"
  by (cases "dropWhile (future_done c) (waiters c)")
    (simp_all add: release_def hand_over_eq Let_def del: dropWhile_eq_Nil_conv)

text \<open>States a task can end in: no slot, no waiter.\<close>

definition final_task :: "task \<Rightarrow> bool" where
  "final_task e \<longleftrightarrow> waiter_of e = None \<and> (\<forall>g. \<not> occupies g e)"

lemma final_tasks [simp]: "final_task Finished" "final_task (Rejected x)" "final_task Aborted"
    "final_task (abandoned k why)"
  by (cases why; simp add: final_task_def)+

lemma waiter_of_Some_iff:
  "waiter_of x = Some w \<longleftrightarrow> x = Waiting w \<or> (\<exists>why. x = Cancelling w why)"
  by (cases x) auto

lemma occupies_mono_iff:
  "waiter_of x \<noteq> Some w \<Longrightarrow> occupies (g(w := b)) x = occupies g x"
  by (cases x) auto

lemma inv_count:
  "limiter_inv s \<Longrightarrow> finite (occupants s) \<and> active (cap s) = int (card (occupants s)) \<and>
     active (cap s) \<le> active_limit (cap s) \<and> (pending s \<noteq> [] \<longrightarrow> active (cap s) = active_limit (cap s))"
  unfolding limiter_inv_def by blast

lemma inv_length: "limiter_inv s \<Longrightarrow> int (length (waiters (cap s))) \<le> wait_queue_size (cap s)"
  by (simp add: limiter_inv_def)

lemma inv_waiting:
  "limiter_inv s \<Longrightarrow> tasks s t = Waiting w \<Longrightarrow> w < next_waiter (cap s) \<and>
     (if granted (cap s) w then future_of (cap s) w = ResultSet
      else future_of (cap s) w = Pending \<and> w \<in> set (waiters (cap s)))"
  by (simp add: limiter_inv_def)

lemma inv_cancelling:
  "limiter_inv s \<Longrightarrow> tasks s t = Cancelling w why \<Longrightarrow> w < next_waiter (cap s) \<and>
     (if granted (cap s) w then future_of (cap s) w = ResultSet
      else future_of (cap s) w = Cancelled)"
  unfolding limiter_inv_def by blast

lemma inv_queued:
  "limiter_inv s \<Longrightarrow> w \<in> set (waiters (cap s)) \<Longrightarrow> w < next_waiter (cap s) \<and> \<not> granted (cap s) w \<and>
     (future_of (cap s) w = Pending \<longrightarrow> (\<exists>t. tasks s t = Waiting w))"
  by (simp add: limiter_inv_def)

lemma inv_owner:
  "limiter_inv s \<Longrightarrow> waiter_of (tasks s t) = Some w \<Longrightarrow> waiter_of (tasks s t') = Some w \<Longrightarrow> t = t'"
  unfolding limiter_inv_def by blast

lemmas inv_task_rules = inv_waiting inv_cancelling inv_queued inv_owner

lemma limiter_active_pos:
  "limiter_inv s \<Longrightarrow> t \<in> occupants s \<Longrightarrow> 1 \<le> active (cap s)"
proof -
  assume "limiter_inv s" "t \<in> occupants s"
  then have "0 < card (occupants s)" and "active (cap s) = int (card (occupants s))"
    by (auto simp: limiter_inv_def card_gt_0_iff)
  then show ?thesis by simp
qed

text \<open>
  Giving a slot back: the leaving task stops occupying, and either nobody waits or the first
  pending waiter takes over, so the number of occupants follows \<open>active\<close>.
\<close>

lemma limiter_inv_release:
  assumes inv: "limiter_inv s" and t: "t \<in> occupants s" and e: "final_task e"
  shows "fst (release (cap s)) = Inr () \<and>
    limiter_inv (s\<lparr>cap := snd (release (cap s)), tasks := (tasks s)(t := e)\<rparr>)"
    (is "_ \<and> limiter_inv ?s'")
proof -
  let ?c = "cap s"
  have act: "1 \<le> active ?c" by (rule limiter_active_pos[OF inv t])
  note rel = release_eq[OF act]
  from e have e': "waiter_of e = None" "\<And>g. \<not> occupies g e" by (auto simp: final_task_def)
  show ?thesis
  proof (cases "dropWhile (future_done ?c) (waiters ?c)")
    case Nil
    then have none: "\<forall>w \<in> set (waiters ?c). future_of ?c w \<noteq> Pending"
      by (simp add: future_done_def)
    have occ: "occupants ?s' = occupants s - {t}"
      using e' by (auto simp: occupants_def rel Nil)
    have card: "card (occupants ?s') = card (occupants s) - 1"
      using t occ inv by (simp add: limiter_inv_def)
    have pend: "pending ?s' = []" by (simp add: pending_def rel Nil)
    have nowait: "\<And>x v. tasks s x = Waiting v \<Longrightarrow> granted ?c v"
      using inv_waiting[OF inv] none by (metis (full_types))
    have "limiter_inv ?s'"
      unfolding limiter_inv_def
    proof (intro conjI)
      show "finite (occupants ?s')" using inv occ by (simp add: limiter_inv_def)
      show "active (cap ?s') = int (card (occupants ?s'))"
        using inv card act by (simp add: rel Nil limiter_inv_def of_nat_diff)
      show "active (cap ?s') \<le> active_limit (cap ?s')"
        using inv by (simp add: rel Nil limiter_inv_def)
      show "\<forall>x v. tasks ?s' x = Waiting v \<longrightarrow> v < next_waiter (cap ?s') \<and>
          (if granted (cap ?s') v then future_of (cap ?s') v = ResultSet
           else future_of (cap ?s') v = Pending \<and> v \<in> set (waiters (cap ?s')))"
        using inv_waiting[OF inv] nowait e' by (auto simp: rel Nil)
      show "\<forall>x v why. tasks ?s' x = Cancelling v why \<longrightarrow> v < next_waiter (cap ?s') \<and>
          (if granted (cap ?s') v then future_of (cap ?s') v = ResultSet
           else future_of (cap ?s') v = Cancelled)"
        using inv_cancelling[OF inv] e' by (auto simp: rel Nil)
      show "\<forall>x x' v. waiter_of (tasks ?s' x) = Some v \<longrightarrow> waiter_of (tasks ?s' x') = Some v \<longrightarrow> x = x'"
        using inv_owner[OF inv] e' by auto
    qed (use inv pend in \<open>simp_all add: rel Nil limiter_inv_def\<close>)
    then show ?thesis by (simp add: rel Nil)
  next
    case (Cons w rest)
    then obtain pre where pre: "waiters ?c = pre @ w # rest" "\<forall>x \<in> set pre. future_of ?c x \<noteq> Pending"
      by (metis future_done_def set_takeWhileD takeWhile_dropWhile_id)
    have wp: "future_of ?c w = Pending"
      using Cons by (metis dropWhile_eq_Cons_conv future_done_def)
    with inv pre obtain t' where t': "tasks s t' = Waiting w" and ng: "\<not> granted ?c w"
      by (auto simp: limiter_inv_def)
    have uniq: "\<And>x. waiter_of (tasks s x) = Some w \<Longrightarrow> x = t'"
      using inv_owner[OF inv] t' by (metis waiter_of.simps(1))
    have tt: "t' \<noteq> t" using t t' ng by (auto simp: occupants_def)
    have occ: "occupants ?s' = insert t' (occupants s - {t})"
    proof (rule set_eqI)
      fix x
      show "x \<in> occupants ?s' \<longleftrightarrow> x \<in> insert t' (occupants s - {t})"
      proof (cases "x = t'")
        case True
        then show ?thesis using t' tt by (simp add: occupants_def rel Cons)
      next
        case False
        then have "waiter_of (tasks s x) \<noteq> Some w" using uniq by blast
        then show ?thesis
          using False e' by (simp add: occupants_def rel Cons occupies_mono_iff)
      qed
    qed
    have fin: "finite (occupants s)" using inv by (simp add: limiter_inv_def)
    have "t' \<notin> occupants s" using t' ng by (simp add: occupants_def)
    then have card: "card (occupants ?s') = card (occupants s)" "finite (occupants ?s')"
      using occ fin card_Suc_Diff1[OF fin t] by simp_all
    have full: "active ?c = active_limit ?c"
      using inv wp pre by (auto simp: limiter_inv_def pending_def)
    have waits: "v \<in> set rest" if "tasks s x = Waiting v" "v \<noteq> w" "\<not> granted ?c v" for x v
      using inv_waiting[OF inv that(1)] that(2,3) pre by auto
    have dist: "w \<notin> set rest" "distinct rest" "int (length rest) \<le> wait_queue_size ?c"
      using inv pre by (auto simp: limiter_inv_def)
    have "limiter_inv ?s'"
      unfolding limiter_inv_def
    proof (intro conjI)
      show "\<forall>v \<in> set (waiters (cap ?s')). v < next_waiter (cap ?s') \<and> \<not> granted (cap ?s') v \<and>
          (future_of (cap ?s') v = Pending \<longrightarrow> (\<exists>x. tasks ?s' x = Waiting v))"
      proof
        fix v assume "v \<in> set (waiters (cap ?s'))"
        then have v: "v \<in> set rest" by (simp add: rel Cons)
        then have vw: "v \<noteq> w" using dist by auto
        from inv_queued[OF inv, of v] pre v have "v < next_waiter ?c" "\<not> granted ?c v"
          and own: "future_of ?c v = Pending \<longrightarrow> (\<exists>x. tasks s x = Waiting v)"
          by auto
        moreover have "tasks s t \<noteq> Waiting v"
          using t \<open>\<not> granted ?c v\<close> by (auto simp: occupants_def)
        ultimately show "v < next_waiter (cap ?s') \<and> \<not> granted (cap ?s') v \<and>
            (future_of (cap ?s') v = Pending \<longrightarrow> (\<exists>x. tasks ?s' x = Waiting v))"
          using vw own by (auto simp: rel Cons)
      qed
      show "\<forall>x v. tasks ?s' x = Waiting v \<longrightarrow> v < next_waiter (cap ?s') \<and>
          (if granted (cap ?s') v then future_of (cap ?s') v = ResultSet
           else future_of (cap ?s') v = Pending \<and> v \<in> set (waiters (cap ?s')))"
        using inv_waiting[OF inv] waits e' by (auto simp: rel Cons split: if_splits)
      show "\<forall>x v why. tasks ?s' x = Cancelling v why \<longrightarrow> v < next_waiter (cap ?s') \<and>
          (if granted (cap ?s') v then future_of (cap ?s') v = ResultSet
           else future_of (cap ?s') v = Cancelled)"
        using inv_cancelling[OF inv] e' by (auto simp: rel Cons split: if_splits)
      show "\<forall>x x' v. waiter_of (tasks ?s' x) = Some v \<longrightarrow> waiter_of (tasks ?s' x') = Some v \<longrightarrow> x = x'"
        using inv_owner[OF inv] e' by auto
    qed (use inv card full dist in \<open>auto simp: rel Cons limiter_inv_def\<close>)
    then show ?thesis by (simp add: rel Cons)
  qed
qed

lemma discard_eq:
  "discard_cancelled_waiters c = c\<lparr>waiters := filter (\<lambda>w. \<not> future_done c w) (waiters c)\<rparr>"
proof (cases "list_ex (future_done c) (waiters c)")
  case True
  then show ?thesis by (simp add: discard_cancelled_waiters_def)
next
  case False
  then have "filter (\<lambda>w. \<not> future_done c w) (waiters c) = waiters c"
    by (simp add: list_ex_iff filter_id_conv)
  with False show ?thesis by (simp add: discard_cancelled_waiters_def)
qed

lemma limiter_inv_discard:
  assumes inv: "limiter_inv s"
  shows "limiter_inv (s\<lparr>cap := discard_cancelled_waiters (cap s)\<rparr>)" (is "limiter_inv ?s'")
  unfolding limiter_inv_def
proof (intro conjI)
  have occ: "occupants ?s' = occupants s" and pend: "pending ?s' = pending s"
    by (auto simp: occupants_def pending_def discard_eq future_done_def filter_filter intro: filter_cong)
  show "finite (occupants ?s')" "active (cap ?s') = int (card (occupants ?s'))"
    "pending ?s' \<noteq> [] \<longrightarrow> active (cap ?s') = active_limit (cap ?s')"
    unfolding occ pend using inv_count[OF inv] by (auto simp: discard_eq)
  show "int (length (waiters (cap ?s'))) \<le> wait_queue_size (cap ?s')"
    using inv_length[OF inv] by (simp add: discard_eq) (meson length_filter_le of_nat_le_iff order_trans)
  show "\<forall>v \<in> set (waiters (cap ?s')). v < next_waiter (cap ?s') \<and> \<not> granted (cap ?s') v \<and>
      (future_of (cap ?s') v = Pending \<longrightarrow> (\<exists>x. tasks ?s' x = Waiting v))"
    using inv_queued[OF inv] by (simp add: discard_eq)
  show "\<forall>x v. tasks ?s' x = Waiting v \<longrightarrow> v < next_waiter (cap ?s') \<and>
      (if granted (cap ?s') v then future_of (cap ?s') v = ResultSet
       else future_of (cap ?s') v = Pending \<and> v \<in> set (waiters (cap ?s')))"
    using inv_waiting[OF inv] by (auto simp: discard_eq future_done_def)
  show "\<forall>x v why. tasks ?s' x = Cancelling v why \<longrightarrow> v < next_waiter (cap ?s') \<and>
      (if granted (cap ?s') v then future_of (cap ?s') v = ResultSet
       else future_of (cap ?s') v = Cancelled)"
    using inv_cancelling[OF inv] by (auto simp: discard_eq)
  show "\<forall>x x' v. waiter_of (tasks ?s' x) = Some v \<longrightarrow> waiter_of (tasks ?s' x') = Some v \<longrightarrow> x = x'"
    using inv_owner[OF inv] by auto
qed (use inv in \<open>simp_all add: limiter_inv_def discard_eq\<close>)

text \<open>The two outcomes of \<open>_reserve_or_enqueue\<close> once finished waiters are out of the queue.\<close>

lemma limiter_inv_enter_now:
  assumes inv: "limiter_inv s" and idle: "tasks s t = Idle"
    and free: "active (cap s) < active_limit (cap s)" "waiters (cap s) = []"
  shows "limiter_inv (s\<lparr>cap := (cap s)\<lparr>active := active (cap s) + 1\<rparr>,
                        tasks := (tasks s)(t := Holding)\<rparr>)" (is "limiter_inv ?s'")
  unfolding limiter_inv_def
proof (intro conjI)
  have occ: "occupants ?s' = insert t (occupants s)" by (auto simp: occupants_def)
  have "t \<notin> occupants s" using idle by (simp add: occupants_def)
  then show "finite (occupants ?s')" "active (cap ?s') = int (card (occupants ?s'))"
    unfolding occ using inv_count[OF inv] by simp_all
  show "\<forall>x v. tasks ?s' x = Waiting v \<longrightarrow> v < next_waiter (cap ?s') \<and>
      (if granted (cap ?s') v then future_of (cap ?s') v = ResultSet
       else future_of (cap ?s') v = Pending \<and> v \<in> set (waiters (cap ?s')))"
    using inv_waiting[OF inv] by auto
  show "\<forall>x v why. tasks ?s' x = Cancelling v why \<longrightarrow> v < next_waiter (cap ?s') \<and>
      (if granted (cap ?s') v then future_of (cap ?s') v = ResultSet
       else future_of (cap ?s') v = Cancelled)"
    using inv_cancelling[OF inv] by auto
  show "\<forall>x x' v. waiter_of (tasks ?s' x) = Some v \<longrightarrow> waiter_of (tasks ?s' x') = Some v \<longrightarrow> x = x'"
    using inv_owner[OF inv] by auto
qed (use inv free in \<open>simp_all add: limiter_inv_def pending_def\<close>)

lemma limiter_inv_enter_wait:
  assumes inv: "limiter_inv s" and idle: "tasks s t = Idle"
    and busy: "\<not> (active (cap s) < active_limit (cap s) \<and> waiters (cap s) = [])"
    and room: "int (length (waiters (cap s))) < wait_queue_size (cap s)"
    and clean: "\<forall>w \<in> set (waiters (cap s)). future_of (cap s) w = Pending"
    and w: "w = next_waiter (cap s)"
  shows "limiter_inv (s\<lparr>cap := (cap s)\<lparr>waiters := waiters (cap s) @ [w], next_waiter := w + 1,
      future_of := (future_of (cap s))(w := Pending), granted := (granted (cap s))(w := False)\<rparr>,
      tasks := (tasks s)(t := Waiting w)\<rparr>)" (is "limiter_inv ?s'")
  unfolding limiter_inv_def
proof (intro conjI)
  have old: "waiter_of (tasks s x) = Some v \<Longrightarrow> v < w" for x v
    using inv_waiting[OF inv] inv_cancelling[OF inv] w by (auto simp: waiter_of_Some_iff)
  then have fresh: "waiter_of (tasks s x) \<noteq> Some w" for x by blast
  have occ: "occupants ?s' = occupants s"
    using idle fresh by (auto simp: occupants_def occupies_mono_iff)
  show "finite (occupants ?s')" "active (cap ?s') = int (card (occupants ?s'))"
    unfolding occ using inv_count[OF inv] by simp_all
  have full: "active (cap s) = active_limit (cap s)"
  proof (cases "waiters (cap s)")
    case Nil
    with busy inv show ?thesis by (simp add: limiter_inv_def)
  next
    case (Cons v vs)
    with clean have "pending s \<noteq> []" by (simp add: pending_def)
    with inv show ?thesis by (simp add: limiter_inv_def)
  qed
  then show "pending ?s' \<noteq> [] \<longrightarrow> active (cap ?s') = active_limit (cap ?s')" by simp
  show "distinct (waiters (cap ?s'))"
    using inv w by (auto simp: limiter_inv_def)
  show "\<forall>v \<in> set (waiters (cap ?s')). v < next_waiter (cap ?s') \<and> \<not> granted (cap ?s') v \<and>
      (future_of (cap ?s') v = Pending \<longrightarrow> (\<exists>x. tasks ?s' x = Waiting v))"
  proof
    fix v assume v: "v \<in> set (waiters (cap ?s'))"
    show "v < next_waiter (cap ?s') \<and> \<not> granted (cap ?s') v \<and>
      (future_of (cap ?s') v = Pending \<longrightarrow> (\<exists>x. tasks ?s' x = Waiting v))"
    proof (cases "v = w")
      case False
      with v inv_queued[OF inv, of v] idle show ?thesis
        using w by (auto, metis task.distinct(1))
    qed auto
  qed
  show "\<forall>x v. tasks ?s' x = Waiting v \<longrightarrow> v < next_waiter (cap ?s') \<and>
      (if granted (cap ?s') v then future_of (cap ?s') v = ResultSet
       else future_of (cap ?s') v = Pending \<and> v \<in> set (waiters (cap ?s')))"
    using inv_waiting[OF inv] w by (auto simp: less_Suc_eq)
  show "\<forall>x v why. tasks ?s' x = Cancelling v why \<longrightarrow> v < next_waiter (cap ?s') \<and>
      (if granted (cap ?s') v then future_of (cap ?s') v = ResultSet
       else future_of (cap ?s') v = Cancelled)"
    using inv_cancelling[OF inv] w by (auto simp: less_Suc_eq dest: less_imp_neq)
  show "\<forall>x x' v. waiter_of (tasks ?s' x) = Some v \<longrightarrow> waiter_of (tasks ?s' x') = Some v \<longrightarrow> x = x'"
    using inv_owner[OF inv] fresh by auto
qed (use inv room in \<open>simp_all add: limiter_inv_def\<close>)

text \<open>A task that neither changes occupancy nor the queue may end or move on.\<close>

lemma limiter_inv_end_idle:
  assumes inv: "limiter_inv s" and idle: "tasks s t = Idle" and e: "final_task e"
  shows "limiter_inv (s\<lparr>tasks := (tasks s)(t := e)\<rparr>)" (is "limiter_inv ?s'")
  unfolding limiter_inv_def
proof (intro conjI)
  have e': "waiter_of e = None" "\<And>g. \<not> occupies g e" using e by (auto simp: final_task_def)
  have occ: "occupants ?s' = occupants s" and pend: "pending ?s' = pending s"
    using idle e' by (auto simp: occupants_def pending_def)
  show "finite (occupants ?s')" "active (cap ?s') = int (card (occupants ?s'))"
    "pending ?s' \<noteq> [] \<longrightarrow> active (cap ?s') = active_limit (cap ?s')"
    unfolding occ pend using inv_count[OF inv] by auto
  show "\<forall>v \<in> set (waiters (cap ?s')). v < next_waiter (cap ?s') \<and> \<not> granted (cap ?s') v \<and>
      (future_of (cap ?s') v = Pending \<longrightarrow> (\<exists>x. tasks ?s' x = Waiting v))"
    using inv_queued[OF inv] idle by (auto, metis task.distinct(1))
  show "\<forall>x v. tasks ?s' x = Waiting v \<longrightarrow> v < next_waiter (cap ?s') \<and>
      (if granted (cap ?s') v then future_of (cap ?s') v = ResultSet
       else future_of (cap ?s') v = Pending \<and> v \<in> set (waiters (cap ?s')))"
    using inv_waiting[OF inv] e' by auto
  show "\<forall>x v why. tasks ?s' x = Cancelling v why \<longrightarrow> v < next_waiter (cap ?s') \<and>
      (if granted (cap ?s') v then future_of (cap ?s') v = ResultSet
       else future_of (cap ?s') v = Cancelled)"
    using inv_cancelling[OF inv] e' by auto
  show "\<forall>x x' v. waiter_of (tasks ?s' x) = Some v \<longrightarrow> waiter_of (tasks ?s' x') = Some v \<longrightarrow> x = x'"
    using inv_owner[OF inv] e' by auto
qed (use inv in \<open>simp_all add: limiter_inv_def\<close>)

lemma limiter_inv_resume:
  assumes inv: "limiter_inv s" and wt: "tasks s t = Waiting w" and res: "future_of (cap s) w = ResultSet"
  shows "limiter_inv (s\<lparr>tasks := (tasks s)(t := Holding)\<rparr>)" (is "limiter_inv ?s'")
  unfolding limiter_inv_def
proof (intro conjI)
  have g: "granted (cap s) w" using inv_waiting[OF inv wt] res by (auto split: if_splits)
  have occ: "occupants ?s' = occupants s" and pend: "pending ?s' = pending s"
    using wt g by (auto simp: occupants_def pending_def)
  show "finite (occupants ?s')" "active (cap ?s') = int (card (occupants ?s'))"
    "pending ?s' \<noteq> [] \<longrightarrow> active (cap ?s') = active_limit (cap ?s')"
    unfolding occ pend using inv_count[OF inv] by auto
  show "\<forall>v \<in> set (waiters (cap ?s')). v < next_waiter (cap ?s') \<and> \<not> granted (cap ?s') v \<and>
      (future_of (cap ?s') v = Pending \<longrightarrow> (\<exists>x. tasks ?s' x = Waiting v))"
    using inv_queued[OF inv] wt g by (auto, metis task.inject(1))
  show "\<forall>x v. tasks ?s' x = Waiting v \<longrightarrow> v < next_waiter (cap ?s') \<and>
      (if granted (cap ?s') v then future_of (cap ?s') v = ResultSet
       else future_of (cap ?s') v = Pending \<and> v \<in> set (waiters (cap ?s')))"
    using inv_waiting[OF inv] by auto
  show "\<forall>x v why. tasks ?s' x = Cancelling v why \<longrightarrow> v < next_waiter (cap ?s') \<and>
      (if granted (cap ?s') v then future_of (cap ?s') v = ResultSet
       else future_of (cap ?s') v = Cancelled)"
    using inv_cancelling[OF inv] by auto
  show "\<forall>x x' v. waiter_of (tasks ?s' x) = Some v \<longrightarrow> waiter_of (tasks ?s' x') = Some v \<longrightarrow> x = x'"
    using inv_owner[OF inv] by auto
qed (use inv in \<open>simp_all add: limiter_inv_def\<close>)

lemma limiter_inv_interrupt:
  assumes inv: "limiter_inv s" and wt: "tasks s t = Waiting w"
  shows "limiter_inv (s\<lparr>cap := (if future_of (cap s) w = Pending
          then (cap s)\<lparr>future_of := (future_of (cap s))(w := Cancelled)\<rparr> else cap s),
        tasks := (tasks s)(t := Cancelling w why)\<rparr>)" (is "limiter_inv ?s'")
  unfolding limiter_inv_def
proof (intro conjI)
  let ?p = "future_of (cap s) w = Pending"
  have own: "\<And>x. waiter_of (tasks s x) = Some w \<Longrightarrow> x = t"
    using inv_owner[OF inv] wt by (metis waiter_of.simps(1))
  have cap': "granted (cap ?s') = granted (cap s)" "waiters (cap ?s') = waiters (cap s)"
    "next_waiter (cap ?s') = next_waiter (cap s)" "active (cap ?s') = active (cap s)"
    "active_limit (cap ?s') = active_limit (cap s)"
    "future_of (cap ?s') = (if ?p then (future_of (cap s))(w := Cancelled) else future_of (cap s))"
    by auto
  have occ: "occupants ?s' = occupants s"
    unfolding occupants_def cap' using wt by auto
  have pend: "pending ?s' \<noteq> [] \<Longrightarrow> pending s \<noteq> []"
    unfolding pending_def cap' by (auto simp: filter_empty_conv split: if_splits)
  show "finite (occupants ?s')" "active (cap ?s') = int (card (occupants ?s'))"
    "pending ?s' \<noteq> [] \<longrightarrow> active (cap ?s') = active_limit (cap ?s')"
    "active (cap ?s') \<le> active_limit (cap ?s')"
    unfolding occ cap' using inv_count[OF inv] pend by auto
  show "\<forall>v \<in> set (waiters (cap ?s')). v < next_waiter (cap ?s') \<and> \<not> granted (cap ?s') v \<and>
      (future_of (cap ?s') v = Pending \<longrightarrow> (\<exists>x. tasks ?s' x = Waiting v))"
  proof
    fix v assume "v \<in> set (waiters (cap ?s'))"
    then have v: "v \<in> set (waiters (cap s))" by (simp only: cap')
    show "v < next_waiter (cap ?s') \<and> \<not> granted (cap ?s') v \<and>
      (future_of (cap ?s') v = Pending \<longrightarrow> (\<exists>x. tasks ?s' x = Waiting v))"
      unfolding cap' using inv_queued[OF inv v] wt inv_waiting[OF inv wt]
      by (auto split: if_splits) (metis task.inject(1))+
  qed
  show "\<forall>x v. tasks ?s' x = Waiting v \<longrightarrow> v < next_waiter (cap ?s') \<and>
      (if granted (cap ?s') v then future_of (cap ?s') v = ResultSet
       else future_of (cap ?s') v = Pending \<and> v \<in> set (waiters (cap ?s')))"
  proof (intro allI impI)
    fix x v assume "tasks ?s' x = Waiting v"
    then have xv: "tasks s x = Waiting v" "x \<noteq> t" by (auto split: if_splits)
    then have "v \<noteq> w" using own by (metis waiter_of.simps(1))
    then show "v < next_waiter (cap ?s') \<and>
      (if granted (cap ?s') v then future_of (cap ?s') v = ResultSet
       else future_of (cap ?s') v = Pending \<and> v \<in> set (waiters (cap ?s')))"
      unfolding cap' using inv_waiting[OF inv xv(1)] by auto
  qed
  show "\<forall>x v y. tasks ?s' x = Cancelling v y \<longrightarrow> v < next_waiter (cap ?s') \<and>
      (if granted (cap ?s') v then future_of (cap ?s') v = ResultSet
       else future_of (cap ?s') v = Cancelled)"
  proof (intro allI impI)
    fix x v y assume a: "tasks ?s' x = Cancelling v y"
    show "v < next_waiter (cap ?s') \<and>
      (if granted (cap ?s') v then future_of (cap ?s') v = ResultSet
       else future_of (cap ?s') v = Cancelled)"
    proof (cases "x = t")
      case True
      then have "v = w" using a by simp
      then show ?thesis unfolding cap' using inv_waiting[OF inv wt] by (auto split: if_splits)
    next
      case False
      then have xv: "tasks s x = Cancelling v y" using a by simp
      then have "v \<noteq> w" using own False by (metis waiter_of.simps(2))
      then show ?thesis unfolding cap' using inv_cancelling[OF inv xv] by auto
    qed
  qed
  show "\<forall>x x' v. waiter_of (tasks ?s' x) = Some v \<longrightarrow> waiter_of (tasks ?s' x') = Some v \<longrightarrow> x = x'"
    using inv_owner[OF inv] own by auto
qed (use inv in \<open>simp_all add: limiter_inv_def\<close>)

text \<open>Giving up a wait that was never granted: the future is cancelled already.\<close>

lemma limiter_inv_give_up:
  assumes inv: "limiter_inv s" and wt: "tasks s t = Cancelling w why"
    and ng: "\<not> granted (cap s) w" and e: "final_task e"
  shows "withdraw_waiter w (cap s) = (Inr (), (cap s)\<lparr>waiters := remove1 w (waiters (cap s))\<rparr>) \<and>
    limiter_inv (s\<lparr>cap := (cap s)\<lparr>waiters := remove1 w (waiters (cap s))\<rparr>,
      tasks := (tasks s)(t := e)\<rparr>)" (is "?run \<and> limiter_inv ?s'")
proof
  have fw: "future_of (cap s) w = Cancelled" using inv_cancelling[OF inv wt] ng by simp
  then show ?run using ng by (simp add: withdraw_waiter_def future_done_def Let_def)
  have e': "waiter_of e = None" "\<And>g. \<not> occupies g e" using e by (auto simp: final_task_def)
  have d: "distinct (waiters (cap s))" using inv by (simp add: limiter_inv_def)
  show "limiter_inv ?s'"
    unfolding limiter_inv_def
  proof (intro conjI)
    have occ: "occupants ?s' = occupants s" using wt ng e' by (auto simp: occupants_def)
    have pend: "pending ?s' = pending s"
      using fw by (simp add: pending_def distinct_remove1_removeAll[OF d] removeAll_filter_not_eq
          filter_filter) (metis (mono_tags, lifting) filter_cong future.distinct(3))
    show "finite (occupants ?s')" "active (cap ?s') = int (card (occupants ?s'))"
      "pending ?s' \<noteq> [] \<longrightarrow> active (cap ?s') = active_limit (cap ?s')"
      unfolding occ pend using inv_count[OF inv] by auto
    show "int (length (waiters (cap ?s'))) \<le> wait_queue_size (cap ?s')"
      using inv by (auto simp: limiter_inv_def length_remove1)
    show "\<forall>v \<in> set (waiters (cap ?s')). v < next_waiter (cap ?s') \<and> \<not> granted (cap ?s') v \<and>
        (future_of (cap ?s') v = Pending \<longrightarrow> (\<exists>x. tasks ?s' x = Waiting v))"
    proof
      fix v assume "v \<in> set (waiters (cap ?s'))"
      then have "v \<in> set (waiters (cap s))" using d by simp
      moreover have "x \<noteq> t" if "tasks s x = Waiting v" for x using wt that by auto
      ultimately show "v < next_waiter (cap ?s') \<and> \<not> granted (cap ?s') v \<and>
        (future_of (cap ?s') v = Pending \<longrightarrow> (\<exists>x. tasks ?s' x = Waiting v))"
        using inv_queued[OF inv, of v] by fastforce
    qed
    show "\<forall>x v. tasks ?s' x = Waiting v \<longrightarrow> v < next_waiter (cap ?s') \<and>
        (if granted (cap ?s') v then future_of (cap ?s') v = ResultSet
         else future_of (cap ?s') v = Pending \<and> v \<in> set (waiters (cap ?s')))"
      using inv_waiting[OF inv] e' fw d by auto
    show "\<forall>x v why. tasks ?s' x = Cancelling v why \<longrightarrow> v < next_waiter (cap ?s') \<and>
        (if granted (cap ?s') v then future_of (cap ?s') v = ResultSet
         else future_of (cap ?s') v = Cancelled)"
      using inv_cancelling[OF inv] e' by auto
    show "\<forall>x x' v. waiter_of (tasks ?s' x) = Some v \<longrightarrow> waiter_of (tasks ?s' x') = Some v \<longrightarrow> x = x'"
      using inv_owner[OF inv] e' by auto
  qed (use inv in \<open>simp_all add: limiter_inv_def\<close>)
qed

lemma limiter_inv_enter:
  assumes inv: "limiter_inv s" and idle: "tasks s t = Idle"
    and run: "reserve_or_enqueue (cap s) = (r, c)"
  shows "limiter_inv (s\<lparr>cap := c, tasks := (tasks s)(t :=
     (case r of Inl e \<Rightarrow> Rejected e | Inr None \<Rightarrow> Holding | Inr (Some w) \<Rightarrow> Waiting w))\<rparr>)"
proof -
  let ?s = "s\<lparr>cap := discard_cancelled_waiters (cap s)\<rparr>"
  have i: "limiter_inv ?s" by (rule limiter_inv_discard[OF inv])
  have d: "tasks ?s t = Idle" using idle by simp
  have clean: "\<forall>w \<in> set (waiters (cap ?s)). future_of (cap ?s) w = Pending"
    by (simp add: discard_eq future_done_def)
  consider (now) "active (cap ?s) < active_limit (cap ?s) \<and> waiters (cap ?s) = []"
    | (full) "\<not> (active (cap ?s) < active_limit (cap ?s) \<and> waiters (cap ?s) = [])"
        "int (length (waiters (cap ?s))) \<ge> wait_queue_size (cap ?s)"
    | (wait) "\<not> (active (cap ?s) < active_limit (cap ?s) \<and> waiters (cap ?s) = [])"
        "int (length (waiters (cap ?s))) < wait_queue_size (cap ?s)"
    by linarith
  then show ?thesis
  proof cases
    case now
    then show ?thesis
      using run limiter_inv_enter_now[OF i d] by (auto simp: reserve_or_enqueue_def Let_def)
  next
    case full
    then show ?thesis
      using run limiter_inv_end_idle[OF i d, of "Rejected (CapacityExceededError ''queue_full'' (resource_type (cap ?s)))"]
      by (auto simp: reserve_or_enqueue_def Let_def)
  next
    case wait
    then show ?thesis
      using run limiter_inv_enter_wait[OF i d wait clean refl] by (auto simp: reserve_or_enqueue_def Let_def)
  qed
qed

lemma limiter_inv_step: "acquire_step s s' \<Longrightarrow> limiter_inv s \<Longrightarrow> limiter_inv s'"
proof (induction rule: acquire_step.induct)
  case (enter_now s t c)
  then show ?case using limiter_inv_enter[of s t "Inr None" c] by simp
next
  case (enter_wait s t w c)
  then show ?case using limiter_inv_enter[of s t "Inr (Some w)" c] by simp
next
  case (enter_full s t e c)
  then show ?case using limiter_inv_enter[of s t "Inl e" c] by simp
next
  case (resume s t w)
  then show ?case by (simp add: limiter_inv_resume)
next
  case (interrupt s t w why)
  then show ?case by (rule_tac limiter_inv_interrupt) simp_all
next
  case (give_up s t w why u c)
  show ?case
  proof (cases "granted (cap s) w")
    case True
    then have "t \<in> occupants s" using give_up by (simp add: occupants_def)
    then show ?thesis
      using give_up True limiter_inv_release[of s t "abandoned (resource_type (cap s)) why"]
      by (simp add: withdraw_waiter_def)
  next
    case False
    then show ?thesis
      using give_up limiter_inv_give_up[of s t w why "abandoned (resource_type (cap s)) why"] by simp
  qed
next
  case (give_up_fails s t w why e c)
  show ?case
  proof (cases "granted (cap s) w")
    case True
    then have "t \<in> occupants s" using give_up_fails by (simp add: occupants_def)
    then show ?thesis
      using give_up_fails True limiter_inv_release[of s t Aborted] by (simp add: withdraw_waiter_def)
  next
    case False
    then show ?thesis
      using give_up_fails limiter_inv_give_up[of s t w why Aborted] by simp
  qed
next
  case (leave s t u c)
  then show ?case using limiter_inv_release[of s t Finished] by (simp add: occupants_def)
next
  case (leave_fails s t e c)
  then show ?case using limiter_inv_release[of s t Finished] by (simp add: occupants_def)
qed

lemma mk_capacity_Inr:
  "mk_capacity kind limit queue_size timeout = Inr c \<Longrightarrow>
     c = \<lparr>resource_type = kind, active_limit = limit, wait_queue_size = queue_size,
          active = 0, waiters = [], future_of = (\<lambda>_. Pending), granted = (\<lambda>_. False), next_waiter = 0\<rparr> \<and>
     1 \<le> limit \<and> 0 \<le> queue_size"
  by (auto simp: mk_capacity_def)

lemma limiter_inv_init:
  assumes "limiter_init s"
  shows "limiter_inv s"
proof -
  from assms obtain kind limit queue_size where
    c: "cap s = \<lparr>resource_type = kind, active_limit = limit, wait_queue_size = queue_size,
          active = 0, waiters = [], future_of = (\<lambda>_. Pending), granted = (\<lambda>_. False), next_waiter = 0\<rparr>"
    and b: "1 \<le> limit" "0 \<le> queue_size" and t: "tasks s = (\<lambda>_. Idle)"
    by (auto simp: limiter_init_def dest!: mk_capacity_Inr)
  then show ?thesis by (simp add: limiter_inv_def occupants_def pending_def)
qed

interpretation limiter_sys: invariant_system limiter_init acquire_step limiter_inv
  by unfold_locales (auto intro: limiter_inv_init limiter_inv_step)

section \<open>Properties\<close>

text \<open>The limit never changes, so it can be named by the initial state.\<close>

lemma release_frame: "active_limit (snd (release c)) = active_limit c"
  "wait_queue_size (snd (release c)) = wait_queue_size c"
  by (auto simp: release_def hand_over_eq Let_def split: list.splits)

lemma step_frame:
  "acquire_step s s' \<Longrightarrow> active_limit (cap s') = active_limit (cap s) \<and>
     wait_queue_size (cap s') = wait_queue_size (cap s)"
proof (induction rule: acquire_step.induct)
  case (give_up s t w why u c)
  then show ?case
    using release_frame[of "cap s"]
    by (auto simp: withdraw_waiter_def Let_def split: if_splits)
next
  case (give_up_fails s t w why e c)
  then show ?case
    using release_frame[of "cap s"] by (auto simp: withdraw_waiter_def Let_def split: if_splits)
next
  case (leave s t u c)
  then show ?case using release_frame[of "cap s"] by simp
next
  case (leave_fails s t e c)
  then show ?case using release_frame[of "cap s"] by simp
qed (auto simp: reserve_or_enqueue_def discard_eq Let_def split: if_splits)

lemma steps_frame:
  "acquire_step\<^sup>*\<^sup>* s s' \<Longrightarrow> active_limit (cap s') = active_limit (cap s) \<and>
     wait_queue_size (cap s') = wait_queue_size (cap s)"
  by (induction rule: rtranclp_induct) (auto dest: step_frame)

text \<open>A small limiter for concrete runs: one slot, a queue of two.\<close>

definition small_limiter :: limiter where
  "small_limiter = \<lparr>cap = \<lparr>resource_type = ''SQL'', active_limit = 1, wait_queue_size = 2, active = 0,
     waiters = [], future_of = (\<lambda>_. Pending), granted = (\<lambda>_. False), next_waiter = 0\<rparr>,
     tasks = (\<lambda>_. Idle)\<rparr>"

lemma small_limiter_init: "limiter_init small_limiter"
  unfolding limiter_init_def small_limiter_def
  by (auto simp: mk_capacity_def intro!: exI[of _ "''SQL''"] exI[of _ 1] exI[of _ 2])

lemma small_enter: "acquire_step small_limiter (small_limiter\<lparr>cap := (cap small_limiter)\<lparr>active := 1\<rparr>,
     tasks := (tasks small_limiter)(0 := Holding)\<rparr>)"
  by (rule enter_now) (simp_all add: small_limiter_def reserve_or_enqueue_def discard_eq)

text \<open>C1. Under every interleaving of entering, resuming, timing out, being cancelled and
  leaving, at most \<open>active_limit\<close> tasks are inside the guarded body at once, the counter
  \<open>active\<close> is exactly the number of tasks that hold or have been granted a slot (no slot is
  leaked or handed out twice), and the queue never exceeds its bound.\<close>

theorem capacity_never_exceeded:
  assumes "limiter_init s0" and "acquire_step\<^sup>*\<^sup>* s0 s"
  shows "card {t. tasks s t = Holding} \<le> nat (active_limit (cap s0)) \<and>
    active (cap s) = int (card (occupants s)) \<and> active (cap s) \<le> active_limit (cap s0) \<and>
    int (length (waiters (cap s))) \<le> wait_queue_size (cap s0)"
proof -
  have inv: "limiter_inv s" by (rule limiter_sys.reachable_inv[OF assms])
  note c = inv_count[OF inv] inv_length[OF inv] steps_frame[OF assms(2)]
  have "{t. tasks s t = Holding} \<subseteq> occupants s" by (auto simp: occupants_def)
  then have "card {t. tasks s t = Holding} \<le> card (occupants s)" using c by (simp add: card_mono)
  moreover from c have "card (occupants s) \<le> nat (active_limit (cap s0))" by linarith
  ultimately show ?thesis using c by simp
qed

theorem capacity_never_exceeded_witness:
  "\<exists>s. limiter_init small_limiter \<and> acquire_step\<^sup>*\<^sup>* small_limiter s \<and> tasks s 0 = Holding \<and>
     active (cap s) = 1 \<and> card {t. tasks s t = Holding} \<le> nat (active_limit (cap small_limiter))"
proof -
  note r = r_into_rtranclp[of acquire_step, OF small_enter]
  from capacity_never_exceeded[OF small_limiter_init r] r small_limiter_init show ?thesis by fastforce
qed

text \<open>C2. No capacity is left idle while somebody waits: in every reachable state in which some
  task waits for a slot it has not been granted, all slots are in use.\<close>

theorem capacity_work_conserving:
  assumes "limiter_init s0" and "acquire_step\<^sup>*\<^sup>* s0 s"
    and "tasks s t = Waiting w" and "\<not> granted (cap s) w"
  shows "active (cap s) = active_limit (cap s0)"
proof -
  have inv: "limiter_inv s" by (rule limiter_sys.reachable_inv[OF assms(1,2)])
  from inv_waiting[OF inv assms(3)] assms(4) have "w \<in> set (pending s)" by (simp add: pending_def)
  then have "pending s \<noteq> []" by auto
  then show ?thesis using inv_count[OF inv] steps_frame[OF assms(2)] by simp
qed

lemma small_second: "\<exists>s. acquire_step\<^sup>*\<^sup>* small_limiter s \<and> tasks s 1 = Waiting 0 \<and>
    \<not> granted (cap s) 0 \<and> active (cap s) = 1 \<and> tasks s 0 = Holding \<and> pending s = [0]"
proof -
  let ?s1 = "small_limiter\<lparr>cap := (cap small_limiter)\<lparr>active := 1\<rparr>,
     tasks := (tasks small_limiter)(0 := Holding)\<rparr>"
  let ?c2 = "(cap ?s1)\<lparr>waiters := [0], next_waiter := 1, future_of := (\<lambda>_. Pending), granted := (\<lambda>_. False)\<rparr>"
  let ?s2 = "?s1\<lparr>cap := ?c2, tasks := (tasks ?s1)(1 := Waiting 0)\<rparr>"
  have "acquire_step ?s1 ?s2"
    by (rule enter_wait) (simp_all add: small_limiter_def reserve_or_enqueue_def discard_eq fun_upd_idem)
  with small_enter have "acquire_step\<^sup>*\<^sup>* small_limiter ?s2"
    by (meson converse_rtranclp_into_rtranclp rtranclp.rtrancl_refl)
  then show ?thesis by (intro exI[of _ ?s2]) (simp add: pending_def)
qed

theorem capacity_work_conserving_witness:
  "\<exists>s. acquire_step\<^sup>*\<^sup>* small_limiter s \<and> tasks s 1 = Waiting 0 \<and> \<not> granted (cap s) 0 \<and>
     active (cap s) = active_limit (cap small_limiter)"
  using small_second capacity_work_conserving[OF small_limiter_init] by meson

text \<open>C3. Slots are handed over first-in first-out: in a reachable state whose pending waiters
  are \<open>w # rest\<close> in queue order, releasing a held slot succeeds, grants exactly the oldest
  pending waiter \<open>w\<close>, leaves the others pending in the same order, and keeps \<open>active\<close>.\<close>

theorem capacity_fifo_handover:
  assumes "limiter_init s0" and "acquire_step\<^sup>*\<^sup>* s0 s" and "tasks s t = Holding"
    and "pending s = w # rest"
  shows "\<exists>c. release (cap s) = (Inr (), c) \<and> granted c = (granted (cap s))(w := True) \<and>
    future_of c w = ResultSet \<and> active c = active (cap s) \<and>
    filter (\<lambda>v. future_of c v = Pending) (waiters c) = rest"
proof -
  have inv: "limiter_inv s" by (rule limiter_sys.reachable_inv[OF assms(1,2)])
  have t: "t \<in> occupants s" using assms(3) by (simp add: occupants_def)
  note rel = release_eq[OF limiter_active_pos[OF inv t]]
  let ?P = "\<lambda>v. future_of (cap s) v = Pending"
  from assms(4) obtain pre post where
    sp: "waiters (cap s) = pre @ w # post" "\<forall>v \<in> set pre. \<not> ?P v" "?P w" "rest = filter ?P post"
    unfolding pending_def by (auto simp: filter_eq_Cons_iff)
  have dw: "dropWhile (future_done (cap s)) (waiters (cap s)) = w # post"
    using sp by (simp add: dropWhile_append future_done_def)
  have "w \<notin> set post" using inv sp by (simp add: limiter_inv_def)
  then have "filter (\<lambda>v. ((future_of (cap s))(w := ResultSet)) v = Pending) post = rest"
    unfolding sp(4) by (intro filter_cong) auto
  then show ?thesis by (simp add: rel dw)
qed

theorem capacity_fifo_handover_witness:
  "\<exists>s c. acquire_step\<^sup>*\<^sup>* small_limiter s \<and> pending s = [0] \<and> release (cap s) = (Inr (), c) \<and>
     granted c 0 \<and> active c = active (cap s)"
proof -
  obtain s where s: "acquire_step\<^sup>*\<^sup>* small_limiter s" "tasks s 0 = Holding" "pending s = [0]"
    using small_second by blast
  from capacity_fifo_handover[OF small_limiter_init s] s show ?thesis by fastforce
qed

text \<open>C4. The internal consistency error of \<open>_release\<close> is unreachable: in every reachable state
  a task inside the body can leave, and a task giving up its wait can withdraw, without the
  limiter raising.\<close>

theorem capacity_release_total:
  assumes "limiter_init s0" and "acquire_step\<^sup>*\<^sup>* s0 s"
  shows "(tasks s t = Holding \<longrightarrow> fst (release (cap s)) = Inr ()) \<and>
    (tasks s t = Cancelling w why \<longrightarrow> fst (withdraw_waiter w (cap s)) = Inr ())"
proof -
  have inv: "limiter_inv s" by (rule limiter_sys.reachable_inv[OF assms])
  have r: "fst (release (cap s)) = Inr ()" if "t \<in> occupants s"
    using limiter_inv_release[OF inv that, of Finished] by simp
  show ?thesis
    using r limiter_inv_give_up[OF inv, of t w why Finished]
    by (cases "granted (cap s) w") (auto simp: occupants_def withdraw_waiter_def)
qed

theorem capacity_release_total_witness:
  "\<exists>s. acquire_step\<^sup>*\<^sup>* small_limiter s \<and> tasks s 0 = Holding \<and> fst (release (cap s)) = Inr ()"
  using small_second capacity_release_total[OF small_limiter_init] by meson

end
