(* ===== verification/Decimal_Model.thy ===== *)
theory Decimal_Model
  imports Prelude Complex_Main
begin

text \<open>
  The part of Python's \<^verbatim>\<open>decimal\<close> module the calculation runtime uses: finite decimals, the
  arithmetic of a context with precision 64 (\<open>EXACT_CONTEXT_PRECISION\<close>), rounding half-even,
  exponent limits of the default context and its traps (division by zero, invalid operation,
  overflow), \<open>quantize\<close>, \<open>str\<close> and the string constructor.  Negative zero and exponents are kept,
  so two decimals are the same datum exactly when their sign, coefficient and exponent agree.
\<close>

section \<open>Decimals and contexts\<close>

datatype decimal = Dec (negative: bool) (coeff: nat) (expo: int)

datatype dec_signal = DivisionByZero | InvalidOperation | Overflow

datatype round_mode = HalfUp | HalfEven | HalfDown | RoundFloor | RoundCeil

definition prec :: nat where "prec = 64"
definition emax :: int where "emax = 999999"
definition emin :: int where "emin = -999999"
definition etiny :: int where "etiny = emin - int prec + 1"
definition etop :: int where "etop = emax - int prec + 1"

lemmas context_defs = prec_def emax_def emin_def etiny_def etop_def

text \<open>Number of decimal digits; zero has one digit.\<close>

fun num_digits :: "nat \<Rightarrow> nat" where
  "num_digits n = (if n < 10 then 1 else Suc (num_digits (n div 10)))"

declare num_digits.simps [simp del]

text \<open>Whether dropping \<open>k\<close> digits with quotient \<open>q\<close> and remainder \<open>r\<close> rounds the magnitude up.\<close>

fun rounds_up :: "round_mode \<Rightarrow> bool \<Rightarrow> nat \<Rightarrow> nat \<Rightarrow> nat \<Rightarrow> bool" where
  "rounds_up HalfUp neg q r m = (2 * r \<ge> m)"
| "rounds_up HalfEven neg q r m = (2 * r > m \<or> 2 * r = m \<and> odd q)"
| "rounds_up HalfDown neg q r m = (2 * r > m)"
| "rounds_up RoundFloor neg q r m = (neg \<and> r \<noteq> 0)"
| "rounds_up RoundCeil neg q r m = (\<not> neg \<and> r \<noteq> 0)"

definition round_coeff :: "round_mode \<Rightarrow> bool \<Rightarrow> nat \<Rightarrow> nat \<Rightarrow> nat" where
  "round_coeff mode neg c k =
     (let m = 10 ^ k; q = c div m; r = c mod m in if rounds_up mode neg q r m then q + 1 else q)"

definition adjusted :: "decimal \<Rightarrow> int" where
  "adjusted d = expo d + int (num_digits (coeff d)) - 1"

text \<open>\<open>_fix\<close>: fit an exact result into the context.\<close>

definition fix_dec :: "decimal \<Rightarrow> dec_signal + decimal" where
  "fix_dec d =
     (if coeff d = 0 then Inr (Dec (negative d) 0 (min (max (expo d) etiny) emax))
      else
        let exp_min = int (num_digits (coeff d)) + expo d - int prec in
        if exp_min > etop then Inl Overflow
        else
          let exp_min' = max exp_min etiny in
          if expo d < exp_min' then
            let c' = round_coeff HalfEven (negative d) (coeff d) (nat (exp_min' - expo d));
                (c'', e'') = (if num_digits c' > prec then (c' div 10, exp_min' + 1) else (c', exp_min'))
            in if e'' > etop then Inl Overflow else Inr (Dec (negative d) c'' e'')
          else Inr d)"

section \<open>Arithmetic\<close>

text \<open>The signed coefficient at an exponent not above the decimal's own.\<close>

definition at_exp :: "decimal \<Rightarrow> int \<Rightarrow> int" where
  "at_exp d e = (if negative d then -1 else 1) * int (coeff d) * 10 ^ nat (expo d - e)"

definition dec_of_int :: "int \<Rightarrow> decimal" where
  "dec_of_int i = Dec (i < 0) (nat \<bar>i\<bar>) 0"

definition dec_add :: "decimal \<Rightarrow> decimal \<Rightarrow> dec_signal + decimal" where
  "dec_add a b =
     (let e = min (expo a) (expo b); s = at_exp a e + at_exp b e
      in fix_dec (Dec (if s = 0 then negative a \<and> negative b else s < 0) (nat \<bar>s\<bar>) e))"

definition dec_neg :: "decimal \<Rightarrow> decimal" where
  "dec_neg a = Dec (\<not> negative a) (coeff a) (expo a)"

definition dec_sub :: "decimal \<Rightarrow> decimal \<Rightarrow> dec_signal + decimal" where
  "dec_sub a b = dec_add a (dec_neg b)"

definition dec_mul :: "decimal \<Rightarrow> decimal \<Rightarrow> dec_signal + decimal" where
  "dec_mul a b = fix_dec (Dec (negative a \<noteq> negative b) (coeff a * coeff b) (expo a + expo b))"

text \<open>Strip trailing zeros of an exact quotient until the ideal exponent is reached.\<close>

fun reduce_to :: "nat \<Rightarrow> nat \<Rightarrow> nat \<times> nat" where
  "reduce_to c 0 = (c, 0)"
| "reduce_to c (Suc n) = (if c mod 10 = 0 then reduce_to (c div 10) n else (c, Suc n))"

definition dec_div :: "decimal \<Rightarrow> decimal \<Rightarrow> dec_signal + decimal" where
  "dec_div a b =
     (let s = (negative a \<noteq> negative b); ideal = expo a - expo b in
      if coeff b = 0 then (if coeff a = 0 then Inl InvalidOperation else Inl DivisionByZero)
      else if coeff a = 0 then fix_dec (Dec s 0 ideal)
      else
        let shift = int (num_digits (coeff b)) - int (num_digits (coeff a)) + int prec + 1;
            e = ideal - shift;
            num = (if shift \<ge> 0 then coeff a * 10 ^ nat shift else coeff a);
            den = (if shift \<ge> 0 then coeff b else coeff b * 10 ^ nat (- shift));
            q = num div den
        in if num mod den \<noteq> 0
           then fix_dec (Dec s (if q mod 5 = 0 then q + 1 else q) e)
           else let (c, left) = reduce_to q (nat (ideal - e))
                in fix_dec (Dec s c (if e < ideal then ideal - int left else e)))"

definition dec_less :: "decimal \<Rightarrow> decimal \<Rightarrow> bool" where
  "dec_less a b = (let e = min (expo a) (expo b) in at_exp a e < at_exp b e)"

definition dec_le :: "decimal \<Rightarrow> decimal \<Rightarrow> bool" where
  "dec_le a b = (let e = min (expo a) (expo b) in at_exp a e \<le> at_exp b e)"

text \<open>\<open>value.quantize(Decimal(1).scaleb(-p), rounding=mode)\<close> for \<open>0 \<le> p \<le> 12\<close>.\<close>

definition rescale :: "round_mode \<Rightarrow> decimal \<Rightarrow> int \<Rightarrow> decimal" where
  "rescale mode d e =
     (if expo d \<ge> e then Dec (negative d) (coeff d * 10 ^ nat (expo d - e)) e
      else Dec (negative d) (round_coeff mode (negative d) (coeff d) (nat (e - expo d))) e)"

definition quantize :: "round_mode \<Rightarrow> decimal \<Rightarrow> nat \<Rightarrow> dec_signal + decimal" where
  "quantize mode d p =
     (let e = - int p in
      if coeff d = 0 then fix_dec (Dec (negative d) 0 e)
      else if adjusted d > emax then Inl InvalidOperation
      else if adjusted d - e + 1 > int prec then Inl InvalidOperation
      else
        let ans = rescale mode d e in
        if adjusted ans > emax then Inl InvalidOperation
        else if num_digits (coeff ans) > prec then Inl InvalidOperation
        else fix_dec ans)"

section \<open>Text\<close>

definition digit_char :: "nat \<Rightarrow> char" where
  "digit_char n = char_of (48 + n)"

fun nat_str :: "nat \<Rightarrow> string" where
  "nat_str n = (if n < 10 then [digit_char n] else nat_str (n div 10) @ [digit_char (n mod 10)])"

declare nat_str.simps [simp del]

text \<open>\<open>"%+d"\<close>.\<close>

definition signed_str :: "int \<Rightarrow> string" where
  "signed_str i = (if i < 0 then ''-'' else ''+'') @ nat_str (nat \<bar>i\<bar>)"

text \<open>\<open>Decimal.__str__\<close>: plain notation near the point, scientific notation elsewhere.\<close>

definition dec_str :: "decimal \<Rightarrow> string" where
  "dec_str d =
     (let ds = nat_str (coeff d); n = int (length ds); leftdigits = expo d + n;
          dotplace = (if expo d \<le> 0 \<and> leftdigits > -6 then leftdigits else 1);
          body = (if dotplace \<le> 0 then ''0.'' @ replicate (nat (- dotplace)) CHR ''0'' @ ds
                  else if dotplace \<ge> n then ds @ replicate (nat (dotplace - n)) CHR ''0''
                  else take (nat dotplace) ds @ ''.'' @ drop (nat dotplace) ds);
          ex = (if leftdigits = dotplace then [] else CHR ''E'' # signed_str (leftdigits - dotplace))
      in (if negative d then ''-'' else []) @ body @ ex)"

fun nat_of_digits :: "nat \<Rightarrow> string \<Rightarrow> nat" where
  "nat_of_digits acc [] = acc"
| "nat_of_digits acc (c # cs) = nat_of_digits (acc * 10 + digit_val c) cs"

text \<open>The exponent part of a numeral: absent, or \<open>E\<close>, an optional sign and at least one digit.\<close>

definition parse_exponent :: "string \<Rightarrow> int option" where
  "parse_exponent s =
     (case s of
        [] \<Rightarrow> Some 0
      | c # cs \<Rightarrow>
          if c = CHR ''E'' \<or> c = CHR ''e'' then
            (let (sg, ds) = (case cs of
                 [] \<Rightarrow> (1, [])
               | x # xs \<Rightarrow> if x = CHR ''-'' then (-1, xs) else if x = CHR ''+'' then (1, xs) else (1, cs))
             in if ds \<noteq> [] \<and> list_all is_digit ds then Some (sg * int (nat_of_digits 0 ds)) else None)
          else None)"

text \<open>
  \<open>Decimal(text)\<close> for finite numerals; \<^const>\<open>None\<close> is a syntax error, an exponent the C
  implementation refuses, or one of the special values (infinities, NaNs), which the runtime
  rejects with the same code.
\<close>

definition parse_unsigned :: "bool \<Rightarrow> string \<Rightarrow> decimal option" where
  "parse_unsigned neg s =
     (let ip = takeWhile is_digit s; rest = dropWhile is_digit s;
          (fp, tail) = (case rest of
             [] \<Rightarrow> ([], [])
           | x # xs \<Rightarrow> if x = CHR ''.'' then (takeWhile is_digit xs, dropWhile is_digit xs) else ([], rest))
      in if ip = [] \<and> fp = [] then None
         else case parse_exponent tail of
                None \<Rightarrow> None
              | Some e \<Rightarrow>
                  let d = Dec neg (nat_of_digits 0 (ip @ fp)) (e - int (length fp))
                  in if adjusted d > 999999999999999999 \<or> expo d < -1999999999999999997 then None
                     else Some d)"

definition parse_dec :: "string \<Rightarrow> decimal option" where
  "parse_dec text =
     (case filter (\<lambda>c. c \<noteq> CHR ''_'') (strip text) of
        [] \<Rightarrow> None
      | c # cs \<Rightarrow> if c = CHR ''-'' then parse_unsigned True cs
                  else if c = CHR ''+'' then parse_unsigned False cs
                  else parse_unsigned False (c # cs))"

section \<open>Values\<close>

definition dec_val :: "decimal \<Rightarrow> real" where
  "dec_val d = (if negative d then -1 else 1) * real (coeff d) * 10 powi expo d"

lemma ten_powi_split: "e \<le> f \<Longrightarrow> (10 :: real) powi f = 10 ^ nat (f - e) * 10 powi e"
  by (simp add: power_int_add[symmetric] power_int_of_nat[symmetric])

lemma at_exp_val: "e \<le> expo d \<Longrightarrow> real_of_int (at_exp d e) * 10 powi e = dec_val d"
  by (simp add: at_exp_def dec_val_def ten_powi_split[of e "expo d"])

lemma dec_less_val: "dec_less a b \<longleftrightarrow> dec_val a < dec_val b"
proof -
  let ?e = "min (expo a) (expo b)"
  have "dec_less a b \<longleftrightarrow> real_of_int (at_exp a ?e) * 10 powi ?e < real_of_int (at_exp b ?e) * 10 powi ?e"
    by (simp add: dec_less_def Let_def mult_less_cancel_right_pos)
  then show ?thesis using at_exp_val[of ?e a] at_exp_val[of ?e b] by simp
qed

lemma dec_le_val: "dec_le a b \<longleftrightarrow> dec_val a \<le> dec_val b"
proof -
  let ?e = "min (expo a) (expo b)"
  have "dec_le a b \<longleftrightarrow> real_of_int (at_exp a ?e) * 10 powi ?e \<le> real_of_int (at_exp b ?e) * 10 powi ?e"
    by (simp add: dec_le_def Let_def mult_le_cancel_right_pos)
  then show ?thesis using at_exp_val[of ?e a] at_exp_val[of ?e b] by simp
qed

section \<open>Text round trip\<close>

lemma digit_char_val: "n < 10 \<Longrightarrow> is_digit (digit_char n) \<and> digit_val (digit_char n) = n"
  by (simp add: is_digit_def digit_val_def digit_char_def)

lemma nat_str_digits: "list_all is_digit (nat_str n) \<and> nat_str n \<noteq> []"
proof (induction n rule: nat_str.induct)
  case (1 n)
  then show ?case by (cases "n < 10") (simp_all add: nat_str.simps[of n] digit_char_val)
qed

lemma nat_of_digits_append: "nat_of_digits a (xs @ ys) = nat_of_digits (nat_of_digits a xs) ys"
  by (induction xs arbitrary: a) auto

lemma nat_of_nat_str: "nat_of_digits 0 (nat_str n) = n"
proof (induction n rule: nat_str.induct)
  case (1 n)
  then show ?case
    by (cases "n < 10") (simp_all add: nat_str.simps[of n] nat_of_digits_append digit_char_val)
qed

lemma nat_str_inject: "nat_str m = nat_str n \<Longrightarrow> m = n"
  by (metis nat_of_nat_str)

lemma marks_not_digits [simp]:
  "\<not> is_digit CHR ''-''" "\<not> is_digit CHR ''.''" "\<not> is_digit CHR ''e''" "\<not> is_digit CHR ''E''"
  "\<not> is_digit CHR ''+''" "is_digit CHR ''0''"
  by (simp_all add: is_digit_def)


lemma nat_of_digits_zeros: "nat_of_digits 0 (replicate k CHR ''0'' @ ds) = nat_of_digits 0 ds"
  by (induction k) (simp_all add: digit_val_def)

definition digits_only :: "string \<Rightarrow> bool" where
  "digits_only s \<longleftrightarrow> list_all is_digit s"

definition decimal_char :: "char \<Rightarrow> bool" where
  "decimal_char c \<longleftrightarrow> is_digit c \<or> c \<in> {CHR ''-'', CHR ''+'', CHR ''.'', CHR ''E''}"

lemma decimal_char_not_space: "decimal_char c \<Longrightarrow> \<not> is_space c \<and> c \<noteq> CHR ''_''"
  by (auto simp: decimal_char_def is_digit_def is_space_def Let_def)

lemma strip_decimal:
  assumes "list_all decimal_char s"
  shows "filter (\<lambda>c. c \<noteq> CHR ''_'') (strip s) = s"
proof -
  have "dropWhile is_space t = t" if "list_all decimal_char t" for t
    using that decimal_char_not_space by (cases t) auto
  then have "strip s = s" using assms by (simp add: strip_def list_all_iff)
  then show ?thesis using assms decimal_char_not_space by (auto simp: list_all_iff filter_id_conv)
qed

lemma takeWhile_digits:
  assumes "digits_only ds" "rest = [] \<or> \<not> is_digit (hd rest)"
  shows "takeWhile is_digit (ds @ rest) = ds" "dropWhile is_digit (ds @ rest) = rest"
  using assms by (induction ds; cases rest; simp add: digits_only_def)+

lemma signed_str_parse:
  "parse_exponent (CHR ''E'' # signed_str i) = Some i"
  by (cases "i < 0") (simp_all add: parse_exponent_def signed_str_def Let_def nat_str_digits nat_of_nat_str)

text \<open>The exponent limits within which the string constructor accepts a numeral.\<close>

definition dec_in_range :: "decimal \<Rightarrow> bool" where
  "dec_in_range d \<longleftrightarrow> adjusted d \<le> 999999999999999999 \<and> expo d \<ge> -1999999999999999997"

lemma parse_unsigned_point:
  assumes "digits_only ip" "digits_only fp" "ip \<noteq> []" "tail = [] \<or> hd tail = CHR ''E''"
    and "parse_exponent tail = Some e"
    and "dec_in_range (Dec neg (nat_of_digits 0 (ip @ fp)) (e - int (length fp)))"
  shows "parse_unsigned neg (ip @ CHR ''.'' # fp @ tail) = Some (Dec neg (nat_of_digits 0 (ip @ fp)) (e - int (length fp)))"
proof -
  have "takeWhile is_digit (ip @ CHR ''.'' # fp @ tail) = ip"
    and "dropWhile is_digit (ip @ CHR ''.'' # fp @ tail) = CHR ''.'' # fp @ tail"
    using takeWhile_digits[OF assms(1), of "CHR ''.'' # fp @ tail"] by simp_all
  moreover have "takeWhile is_digit (fp @ tail) = fp" "dropWhile is_digit (fp @ tail) = tail"
    using takeWhile_digits[OF assms(2), of tail] assms(4) by auto
  ultimately show ?thesis using assms(3,5,6)
    by (simp add: parse_unsigned_def Let_def dec_in_range_def not_less not_le)
qed

lemma parse_unsigned_integer:
  assumes "digits_only ip" "ip \<noteq> []" "tail = [] \<or> hd tail = CHR ''E''"
    and "parse_exponent tail = Some e"
    and "dec_in_range (Dec neg (nat_of_digits 0 ip) e)"
  shows "parse_unsigned neg (ip @ tail) = Some (Dec neg (nat_of_digits 0 ip) e)"
proof -
  have "takeWhile is_digit (ip @ tail) = ip" "dropWhile is_digit (ip @ tail) = tail"
    using takeWhile_digits[OF assms(1), of tail] assms(3) by auto
  moreover have "tail = [] \<or> (\<exists>t. tail = CHR ''E'' # t)" using assms(3) by (cases tail) auto
  ultimately show ?thesis using assms(2,4,5)
    by (auto simp: parse_unsigned_def Let_def dec_in_range_def not_less not_le)
qed

text \<open>The unsigned text of a decimal, and its reading.\<close>

definition dec_body :: "decimal \<Rightarrow> string" where
  "dec_body d =
     (let ds = nat_str (coeff d); n = int (length ds); leftdigits = expo d + n;
          dotplace = (if expo d \<le> 0 \<and> leftdigits > -6 then leftdigits else 1)
      in (if dotplace \<le> 0 then ''0.'' @ replicate (nat (- dotplace)) CHR ''0'' @ ds
          else if dotplace \<ge> n then ds @ replicate (nat (dotplace - n)) CHR ''0''
          else take (nat dotplace) ds @ ''.'' @ drop (nat dotplace) ds)
         @ (if leftdigits = dotplace then [] else CHR ''E'' # signed_str (leftdigits - dotplace)))"

lemma dec_str_body: "dec_str d = (if negative d then ''-'' else []) @ dec_body d"
  by (simp add: dec_str_def dec_body_def Let_def)

lemma parse_exponent_optional:
  "parse_exponent (if i = j then [] else CHR ''E'' # signed_str (i - j)) = Some (i - j)"
  using signed_str_parse[of "i - j"] by (simp add: parse_exponent_def)

lemma dec_body_parse:
  assumes "dec_in_range d"
  shows "parse_unsigned neg (dec_body d) = Some (Dec neg (coeff d) (expo d))"
proof -
  define ds where "ds = nat_str (coeff d)"
  define n where "n = int (length ds)"
  define l where "l = expo d + n"
  define dot where "dot = (if expo d \<le> 0 \<and> l > -6 then l else 1)"
  define ex where "ex = (if l = dot then [] else CHR ''E'' # signed_str (l - dot))"
  have ds: "digits_only ds" "ds \<noteq> []" "nat_of_digits 0 ds = coeff d"
    using nat_str_digits[of "coeff d"] nat_of_nat_str by (auto simp: ds_def digits_only_def)
  have n: "n \<ge> 1" using ds(2) by (cases ds) (simp_all add: n_def)
  have ex: "parse_exponent ex = Some (l - dot)" "ex = [] \<or> hd ex = CHR ''E''"
    unfolding ex_def using parse_exponent_optional by auto
  have range: "dec_in_range (Dec neg (coeff d) (expo d))"
    using assms by (simp add: dec_in_range_def adjusted_def)
  have body: "dec_body d = (if dot \<le> 0 then ''0.'' @ replicate (nat (- dot)) CHR ''0'' @ ds
          else if dot \<ge> n then ds @ replicate (nat (dot - n)) CHR ''0''
          else take (nat dot) ds @ ''.'' @ drop (nat dot) ds) @ ex"
    by (simp add: dec_body_def Let_def ds_def n_def l_def dot_def ex_def)
  consider "dot \<le> 0" | "dot > 0" "dot \<ge> n" | "dot > 0" "dot < n" by linarith
  then show ?thesis
  proof cases
    case 1
    then have l: "l = dot" by (simp add: dot_def split: if_splits)
    let ?fp = "replicate (nat (- dot)) CHR ''0'' @ ds"
    have "digits_only ?fp" using ds(1) by (auto simp: digits_only_def list_all_iff)
    moreover have "nat_of_digits 0 (''0'' @ ?fp) = coeff d"
      using nat_of_digits_zeros[of "Suc (nat (- dot))" ds] ds(3) by simp
    moreover have "(l - dot) - int (length ?fp) = expo d" using 1 l by (simp add: l_def n_def)
    ultimately show ?thesis
      using parse_unsigned_point[of "''0''" ?fp ex "l - dot" neg] ex range 1
      by (simp add: body digits_only_def)
  next
    case 2
    then have "l \<le> n \<or> dot = 1" by (auto simp: dot_def l_def split: if_splits)
    then have dn: "dot = n" using 2 n by (auto simp: dot_def l_def split: if_splits)
    moreover have "l - dot = expo d" using dn by (simp add: l_def)
    ultimately show ?thesis
      using parse_unsigned_integer[of ds ex "l - dot" neg] ds ex range 2 by (simp add: body)
  next
    case 3
    let ?ip = "take (nat dot) ds" and ?fp = "drop (nat dot) ds"
    have "digits_only ?ip" "digits_only ?fp"
      using ds(1) by (auto simp: digits_only_def list_all_iff dest: in_set_takeD in_set_dropD)
    moreover have "?ip \<noteq> []" using 3 ds(2) by (cases ds) auto
    moreover have "(l - dot) - int (length ?fp) = expo d" using 3 by (simp add: l_def n_def)
    ultimately show ?thesis
      using parse_unsigned_point[of ?ip ?fp ex "l - dot" neg] ds(3) ex range 3 by (simp add: body)
  qed
qed

lemma digits_decimal: "list_all is_digit s \<Longrightarrow> list_all decimal_char s"
  by (auto simp: list_all_iff decimal_char_def)

lemma list_all_take_drop: "list_all P xs \<Longrightarrow> list_all P (take k xs) \<and> list_all P (drop k xs)"
  by (auto simp: list_all_iff dest: in_set_takeD in_set_dropD)

lemma list_all_replicate: "P x \<Longrightarrow> list_all P (replicate k x)"
  by (auto simp: list_all_iff)

lemma decimal_char_literals [simp]:
  "decimal_char CHR ''-''" "decimal_char CHR ''+''" "decimal_char CHR ''.''" "decimal_char CHR ''E''" "decimal_char CHR ''0''"
  by (simp_all add: decimal_char_def)

lemma signed_str_chars: "list_all decimal_char (signed_str i)"
  using nat_str_digits by (simp add: signed_str_def digits_decimal)

lemma dec_body_chars: "list_all decimal_char (dec_body d)"
proof -
  have "list_all decimal_char (nat_str (coeff d))" using nat_str_digits digits_decimal by blast
  then show ?thesis
    by (simp add: dec_body_def Let_def signed_str_chars list_all_replicate list_all_take_drop)
qed

lemma dec_body_hd: "\<exists>c cs. dec_body d = c # cs \<and> c \<noteq> CHR ''-'' \<and> c \<noteq> CHR ''+''"
proof -
  obtain c cs where c: "nat_str (coeff d) = c # cs" "is_digit c"
    using nat_str_digits[of "coeff d"] by (cases "nat_str (coeff d)") auto
  have "c \<noteq> CHR ''-''" "c \<noteq> CHR ''+''" using c(2) by auto
  with c(1) show ?thesis
    by (auto simp: dec_body_def Let_def take_Cons split: nat.splits)
qed

lemma parse_dec_str:
  assumes "dec_in_range d"
  shows "parse_dec (dec_str d) = Some d"
proof -
  obtain c cs where c: "dec_body d = c # cs" "c \<noteq> CHR ''-''" "c \<noteq> CHR ''+''" using dec_body_hd by blast
  have "list_all decimal_char (dec_str d)"
    using dec_body_chars[of d] by (simp add: dec_str_body)
  from strip_decimal[OF this] show ?thesis
    using dec_body_parse[OF assms, of "negative d"] c
    by (cases d; cases "negative d") (simp_all add: parse_dec_def dec_str_body)
qed

lemma dec_str_inject:
  "dec_in_range a \<Longrightarrow> dec_in_range b \<Longrightarrow> dec_str a = dec_str b \<Longrightarrow> a = b"
  by (metis parse_dec_str option.inject)

section \<open>Rounding\<close>

lemma num_digits_bounds: "c < 10 ^ num_digits c \<and> (c > 0 \<longrightarrow> 10 ^ (num_digits c - 1) \<le> c) \<and> num_digits c \<ge> 1"
proof (induction c rule: num_digits.induct)
  case (1 n)
  show ?case
  proof (cases "n < 10")
    case False
    with 1 have "n div 10 < 10 ^ num_digits (n div 10)" "10 ^ (num_digits (n div 10) - 1) \<le> n div 10"
      "num_digits (n div 10) \<ge> 1" by auto
    moreover from this(3) obtain k where "num_digits (n div 10) = Suc k" by (cases "num_digits (n div 10)") auto
    ultimately show ?thesis using False by (simp add: num_digits.simps[of n]) linarith
  qed (simp add: num_digits.simps[of n])
qed

lemma num_digits_le: "c < 10 ^ k \<Longrightarrow> k \<ge> 1 \<Longrightarrow> num_digits c \<le> k"
proof (rule ccontr)
  assume "c < 10 ^ k" "k \<ge> 1" "\<not> num_digits c \<le> k"
  then have "10 ^ k \<le> (10 :: nat) ^ (num_digits c - 1)" by (intro power_increasing) auto
  moreover have "c > 0" using \<open>\<not> num_digits c \<le> k\<close> \<open>k \<ge> 1\<close> by (cases c) (auto simp: num_digits.simps)
  ultimately show False using num_digits_bounds[of c] \<open>c < 10 ^ k\<close> by linarith
qed

definition half_mode :: "round_mode \<Rightarrow> bool" where
  "half_mode m \<longleftrightarrow> m \<in> {HalfUp, HalfEven, HalfDown}"

text \<open>Rounding a coefficient to a multiple of \<open>10 ^ k\<close> moves it by less than one unit, and by at
  most half a unit in the three half modes.\<close>

lemma round_coeff_error:
  "\<bar>int (round_coeff mode neg c k) * 10 ^ k - int c\<bar> < 10 ^ k \<and>
   (half_mode mode \<longrightarrow> 2 * \<bar>int (round_coeff mode neg c k) * 10 ^ k - int c\<bar> \<le> 10 ^ k)"
proof -
  let ?m = "10 ^ k :: nat"
  define q r where "q = c div ?m" and "r = c mod ?m"
  have r: "r < ?m" by (simp add: r_def)
  have c: "int c = int q * 10 ^ k + int r"
    by (metis div_mult_mod_eq of_nat_add of_nat_mult of_nat_numeral of_nat_power q_def r_def)
  show ?thesis
  proof (cases "rounds_up mode neg q r ?m")
    case True
    then have "round_coeff mode neg c k = q + 1" by (simp add: round_coeff_def Let_def q_def r_def)
    then have e: "int (round_coeff mode neg c k) * 10 ^ k - int c = int ?m - int r"
      unfolding c by (simp add: algebra_simps)
    have "0 < r" using True by (cases mode) (auto intro: Nat.gr0I)
    moreover have "half_mode mode \<longrightarrow> ?m \<le> 2 * r" using True by (cases mode) (auto simp: half_mode_def)
    moreover obtain M where M: "?m = M" by blast
    have M': "(10 :: int) ^ k = int M" unfolding M[symmetric] by simp
    ultimately show ?thesis using r unfolding e unfolding M M' by auto
  next
    case False
    then have "round_coeff mode neg c k = q" by (simp add: round_coeff_def Let_def q_def r_def)
    then have e: "int (round_coeff mode neg c k) * 10 ^ k - int c = - int r"
      unfolding c by simp
    have "half_mode mode \<longrightarrow> 2 * r \<le> ?m" using False by (cases mode) (auto simp: half_mode_def)
    moreover obtain M where M: "?m = M" by blast
    have M': "(10 :: int) ^ k = int M" unfolding M[symmetric] by simp
    ultimately show ?thesis using r unfolding e unfolding M M' by auto
  qed
qed

text \<open>Rescaling: the new exponent is the requested one and the value moves by less than one unit of
  the new last place.\<close>

lemma rescale_expo [simp]: "expo (rescale mode d e) = e" "negative (rescale mode d e) = negative d"
  by (simp_all add: rescale_def)

lemma rescale_error:
  "\<bar>dec_val (rescale mode d e) - dec_val d\<bar> < 10 powi e \<and>
   (half_mode mode \<longrightarrow> 2 * \<bar>dec_val (rescale mode d e) - dec_val d\<bar> \<le> 10 powi e)"
proof (cases "expo d \<ge> e")
  case True
  then have "dec_val (rescale mode d e) = dec_val d"
    by (simp add: rescale_def dec_val_def ten_powi_split[of e "expo d"])
  then show ?thesis by simp
next
  case False
  define k where "k = nat (e - expo d)"
  define c' where "c' = round_coeff mode (negative d) (coeff d) k"
  let ?s = "if negative d then -1 else (1 :: real)" and ?u = "(10 :: real) powi expo d"
  have u: "(10 :: real) powi e = 10 ^ k * ?u"
    using ten_powi_split[of "expo d" e] False by (simp add: k_def)
  have upos: "?u > 0" by simp
  have "dec_val (rescale mode d e) - dec_val d = ?s * real_of_int (int c' * 10 ^ k - int (coeff d)) * ?u"
    using False by (simp add: rescale_def dec_val_def c'_def k_def[symmetric] u algebra_simps)
  then have a: "\<bar>dec_val (rescale mode d e) - dec_val d\<bar> = real_of_int \<bar>int c' * 10 ^ k - int (coeff d)\<bar> * ?u"
    by (simp add: abs_mult)
  obtain z where z: "\<bar>int c' * 10 ^ k - int (coeff d)\<bar> = z" by blast
  have zk: "z < 10 ^ k" "half_mode mode \<Longrightarrow> 2 * z \<le> 10 ^ k"
    using round_coeff_error[of mode "negative d" "coeff d" k] by (auto simp: c'_def[symmetric] z)
  have "real_of_int z < 10 ^ k" using zk(1) by (metis of_int_less_iff of_int_numeral of_int_power)
  then have 1: "real_of_int z * ?u < 10 ^ k * ?u" using upos by (rule mult_strict_right_mono)
  have 2: "2 * (real_of_int z * ?u) \<le> 10 ^ k * ?u" if "half_mode mode"
  proof -
    have "real_of_int (2 * z) \<le> 10 ^ k" using zk(2)[OF that] by (metis of_int_le_iff of_int_numeral of_int_power)
    then show ?thesis using mult_right_mono[of "real_of_int (2 * z)" "10 ^ k" ?u] upos by simp
  qed
  show ?thesis unfolding a z u using 1 2 by blast
qed

lemma fix_dec_fits:
  assumes "num_digits (coeff d) \<le> prec" "expo d \<ge> etiny" "adjusted d \<le> emax"
  shows "coeff d \<noteq> 0 \<Longrightarrow> fix_dec d = Inr d"
  using assms by (auto simp: fix_dec_def adjusted_def Let_def context_defs)

lemma fix_dec_zero:
  assumes "coeff d = 0" "etiny \<le> expo d" "expo d \<le> emax" shows "fix_dec d = Inr d"
  using assms by (cases d) (simp add: fix_dec_def)

text \<open>A successful \<open>quantize\<close> has exactly the requested number of decimal places and is the
  rescaled operand.\<close>

lemma quantize_rescale:
  assumes q: "quantize mode d p = Inr v" and p: "p \<le> 12"
  shows "v = rescale mode d (- int p)"
proof (cases "coeff d = 0")
  case True
  have "fix_dec (Dec (negative d) 0 (- int p)) = Inr (Dec (negative d) 0 (- int p))"
    using p by (intro fix_dec_zero) (auto simp: context_defs)
  moreover have "rescale mode d (- int p) = Dec (negative d) 0 (- int p)"
    using True by (cases mode) (simp_all add: rescale_def round_coeff_def Let_def)
  ultimately show ?thesis using q True by (simp add: quantize_def)
next
  case False
  let ?r = "rescale mode d (- int p)"
  have ok: "adjusted ?r \<le> emax" "num_digits (coeff ?r) \<le> prec" "fix_dec ?r = Inr v"
    using q False by (auto simp: quantize_def Let_def not_less split: if_splits)
  have e: "etiny \<le> - int p" "- int p \<le> emax" using p by (auto simp: context_defs)
  have "fix_dec ?r = Inr ?r"
  proof (cases "coeff ?r = 0")
    case True
    then show ?thesis using e by (intro fix_dec_zero) auto
  next
    case False
    then show ?thesis using ok e by (intro fix_dec_fits) auto
  qed
  with ok(3) show ?thesis by simp
qed

lemma quantize_only_invalid:
  assumes "quantize mode d p = Inl sg" and p: "p \<le> 12"
  shows "sg = InvalidOperation"
proof (cases "coeff d = 0")
  case True
  have "fix_dec (Dec (negative d) 0 (- int p)) = Inr (Dec (negative d) 0 (- int p))"
    using p by (intro fix_dec_zero) (auto simp: context_defs)
  with assms True show ?thesis by (simp add: quantize_def)
next
  case False
  let ?r = "rescale mode d (- int p)"
  have e: "etiny \<le> - int p" "- int p \<le> emax" using p by (auto simp: context_defs)
  have "adjusted ?r \<le> emax \<Longrightarrow> num_digits (coeff ?r) \<le> prec \<Longrightarrow> fix_dec ?r = Inr ?r"
    using fix_dec_fits[of ?r] fix_dec_zero[of ?r] e by (cases "coeff ?r = 0") auto
  with assms False show ?thesis by (auto simp: quantize_def Let_def split: if_splits)
qed

lemma round_coeff_direction:
  "rounds_up mode neg (c div 10 ^ k) (c mod 10 ^ k) (10 ^ k) \<or> c mod 10 ^ k = 0 \<Longrightarrow> c \<le> round_coeff mode neg c k * 10 ^ k"
  "\<not> rounds_up mode neg (c div 10 ^ k) (c mod 10 ^ k) (10 ^ k) \<Longrightarrow> round_coeff mode neg c k * 10 ^ k \<le> c"
proof -
  have c: "c = c div 10 ^ k * 10 ^ k + c mod 10 ^ k" by (rule div_mult_mod_eq[symmetric])
  have m: "c mod 10 ^ k < 10 ^ k" by simp
  show "\<not> rounds_up mode neg (c div 10 ^ k) (c mod 10 ^ k) (10 ^ k) \<Longrightarrow> round_coeff mode neg c k * 10 ^ k \<le> c"
    by (simp add: round_coeff_def Let_def)
  show "rounds_up mode neg (c div 10 ^ k) (c mod 10 ^ k) (10 ^ k) \<or> c mod 10 ^ k = 0 \<Longrightarrow> c \<le> round_coeff mode neg c k * 10 ^ k"
  proof (cases "rounds_up mode neg (c div 10 ^ k) (c mod 10 ^ k) (10 ^ k)")
    case True
    then show ?thesis using c m unfolding round_coeff_def Let_def add_mult_distrib if_P[OF True] by linarith
  next
    case False
    assume "rounds_up mode neg (c div 10 ^ k) (c mod 10 ^ k) (10 ^ k) \<or> c mod 10 ^ k = 0"
    with False show ?thesis using c by (simp add: round_coeff_def Let_def)
  qed
qed

lemma rescale_direction:
  "dec_val (rescale RoundFloor d e) \<le> dec_val d" "dec_val d \<le> dec_val (rescale RoundCeil d e)"
proof -
  let ?k = "nat (e - expo d)" and ?c = "coeff d" and ?u = "(10 :: real) powi expo d"
  have v: "dec_val (rescale m d e) = (if negative d then -1 else 1) * real (round_coeff m (negative d) ?c ?k * 10 ^ ?k) * ?u"
    if "\<not> e \<le> expo d" for m
    using that ten_powi_split[of "expo d" e] by (simp add: rescale_def dec_val_def)
  have same: "dec_val (rescale m d e) = dec_val d" if "e \<le> expo d" for m
    using that by (simp add: rescale_def dec_val_def ten_powi_split[of e "expo d"])
  have up: "rounds_up RoundFloor True q r m \<or> r = 0" "rounds_up RoundCeil False q r m \<or> r = 0"
    and down: "\<not> rounds_up RoundFloor False q r m" "\<not> rounds_up RoundCeil True q r m" for q r m by auto
  have mono: "x \<le> y \<Longrightarrow> real x * ?u \<le> real y * ?u" for x y by (simp add: mult_right_mono)
  note le = mono[OF round_coeff_direction(1)[OF up(1)]] mono[OF round_coeff_direction(1)[OF up(2)]]
    mono[OF round_coeff_direction(2)[OF down(1)]] mono[OF round_coeff_direction(2)[OF down(2)]]
  show "dec_val (rescale RoundFloor d e) \<le> dec_val d"
    using le(1)[of ?c ?k] le(3)[of ?c ?k] same[of RoundFloor] v[of RoundFloor]
    by (cases "e \<le> expo d"; cases "negative d") (simp_all add: dec_val_def)
  show "dec_val d \<le> dec_val (rescale RoundCeil d e)"
    using le(2)[of ?c ?k] le(4)[of ?c ?k] same[of RoundCeil] v[of RoundCeil]
    by (cases "e \<le> expo d"; cases "negative d") (simp_all add: dec_val_def)
qed

text \<open>Arithmetic is exact whenever the exact result fits the context.\<close>

lemma fix_dec_exact:
  "fix_dec d = Inr v \<Longrightarrow> num_digits (coeff d) \<le> prec \<Longrightarrow> expo d \<ge> etiny \<Longrightarrow> dec_val v = dec_val d"
  by (auto simp: fix_dec_def Let_def dec_val_def split: if_splits)

lemma dec_val_signed:
  "dec_val (Dec (if s = 0 then n else s < 0) (nat \<bar>s\<bar>) e) = real_of_int s * 10 powi e"
  by (auto simp: dec_val_def)

lemma dec_add_exact_val:
  "dec_val (let e = min (expo a) (expo b); s = at_exp a e + at_exp b e in
      Dec (if s = 0 then negative a \<and> negative b else s < 0) (nat \<bar>s\<bar>) e) = dec_val a + dec_val b"
  using at_exp_val[of "min (expo a) (expo b)" a] at_exp_val[of "min (expo a) (expo b)" b]
  unfolding Let_def dec_val_signed by (simp add: algebra_simps)

lemma dec_val_neg [simp]: "dec_val (dec_neg b) = - dec_val b"
  by (simp add: dec_neg_def dec_val_def)

lemma dec_mul_exact_val:
  "dec_val (Dec (negative a \<noteq> negative b) (coeff a * coeff b) (expo a + expo b)) = dec_val a * dec_val b"
  by (simp add: dec_val_def power_int_add)

end
