(* ===== verification/Canonical_Json.thy ===== *)
theory Canonical_Json
  imports Decimal_Model
begin

text \<open>
  \<open>json.dumps(payload, allow_nan=False, ensure_ascii=False, separators=(",", ":"), sort_keys=True)\<close>,
  the canonical text every checksum of the program is taken of.  A payload is a \<open>json\<close> value; the
  smart constructor \<open>jobj\<close> performs the key sort.  A float is carried as its \<open>repr\<close> text.  The
  text determines the payload (\<open>json_text_inject\<close>), which is what makes a checksum an identity of
  content.
\<close>

section \<open>Values and their text\<close>

datatype json =
    JNull
  | JBool bool
  | JInt int
  | JFloat string
  | JStr string
  | JList "json list"
  | JObj "(string \<times> json) list"

definition jobj :: "(string \<times> json) list \<Rightarrow> json" where
  "jobj kvs = JObj (sort_key fst kvs)"

definition jopt :: "('a \<Rightarrow> json) \<Rightarrow> 'a option \<Rightarrow> json" where
  "jopt f v = (case v of None \<Rightarrow> JNull | Some x \<Rightarrow> f x)"

definition hex_digit :: "nat \<Rightarrow> char" where
  "hex_digit n = char_of (if n < 10 then 48 + n else 87 + n)"

text \<open>The escapes of \<open>json.encoder.ESCAPE_DCT\<close>; other characters stand for themselves.\<close>

definition escape_char :: "char \<Rightarrow> string" where
  "escape_char c =
     (if c = CHR 0x22 then [CHR 0x5C, CHR 0x22]
      else if c = CHR 0x5C then [CHR 0x5C, CHR 0x5C]
      else if c = CHR 0x0A then [CHR 0x5C, CHR ''n'']
      else if c = CHR 0x0D then [CHR 0x5C, CHR ''r'']
      else if c = CHR 0x09 then [CHR 0x5C, CHR ''t'']
      else if c = CHR 0x0C then [CHR 0x5C, CHR ''f'']
      else if c = CHR 0x08 then [CHR 0x5C, CHR ''b'']
      else let n = of_char c :: nat in
        if n < 32 then [CHR 0x5C, CHR ''u'', CHR ''0'', CHR ''0'', hex_digit (n div 16), hex_digit (n mod 16)]
        else [c])"

definition quote :: char where "quote = CHR 0x22"

definition json_string :: "string \<Rightarrow> string" where
  "json_string s = quote # concat (map escape_char s) @ [quote]"

definition int_str :: "int \<Rightarrow> string" where
  "int_str i = (if i < 0 then ''-'' else []) @ nat_str (nat \<bar>i\<bar>)"

fun joined :: "string list \<Rightarrow> string" where
  "joined [] = []"
| "joined [x] = x"
| "joined (x # y # ys) = x @ CHR '','' # joined (y # ys)"

fun json_text :: "json \<Rightarrow> string" where
  "json_text JNull = ''null''"
| "json_text (JBool b) = (if b then ''true'' else ''false'')"
| "json_text (JInt i) = int_str i"
| "json_text (JFloat s) = s"
| "json_text (JStr s) = json_string s"
| "json_text (JList xs) = CHR ''['' # joined (map json_text xs) @ '']''"
| "json_text (JObj kvs) =
     CHR ''{'' # joined (map (\<lambda>(k, v). json_string k @ CHR '':'' # json_text v) kvs) @ ''}''"

section \<open>The text determines the value\<close>

text \<open>
  Every escape sequence is one of three shapes told apart by its first two characters, so a string
  body up to its closing quote is uniquely readable.
\<close>

definition hex_value :: "char \<Rightarrow> nat" where
  "hex_value c = (let n = of_char c :: nat in if n < 58 then n - 48 else n - 87)"

fun unescape :: "string \<Rightarrow> (char \<times> string) option" where
  "unescape [] = None"
| "unescape (c # cs) =
     (if c \<noteq> CHR 0x5C then Some (c, cs)
      else case cs of
        [] \<Rightarrow> None
      | d # ds \<Rightarrow>
          if d = CHR ''n'' then Some (CHR 0x0A, ds)
          else if d = CHR ''r'' then Some (CHR 0x0D, ds)
          else if d = CHR ''t'' then Some (CHR 0x09, ds)
          else if d = CHR ''f'' then Some (CHR 0x0C, ds)
          else if d = CHR ''b'' then Some (CHR 0x08, ds)
          else if d = CHR ''u'' then Some (char_of (16 * hex_value (ds ! 2) + hex_value (ds ! 3)), drop 4 ds)
          else Some (d, ds))"

lemma hex_value_hex_digit: "n < 16 \<Longrightarrow> hex_value (hex_digit n) = n"
  by (simp add: hex_value_def hex_digit_def Let_def)

lemma unescape_simple: "c \<noteq> CHR 0x5C \<Longrightarrow> unescape (c # r) = Some (c, r)"
  by simp

lemma unescape_u:
  "unescape (CHR 0x5C # CHR ''u'' # ds) =
     Some (char_of (16 * hex_value (ds ! 2) + hex_value (ds ! 3)), drop 4 ds)"
  by simp

lemma escape_char_low:
  assumes "(of_char c :: nat) < 32" "c \<notin> {CHR 0x0A, CHR 0x0D, CHR 0x09, CHR 0x0C, CHR 0x08}"
  shows "escape_char c = [CHR 0x5C, CHR ''u'', CHR ''0'', CHR ''0'',
           hex_digit (of_char c div 16), hex_digit (of_char c mod 16)]"
proof -
  have "c \<noteq> CHR 0x22" "c \<noteq> CHR 0x5C" using assms(1) by auto
  with assms show ?thesis unfolding escape_char_def Let_def by simp
qed

lemma unescape_escape: "unescape (escape_char c @ r) = Some (c, r)"
proof -
  consider "c \<in> {CHR 0x0A, CHR 0x0D, CHR 0x09, CHR 0x0C, CHR 0x08, CHR 0x22, CHR 0x5C}"
    | "(of_char c :: nat) < 32" "c \<notin> {CHR 0x0A, CHR 0x0D, CHR 0x09, CHR 0x0C, CHR 0x08}"
    | "\<not> (of_char c :: nat) < 32" "c \<noteq> CHR 0x22" "c \<noteq> CHR 0x5C"
    by blast
  then show ?thesis
  proof cases
    case 1
    then show ?thesis by (elim insertE emptyE; simp add: escape_char_def)
  next
    case 2
    then have "hex_value (hex_digit (of_char c div 16)) = of_char c div 16"
      and "hex_value (hex_digit (of_char c mod 16)) = of_char c mod 16"
      by (intro hex_value_hex_digit; simp)+
    then show ?thesis using escape_char_low[OF 2] by (simp del: unescape.simps add: unescape_u)
  next
    case 3
    then have "escape_char c = [c]" by (auto simp: escape_char_def Let_def)
    with 3 show ?thesis by (simp del: unescape.simps add: unescape_simple)
  qed
qed

lemma escape_char_shape: "\<exists>a as. escape_char c = a # as \<and> a \<noteq> quote"
  by (auto simp: escape_char_def quote_def Let_def)

lemma escape_char_inject:
  assumes "escape_char c @ r = escape_char c' @ r'" shows "c = c' \<and> r = r'"
  by (metis assms unescape_escape option.inject prod.inject)

interpretation body: terminated_code escape_char UNIV quote
proof
  fix c c' r r'
  show "escape_char c \<noteq> []" "hd (escape_char c) \<noteq> quote" using escape_char_shape[of c] by auto
  show "escape_char c @ r = escape_char c' @ r' \<Longrightarrow> c = c' \<and> r = r'" by (rule escape_char_inject)
qed

lemmas json_body_inject = body.terminated_inject[OF subset_UNIV subset_UNIV]

lemma json_string_inject: "json_string s @ r = json_string s' @ r' \<Longrightarrow> s = s' \<and> r = r'"
  by (rule json_body_inject) (simp add: json_string_def)

lemma int_str_shape:
  "\<exists>sg ds. int_str i = sg @ ds \<and> (sg = [] \<or> sg = ''-'') \<and> ds \<noteq> [] \<and> list_all is_digit ds"
proof (intro exI conjI)
  show "int_str i = (if i < 0 then ''-'' else []) @ nat_str (nat \<bar>i\<bar>)" by (rule int_str_def)
qed (use nat_str_digits in auto)

lemma int_str_inject:
  assumes "int_str i = int_str j" shows "i = j"
proof -
  have hd: "hd (nat_str n) \<noteq> CHR ''-'' \<and> nat_str n \<noteq> []" for n
    using nat_str_digits[of n] by (cases "nat_str n") auto
  have "(i < 0) = (j < 0) \<and> nat \<bar>i\<bar> = nat \<bar>j\<bar>"
    using assms hd[of "nat \<bar>i\<bar>"] hd[of "nat \<bar>j\<bar>"] nat_str_inject
    by (auto simp: int_str_def split: if_splits) (metis list.sel(1))+
  then show ?thesis by linarith
qed

text \<open>
  A number ends where a character outside the number alphabet follows; in a document that is a
  comma, a closing bracket or the end.  \<open>json_ok\<close> says of the float texts what \<open>repr\<close> guarantees
  of finite floats: they use the number alphabet and contain a point or an exponent.
\<close>

definition number_char :: "char \<Rightarrow> bool" where
  "number_char c \<longleftrightarrow> is_digit c \<or> c \<in> {CHR ''-'', CHR ''+'', CHR ''.'', CHR ''e''}"

definition delimited :: "string \<Rightarrow> bool" where
  "delimited r \<longleftrightarrow> r = [] \<or> hd r \<in> {CHR '','', CHR '']'', CHR ''}''}"

definition float_repr :: "string \<Rightarrow> bool" where
  "float_repr s \<longleftrightarrow> s \<noteq> [] \<and> list_all number_char s \<and> (CHR ''.'' \<in> set s \<or> CHR ''e'' \<in> set s) \<and>
     (is_digit (hd s) \<or> hd s = CHR ''-'')"

fun json_ok :: "json \<Rightarrow> bool" where
  "json_ok (JFloat s) = float_repr s"
| "json_ok (JList xs) = list_all json_ok xs"
| "json_ok (JObj kvs) = list_all (\<lambda>(k, v). json_ok v) kvs"
| "json_ok _ = True"

lemma delimited_not_number: "delimited r \<Longrightarrow> r = [] \<or> \<not> number_char (hd r)"
  by (auto simp: delimited_def number_char_def is_digit_def)

lemma number_cut:
  assumes "list_all number_char s" "list_all number_char s'" "delimited r" "delimited r'" "s @ r = s' @ r'"
  shows "s = s' \<and> r = r'"
proof -
  have cut: "takeWhile number_char (t @ q) = t" if "list_all number_char t" "delimited q" for t q
    using that delimited_not_number[of q]
    by (cases q) (simp_all add: takeWhile_append list_all_iff)
  with assms have "s = s'" by metis
  with assms show ?thesis by simp
qed

lemma int_str_number:
  "list_all number_char (int_str i) \<and> CHR ''.'' \<notin> set (int_str i) \<and> CHR ''e'' \<notin> set (int_str i)"
proof -
  obtain sg ds where *: "int_str i = sg @ ds" "sg = [] \<or> sg = ''-''" "list_all is_digit ds"
    using int_str_shape[of i] by blast
  have "c \<notin> set ds" if "\<not> is_digit c" for c using that *(3) by (auto simp: list_all_iff)
  then have "CHR ''.'' \<notin> set ds" "CHR ''e'' \<notin> set ds" by simp_all
  with * show ?thesis by (auto simp: list_all_iff number_char_def)
qed

lemma int_str_hd: "is_digit (hd (int_str i)) \<or> hd (int_str i) = CHR ''-''" "int_str i \<noteq> []"
  using int_str_shape[of i] by (auto simp: hd_append list_all_iff)

text \<open>What kind of value a text starts: its first character.\<close>

fun kind_of :: "json \<Rightarrow> nat" where
  "kind_of JNull = 0"
| "kind_of (JBool b) = (if b then 1 else 2)"
| "kind_of (JInt i) = 3"
| "kind_of (JFloat s) = 3"
| "kind_of (JStr s) = 4"
| "kind_of (JList xs) = 5"
| "kind_of (JObj kvs) = 6"

definition kind_of_char :: "char \<Rightarrow> nat" where
  "kind_of_char c =
     (if c = CHR ''n'' then 0 else if c = CHR ''t'' then 1 else if c = CHR ''f'' then 2
      else if c = quote then 4 else if c = CHR ''['' then 5 else if c = CHR ''{'' then 6
      else if is_digit c \<or> c = CHR ''-'' then 3 else 7)"

lemma kind_of_char_number: "is_digit c \<or> c = CHR ''-'' \<Longrightarrow> kind_of_char c = 3"
  by (auto simp: kind_of_char_def is_digit_def quote_def)

lemma kind_of_char_open:
  "kind_of_char quote = 4" "kind_of_char CHR ''['' = 5" "kind_of_char CHR ''{'' = 6"
  by (simp_all add: kind_of_char_def quote_def)

lemma kind_of_char_close: "kind_of_char c < 7 \<Longrightarrow> c \<notin> {CHR '']'', CHR ''}''}"
  by (auto simp: kind_of_char_def quote_def is_digit_def)

lemma kind_of_less: "kind_of j < 7"
  by (cases j) auto

lemma json_text_kind:
  "json_ok j \<Longrightarrow> json_text j \<noteq> [] \<and> kind_of_char (hd (json_text j)) = kind_of j"
  by (cases j)
    (simp_all add: int_str_hd kind_of_char_number float_repr_def json_string_def
       kind_of_char_def[of "CHR ''n''"] kind_of_char_def[of "CHR ''t''"] kind_of_char_def[of "CHR ''f''"]
       kind_of_char_open)

definition readable :: "('a \<Rightarrow> bool) \<Rightarrow> ('a \<Rightarrow> string) \<Rightarrow> 'a \<Rightarrow> bool" where
  "readable ok f x \<longleftrightarrow> (\<forall>y r r'. ok y \<longrightarrow> delimited r \<longrightarrow> delimited r' \<longrightarrow> f x @ r = f y @ r' \<longrightarrow> x = y \<and> r = r')"

lemma readableD:
  "readable ok f x \<Longrightarrow> ok y \<Longrightarrow> delimited r \<Longrightarrow> delimited r' \<Longrightarrow> f x @ r = f y @ r' \<Longrightarrow> x = y \<and> r = r'"
  unfolding readable_def by blast

lemma joined_Cons: "joined (map f (x # xs)) = f x @ (if xs = [] then [] else CHR '','' # joined (map f xs))"
  by (cases xs) simp_all

lemma joined_first:
  assumes "xs \<noteq> []" "\<forall>x \<in> set xs. f x \<noteq> [] \<and> hd (f x) \<noteq> c"
  shows "joined (map f xs) @ r \<noteq> c # r'"
proof -
  obtain x ys where xs: "xs = x # ys" using assms(1) by (cases xs) auto
  with assms(2) have "f x \<noteq> []" "hd (f x) \<noteq> c" by auto
  then show ?thesis unfolding xs joined_Cons by (cases "f x") auto
qed

lemma joined_inject_aux:
  assumes close: "c \<in> {CHR '']'', CHR ''}''}"
  shows "xs \<noteq> [] \<Longrightarrow> ys \<noteq> [] \<Longrightarrow> \<forall>x \<in> set xs. readable ok f x \<Longrightarrow> \<forall>y \<in> set ys. ok y \<Longrightarrow>
    joined (map f xs) @ c # r = joined (map f ys) @ c # r' \<Longrightarrow> xs = ys \<and> r = r'"
proof (induction xs arbitrary: ys)
  case (Cons x xs)
  obtain y zs where ys: "ys = y # zs" using Cons.prems(2) by (cases ys) auto
  let ?t = "\<lambda>us q. (if us = [] then [] else CHR '','' # joined (map f us)) @ c # q"
  have d: "delimited (?t us q)" for us q using close by (auto simp: delimited_def)
  have "f x @ ?t xs r = f y @ ?t zs r'"
    using Cons.prems(5) unfolding ys joined_Cons by (simp only: append_assoc)
  then have xy: "x = y" and t: "?t xs r = ?t zs r'"
    using readableD[of ok f x y, OF _ _ d d] Cons.prems(3,4) ys by (auto simp del: append.simps)
  show ?case
  proof (cases "xs = []")
    case True
    with t close have "zs = []" by (auto split: if_splits)
    with True t xy ys show ?thesis by simp
  next
    case False
    with t close have zs: "zs \<noteq> []" by (auto split: if_splits)
    with False t have "joined (map f xs) @ c # r = joined (map f zs) @ c # r'" by simp
    with Cons.IH[OF False zs] Cons.prems(3,4) ys xy show ?thesis by auto
  qed
qed simp

lemma joined_inject:
  assumes "c \<in> {CHR '']'', CHR ''}''}" "\<forall>x \<in> set xs. readable ok f x" "\<forall>y \<in> set ys. ok y"
    and "\<forall>x \<in> set xs. f x \<noteq> [] \<and> hd (f x) \<noteq> c" "\<forall>y \<in> set ys. f y \<noteq> [] \<and> hd (f y) \<noteq> c"
    and "joined (map f xs) @ c # r = joined (map f ys) @ c # r'"
  shows "xs = ys \<and> r = r'"
proof (cases "xs = [] \<or> ys = []")
  case True
  with assms(4-6) joined_first[of xs f c "c # r" r'] joined_first[of ys f c "c # r'" r]
  show ?thesis by (cases "xs = []"; cases "ys = []") auto
next
  case False
  with joined_inject_aux[OF assms(1) _ _ assms(2,3,6)] show ?thesis by blast
qed

definition member_text :: "string \<times> json \<Rightarrow> string" where
  "member_text kv = json_string (fst kv) @ CHR '':'' # json_text (snd kv)"

lemma json_text_JObj: "json_text (JObj kvs) = CHR ''{'' # joined (map member_text kvs) @ ''}''"
proof -
  have "(\<lambda>(k, v). json_string k @ CHR '':'' # json_text v) = member_text"
    by (auto simp: member_text_def)
  then show ?thesis by simp
qed

lemma member_readable:
  assumes "readable json_ok json_text v"
  shows "readable (\<lambda>kv. json_ok (snd kv)) member_text (k, v)"
  unfolding readable_def
proof (intro allI impI)
  fix y r r' assume ok: "json_ok (snd y)" and d: "delimited r" "delimited r'"
    and eq: "member_text (k, v) @ r = member_text y @ r'"
  have "k = fst y \<and> CHR '':'' # json_text v @ r = CHR '':'' # json_text (snd y) @ r'"
    by (rule json_string_inject) (use eq in \<open>simp add: member_text_def\<close>)
  moreover from this have "v = snd y \<and> r = r'"
    using readableD[OF assms ok d] by simp
  ultimately show "(k, v) = y \<and> r = r'" by auto
qed

lemma number_readable:
  assumes ok: "json_ok j" "json_ok y" and k: "kind_of j = 3" "kind_of y = 3"
    and d: "delimited r" "delimited r'" and eq: "json_text j @ r = json_text y @ r'"
  shows "j = y \<and> r = r'"
proof -
  have num: "list_all number_char (json_text t)" if "json_ok t" "kind_of t = 3" for t
    using that int_str_number by (cases t) (auto simp: float_repr_def split: if_splits)
  have t: "json_text j = json_text y" and r: "r = r'"
    using number_cut[OF num[OF ok(1) k(1)] num[OF ok(2) k(2)] d eq] by auto
  have "j = y" using t ok k int_str_number int_str_inject
    by (cases j; cases y) (auto simp: float_repr_def split: if_splits)
  with r show ?thesis by simp
qed

text \<open>The constants \<open>null\<close>, \<open>true\<close> and \<open>false\<close>, and numbers.\<close>

lemma atom_readable:
  assumes ok: "json_ok j" and k: "kind_of j < 4"
  shows "readable json_ok json_text j"
  unfolding readable_def
proof (intro allI impI)
  fix y r r' assume y: "json_ok y" and d: "delimited r" "delimited r'" and eq: "json_text j @ r = json_text y @ r'"
  have "kind_of j = kind_of y"
    using json_text_kind[OF ok] json_text_kind[OF y] eq by (metis hd_append2)
  with number_readable[OF ok y _ _ d eq] k eq show "j = y \<and> r = r'"
    by (cases j; cases y) (auto split: if_splits)
qed

lemma json_text_hd_not_close:
  "json_ok j \<Longrightarrow> json_text j \<noteq> [] \<and> hd (json_text j) \<notin> {CHR '']'', CHR ''}''}"
  using json_text_kind[of j] kind_of_char_close[of "hd (json_text j)"] kind_of_less[of j] by auto

lemma member_hd: "member_text kv \<noteq> [] \<and> hd (member_text kv) \<noteq> CHR ''}''"
  by (simp add: member_text_def json_string_def quote_def)

lemma json_text_readable: "json_ok j \<Longrightarrow> readable json_ok json_text j"
proof (induction j)
  case (JList xs)
  show ?case unfolding readable_def
  proof (intro allI impI)
    fix y r r' assume ok: "json_ok y" and d: "delimited r" "delimited r'"
      and eq: "json_text (JList xs) @ r = json_text y @ r'"
    have "kind_of y = 5" using json_text_kind[OF ok] json_text_kind[OF JList.prems] eq
      by (cases "json_text y") (simp_all add: kind_of_char_open)
    then obtain ys where y: "y = JList ys" by (cases y) (auto split: if_splits)
    have "xs = ys \<and> r = r'"
    proof (rule joined_inject[where c = "CHR '']''" and ok = json_ok and f = json_text])
      show "joined (map json_text xs) @ CHR '']'' # r = joined (map json_text ys) @ CHR '']'' # r'"
        using eq y by simp
    qed (use JList ok y json_text_hd_not_close in \<open>auto simp: list_all_iff\<close>)
    with y show "JList xs = y \<and> r = r'" by simp
  qed
next
  case (JObj kvs)
  show ?case unfolding readable_def
  proof (intro allI impI)
    fix y r r' assume ok: "json_ok y" and d: "delimited r" "delimited r'"
      and eq: "json_text (JObj kvs) @ r = json_text y @ r'"
    have "kind_of y = 6" using json_text_kind[OF ok] json_text_kind[OF JObj.prems] eq
      by (cases "json_text y") (simp_all add: kind_of_char_open)
    then obtain ys where y: "y = JObj ys" by (cases y) (auto split: if_splits)
    have "readable json_ok json_text v" if "(k, v) \<in> set kvs" for k v
      using JObj.IH[OF that] JObj.prems that by (auto simp: list_all_iff)
    then have "readable (\<lambda>kv. json_ok (snd kv)) member_text kv" if "kv \<in> set kvs" for kv
      using that member_readable by (metis prod.collapse)
    moreover have "\<forall>kv \<in> set ys. json_ok (snd kv)" using ok y by (auto simp: list_all_iff)
    moreover have "joined (map member_text kvs) @ CHR ''}'' # r = joined (map member_text ys) @ CHR ''}'' # r'"
      using eq y by (simp add: json_text_JObj del: json_text.simps(7))
    ultimately have "kvs = ys \<and> r = r'"
      by (intro joined_inject[where c = "CHR ''}''" and ok = "\<lambda>kv. json_ok (snd kv)" and f = member_text])
        (use member_hd in auto)
    with y show "JObj kvs = y \<and> r = r'" by simp
  qed
next
  case (JStr s)
  show ?case unfolding readable_def
  proof (intro allI impI)
    fix y r r' assume ok: "json_ok y" and eq: "json_text (JStr s) @ r = json_text y @ r'"
    have "kind_of y = 4" using json_text_kind[OF ok] json_text_kind[OF JStr.prems] eq
      by (cases "json_text y") (simp_all add: json_string_def kind_of_char_open)
    then obtain t where t: "y = JStr t" by (cases y) (auto split: if_splits)
    have "s = t \<and> r = r'" by (rule json_string_inject) (use eq t in simp)
    with t show "JStr s = y \<and> r = r'" by simp
  qed
qed (rule atom_readable; simp)+


lemma json_text_inject:
  assumes "json_ok j" "json_ok j'" "json_text j = json_text j'" shows "j = j'"
  using readableD[OF json_text_readable[OF assms(1)] assms(2), of "[]" "[]"] assms(3)
  by (simp add: delimited_def)

section \<open>Objects by member\<close>

fun member :: "json \<Rightarrow> string \<Rightarrow> json option" where
  "member (JObj kvs) k = map_of kvs k"
| "member _ k = None"

lemma map_of_sort_key:
  assumes "distinct (map fst kvs)" shows "map_of (sort_key fst kvs) = map_of kvs"
proof (rule map_of_eqI)
  show "set (map fst (sort_key fst kvs)) = set (map fst kvs)" by simp
  have d: "distinct (map fst (sort_key fst kvs))"
    using assms by (metis mset_map mset_sort mset_eq_imp_distinct_iff)
  show "\<forall>k \<in> set (map fst (sort_key fst kvs)). map_of (sort_key fst kvs) k = map_of kvs k"
  proof
    fix k assume "k \<in> set (map fst (sort_key fst kvs))"
    then obtain v where kv: "(k, v) \<in> set kvs" by auto
    then have "map_of kvs k = Some v" using assms by simp
    moreover have "map_of (sort_key fst kvs) k = Some v" using kv d by simp
    ultimately show "map_of (sort_key fst kvs) k = map_of kvs k" by simp
  qed
qed

lemma member_jobj: "distinct (map fst kvs) \<Longrightarrow> member (jobj kvs) k = map_of kvs k"
  by (simp add: jobj_def map_of_sort_key)

lemma json_ok_jobj [simp]: "json_ok (jobj kvs) \<longleftrightarrow> list_all (\<lambda>(k, v). json_ok v) kvs"
  by (auto simp: jobj_def list_all_iff)

lemma json_ok_jopt: "(\<And>x. json_ok (f x)) \<Longrightarrow> json_ok (jopt f v)"
  by (simp add: jopt_def split: option.splits)

lemma jopt_inject: "jopt f v = jopt f w \<Longrightarrow> inj f \<Longrightarrow> (\<And>x. f x \<noteq> JNull) \<Longrightarrow> v = w"
  by (auto simp: jopt_def inj_def split: option.splits) metis

text \<open>Equal objects agree in every member.\<close>

lemma member_eqI:
  "jobj kvs = jobj kvs' \<Longrightarrow> distinct (map fst kvs) \<Longrightarrow> distinct (map fst kvs') \<Longrightarrow> map_of kvs k = map_of kvs' k"
  by (metis member_jobj)

text \<open>
  \<open>_checksum\<close>: the SHA-256 of the canonical text.  The hash is an argument; \<open>no_collision\<close> says that
  it tells the given texts apart in its first \<open>n\<close> characters.
\<close>

definition checksum_of :: "(string \<Rightarrow> string) \<Rightarrow> json \<Rightarrow> string" where
  "checksum_of sha256 payload = sha256 (json_text payload)"

definition no_collision :: "(string \<Rightarrow> string) \<Rightarrow> nat \<Rightarrow> string set \<Rightarrow> bool" where
  "no_collision sha256 n ts \<longleftrightarrow> inj_on (\<lambda>t. take n (sha256 t)) ts"

end
