(* ===== verification/Calculation_Contract.thy ===== *)
theory Calculation_Contract
  imports Canonical_Json Ledger
begin

text \<open>
  The shared calculation contract (\<open>semantic/calculation_contract.py\<close>): the bounded expression
  grammar, its iterative walkers, the declarations of a reusable \<open>CalculationSpec\<close>, the per-run
  parameter binding, the derived output identity and the resolution vocabulary.

  One datatype has the thirteen operand classes; what pydantic's field types and patterns demand of
  a node is the predicate \<open>expr_ok\<close>.  A binary float is its \<open>repr\<close> text.  Non-finite decimals are not
  values of the model: the source refuses them at construction.
\<close>

section \<open>Identifiers\<close>

definition is_lower :: "char \<Rightarrow> bool" where
  "is_lower c \<longleftrightarrow> 97 \<le> (of_char c :: nat) \<and> (of_char c :: nat) \<le> 122"

definition is_upper :: "char \<Rightarrow> bool" where
  "is_upper c \<longleftrightarrow> 65 \<le> (of_char c :: nat) \<and> (of_char c :: nat) \<le> 90"

text \<open>\<open>^[A-Za-z_][A-Za-z0-9_]{0,63}$\<close>\<close>

definition role_name :: "string \<Rightarrow> bool" where
  "role_name s \<longleftrightarrow> (case s of [] \<Rightarrow> False
     | c # cs \<Rightarrow> (is_lower c \<or> is_upper c \<or> c = CHR ''_'') \<and> length cs \<le> 63 \<and>
         list_all (\<lambda>d. is_lower d \<or> is_upper d \<or> is_digit d \<or> d = CHR ''_'') cs)"

text \<open>\<open>^[a-z][a-z0-9_.-]{0,127}$\<close>\<close>

definition calculation_id_ok :: "string \<Rightarrow> bool" where
  "calculation_id_ok s \<longleftrightarrow> (case s of [] \<Rightarrow> False
     | c # cs \<Rightarrow> is_lower c \<and> length cs \<le> 127 \<and>
         list_all (\<lambda>d. is_lower d \<or> is_digit d \<or> d \<in> {CHR ''_'', CHR ''.'', CHR ''-''}) cs)"

text \<open>
  \<open>^[a-z][a-z0-9_]*(?:[.-][a-z0-9_]+)*$\<close>: the flag says that the last character was a separator.
\<close>

fun unit_tail :: "bool \<Rightarrow> string \<Rightarrow> bool" where
  "unit_tail sep [] = (\<not> sep)"
| "unit_tail sep (c # cs) =
     (if is_lower c \<or> is_digit c \<or> c = CHR ''_'' then unit_tail False cs
      else (c = CHR ''.'' \<or> c = CHR ''-'') \<and> \<not> sep \<and> unit_tail True cs)"

definition custom_unit_id_ok :: "string \<Rightarrow> bool" where
  "custom_unit_id_ok s \<longleftrightarrow> (case s of [] \<Rightarrow> False | c # cs \<Rightarrow> is_lower c \<and> unit_tail False cs)"

section \<open>Vocabularies\<close>

datatype unit_policy = Count | Percent | Ratio | CurrencyCny | Seconds | CustomUnit

fun unit_text :: "unit_policy \<Rightarrow> string" where
  "unit_text Count = ''count''"
| "unit_text Percent = ''percent''"
| "unit_text Ratio = ''ratio''"
| "unit_text CurrencyCny = ''currency_cny''"
| "unit_text Seconds = ''seconds''"
| "unit_text CustomUnit = ''custom_unit''"

definition builtin_unit_literals :: "string list" where
  "builtin_unit_literals =
     [''count'', ''percent'', ''ratio'', ''currency_cny'', ''seconds'', ''custom_unit'', ''custom'']"

text \<open>\<open>RoundingPolicy\<close>; the constructors are those of \<^typ>\<open>round_mode\<close>.\<close>

fun rounding_text :: "round_mode \<Rightarrow> string" where
  "rounding_text HalfUp = ''half_up''"
| "rounding_text HalfEven = ''half_even''"
| "rounding_text HalfDown = ''half_down''"
| "rounding_text RoundFloor = ''floor''"
| "rounding_text RoundCeil = ''ceil''"

datatype parameter_value_type = TString | TInteger | TDecimal | TDate | TBoolean

fun value_type_text :: "parameter_value_type \<Rightarrow> string" where
  "value_type_text TString = ''string''"
| "value_type_text TInteger = ''integer''"
| "value_type_text TDecimal = ''decimal''"
| "value_type_text TDate = ''date''"
| "value_type_text TBoolean = ''boolean''"

datatype input_provenance = PublishedGold | DefinitionBackedComputed | ProductPublishedState | AdHocMetric

fun provenance_text :: "input_provenance \<Rightarrow> string" where
  "provenance_text PublishedGold = ''published_gold''"
| "provenance_text DefinitionBackedComputed = ''definition_backed_computed''"
| "provenance_text ProductPublishedState = ''product_published_state''"
| "provenance_text AdHocMetric = ''ad_hoc_metric''"

definition formal_provenance :: "input_provenance \<Rightarrow> bool" where
  "formal_provenance p \<longleftrightarrow> p \<in> {PublishedGold, DefinitionBackedComputed, ProductPublishedState}"

datatype aggregate_function = AggSum | AggCount | AggCountDistinct | AggMin | AggMax | AggAvg

fun aggregate_text :: "aggregate_function \<Rightarrow> string" where
  "aggregate_text AggSum = ''sum''"
| "aggregate_text AggCount = ''count''"
| "aggregate_text AggCountDistinct = ''count_distinct''"
| "aggregate_text AggMin = ''min''"
| "aggregate_text AggMax = ''max''"
| "aggregate_text AggAvg = ''avg''"

datatype binary_operator = Add | Subtract | Multiply | Divide

fun binary_text :: "binary_operator \<Rightarrow> string" where
  "binary_text Add = ''add''"
| "binary_text Subtract = ''subtract''"
| "binary_text Multiply = ''multiply''"
| "binary_text Divide = ''divide''"

datatype comparison_operator = Gt | Le

fun comparison_text :: "comparison_operator \<Rightarrow> string" where
  "comparison_text Gt = ''gt''"
| "comparison_text Le = ''le''"

datatype null_test_operator = IsNull | IsNotNull

fun null_test_text :: "null_test_operator \<Rightarrow> string" where
  "null_test_text IsNull = ''is_null''"
| "null_test_text IsNotNull = ''is_not_null''"

definition max_expression_depth :: nat where "max_expression_depth = 16"
definition max_expression_nodes :: nat where "max_expression_nodes = 64"
definition max_condition_branches :: nat where "max_condition_branches = 8"

section \<open>Expressions\<close>

datatype expression =
    LiteralOperand decimal
  | NullLiteralOperand
  | InputRefOperand string
  | ParameterRefOperand string
  | AggregateOperand aggregate_function string
  | BinaryOperand binary_operator expression expression
  | CompareOperand comparison_operator expression expression
  | NullTestOperand null_test_operator expression
  | CoalesceOperand expression decimal
  | RoundOperand expression nat
  | AllOperand "expression list"
  | AnyOperand "expression list"
  | CaseOperand "(expression \<times> expression) list" "expression option"

text \<open>\<open>CompareOperand | NullTestOperand\<close>, and the condition of a \<open>WhenBranch\<close>.\<close>

fun simple_condition :: "expression \<Rightarrow> bool" where
  "simple_condition (CompareOperand _ _ _) = True"
| "simple_condition (NullTestOperand _ _) = True"
| "simple_condition _ = False"

fun when_condition :: "expression \<Rightarrow> bool" where
  "when_condition (AllOperand _) = True"
| "when_condition (AnyOperand _) = True"
| "when_condition e = simple_condition e"

definition branch_count_ok :: "'a list \<Rightarrow> bool" where
  "branch_count_ok xs \<longleftrightarrow> 1 \<le> length xs \<and> length xs \<le> max_condition_branches"

text \<open>The field types, patterns and length bounds of the operand classes.\<close>

fun expr_ok :: "expression \<Rightarrow> bool" where
  "expr_ok (LiteralOperand v) = True"
| "expr_ok NullLiteralOperand = True"
| "expr_ok (InputRefOperand r) = role_name r"
| "expr_ok (ParameterRefOperand n) = role_name n"
| "expr_ok (AggregateOperand f r) = role_name r"
| "expr_ok (BinaryOperand op a b) = (expr_ok a \<and> expr_ok b)"
| "expr_ok (CompareOperand op a b) = (expr_ok a \<and> expr_ok b)"
| "expr_ok (NullTestOperand op a) = expr_ok a"
| "expr_ok (CoalesceOperand a v) = expr_ok a"
| "expr_ok (RoundOperand a n) = (expr_ok a \<and> n \<le> 12)"
| "expr_ok (AllOperand cs) = (branch_count_ok cs \<and> list_all simple_condition cs \<and> list_all expr_ok cs)"
| "expr_ok (AnyOperand cs) = (branch_count_ok cs \<and> list_all simple_condition cs \<and> list_all expr_ok cs)"
| "expr_ok (CaseOperand ws els) =
     (branch_count_ok ws \<and> list_all (\<lambda>(c, t). when_condition c \<and> expr_ok c \<and> expr_ok t) ws \<and>
      (case els of None \<Rightarrow> True | Some e \<Rightarrow> expr_ok e))"

text \<open>\<open>_children\<close>: every condition of a CASE precedes every result.\<close>

fun children :: "expression \<Rightarrow> expression list" where
  "children (BinaryOperand _ a b) = [a, b]"
| "children (CompareOperand _ a b) = [a, b]"
| "children (NullTestOperand _ a) = [a]"
| "children (CoalesceOperand a _) = [a]"
| "children (RoundOperand a _) = [a]"
| "children (AllOperand cs) = cs"
| "children (AnyOperand cs) = cs"
| "children (CaseOperand ws els) =
     map fst ws @ map snd ws @ (case els of None \<Rightarrow> [] | Some e \<Rightarrow> [e])"
| "children _ = []"

lemma case_part_size:
  "(c, t) \<in> set ws \<Longrightarrow> size c < size (CaseOperand ws els) \<and> size t < size (CaseOperand ws els)"
  by (induction ws) auto

lemma children_size: "c \<in> set (children e) \<Longrightarrow> size c < size e"
proof (cases e)
  case (CaseOperand ws els)
  assume "c \<in> set (children e)"
  with CaseOperand show ?thesis
    by (auto dest: case_part_size[of _ _ ws els] split: option.splits)
qed (auto dest: size_list_estimation'[of _ _ _ size] simp: less_Suc_eq_le)

text \<open>
  The node budget error of the walkers, and the two loops.  A stack is a list whose head is the
  top; \<open>visited\<close> counts the nodes popped so far, so each loop body runs at most once per unit of
  the budget that is left.
\<close>

definition node_count_error :: exn where
  "node_count_error = ValueError ''calculation expression exceeds the bounded node count''"

function walk_loop :: "expression list \<Rightarrow> expression list \<Rightarrow> expression list result" where
  "walk_loop [] seen = Inr seen"
| "walk_loop (node # stack) seen =
     (let seen' = seen @ [node] in
      if length seen' > max_expression_nodes then Inl node_count_error
      else walk_loop (children node @ stack) seen')"
  by pat_completeness auto
termination
  by (relation "measure (\<lambda>(stack, seen). Suc max_expression_nodes - length seen)") auto

declare walk_loop.simps [simp del]

definition walk :: "expression \<Rightarrow> expression list result" where
  "walk e = walk_loop [e] []"

function depth_loop :: "(expression \<times> nat) list \<Rightarrow> nat \<Rightarrow> nat \<Rightarrow> nat result" where
  "depth_loop [] visited best = Inr best"
| "depth_loop ((node, d) # stack) visited best =
     (let visited' = visited + 1 in
      if visited' > max_expression_nodes then Inl node_count_error
      else depth_loop (rev (map (\<lambda>c. (c, d + 1)) (children node)) @ stack) visited' (max best d))"
  by pat_completeness auto
termination
  by (relation "measure (\<lambda>(stack, visited, best). Suc max_expression_nodes - visited)") auto

declare depth_loop.simps [simp del]

definition expression_depth :: "expression \<Rightarrow> nat result" where
  "expression_depth e = depth_loop [(e, 1)] 0 0"

definition expression_node_count :: "expression \<Rightarrow> nat result" where
  "expression_node_count e = map_sum id length (walk e)"

fun role_of :: "expression \<Rightarrow> string list" where
  "role_of (InputRefOperand r) = [r]"
| "role_of (AggregateOperand _ r) = [r]"
| "role_of _ = []"

fun parameter_of :: "expression \<Rightarrow> string list" where
  "parameter_of (ParameterRefOperand n) = [n]"
| "parameter_of _ = []"

definition referenced_input_roles :: "expression \<Rightarrow> string list result" where
  "referenced_input_roles e = map_sum id (\<lambda>ns. nub (concat (map role_of ns))) (walk e)"

definition referenced_parameter_names :: "expression \<Rightarrow> string list result" where
  "referenced_parameter_names e = map_sum id (\<lambda>ns. nub (concat (map parameter_of ns))) (walk e)"

section \<open>Declarations\<close>

record calculation_input_spec =
  ci_role :: string
  ci_provenance :: input_provenance
  ci_metric_key :: "string option"
  ci_required :: bool

definition mk_calculation_input_spec ::
  "string \<Rightarrow> input_provenance \<Rightarrow> string option \<Rightarrow> bool \<Rightarrow> calculation_input_spec result" where
  "mk_calculation_input_spec role provenance metric_key required =
     validated
       [(\<not> role_name role, FieldError ''role''),
        (case metric_key of None \<Rightarrow> False | Some m \<Rightarrow> length m < 1 \<or> length m > 256, FieldError ''metric_key''),
        (formal_provenance provenance \<and> metric_key = None,
         ValueError ''formal provenance requires an input metric identity'')]
       \<lparr>ci_role = role, ci_provenance = provenance, ci_metric_key = metric_key, ci_required = required\<rparr>"

record parameter_spec =
  ps_name :: string
  ps_value_type :: parameter_value_type
  ps_required :: bool
  ps_allowed_values :: "string list"
  ps_description :: "string option"

definition mk_parameter_spec ::
  "string \<Rightarrow> parameter_value_type \<Rightarrow> bool \<Rightarrow> string list \<Rightarrow> string option \<Rightarrow> parameter_spec result" where
  "mk_parameter_spec name value_type required allowed description =
     validated
       [(\<not> role_name name, FieldError ''name''),
        (length allowed > 64, FieldError ''allowed_values''),
        (list_ex blank allowed, ValueError ''allowed parameter values must be non-blank''),
        (\<not> distinct allowed, ValueError ''allowed parameter values must be unique''),
        (case description of None \<Rightarrow> False | Some d \<Rightarrow> length d > 512, FieldError ''description'')]
       \<lparr>ps_name = name, ps_value_type = value_type, ps_required = required,
        ps_allowed_values = allowed, ps_description = description\<rparr>"

record calculation_spec =
  cs_calculation_id :: string
  cs_expression :: expression
  cs_inputs :: "calculation_input_spec list"
  cs_parameters :: "parameter_spec list"
  cs_unit :: unit_policy
  cs_custom_unit_id :: "string option"
  cs_precision :: "nat option"
  cs_rounding :: "round_mode option"

definition forbidden_authority_fields :: "string list" where
  "forbidden_authority_fields =
     [''canonical'', ''approved'', ''saved'', ''governance_candidate'', ''template_registered'',
      ''authority'', ''canonical_metric_key'', ''approved_calculation_binding'', ''binding_checksum'',
      ''definition_id'', ''definition_version'', ''confirmation'', ''confirmed'', ''retention'',
      ''governance'', ''lifecycle'']"

definition spec_fields :: "string list" where
  "spec_fields =
     [''schema_version'', ''calculation_id'', ''expression'', ''inputs'', ''parameters'', ''unit'',
      ''custom_unit_id'', ''precision'', ''rounding'']"

text \<open>\<open>_validate_semantics\<close>, the model validator that runs after the fields are valid.\<close>

definition validate_semantics :: "calculation_spec \<Rightarrow> calculation_spec result" where
  "validate_semantics spec =
     (case expression_depth (cs_expression spec) of Inl e \<Rightarrow> Inl e | Inr depth \<Rightarrow>
      if depth > max_expression_depth then Inl (ValueError ''calculation expression exceeds the bounded depth'') else
      case expression_node_count (cs_expression spec) of Inl e \<Rightarrow> Inl e | Inr nodes \<Rightarrow>
      if nodes > max_expression_nodes then Inl node_count_error else
      case referenced_input_roles (cs_expression spec) of Inl e \<Rightarrow> Inl e | Inr roles \<Rightarrow>
      if \<not> set roles \<subseteq> set (map ci_role (cs_inputs spec))
      then Inl (ValueError ''expression references an undeclared input role'') else
      case referenced_parameter_names (cs_expression spec) of Inl e \<Rightarrow> Inl e | Inr names \<Rightarrow>
      if \<not> set names \<subseteq> set (map ps_name (cs_parameters spec))
      then Inl (ValueError ''expression references an undeclared parameter'') else
      validated
        [(cs_rounding spec \<noteq> None \<and> cs_precision spec = None,
          ValueError ''rounding requires an explicit precision''),
         ((cs_unit spec = CustomUnit) \<noteq> (cs_custom_unit_id spec \<noteq> None),
          ValueError ''custom_unit requires exactly one bounded custom_unit_id''),
         (case cs_custom_unit_id spec of None \<Rightarrow> False | Some u \<Rightarrow> u \<in> set builtin_unit_literals,
          ValueError ''custom_unit_id must not shadow a built-in unit literal'')]
        spec)"

text \<open>
  Construction from a payload: \<open>keys\<close> are the payload's keys, inspected before anything else; then
  the field constraints; then the semantics.
\<close>

definition mk_calculation_spec :: "string list \<Rightarrow> calculation_spec \<Rightarrow> calculation_spec result" where
  "mk_calculation_spec keys spec =
     (case validated
        [(list_ex (\<lambda>k. k \<in> set forbidden_authority_fields) keys,
          ValueError ''shared calculation semantics must not carry authority/lifecycle fields''),
         (list_ex (\<lambda>k. k \<notin> set spec_fields) keys, FieldError ''extra''),
         (\<not> calculation_id_ok (cs_calculation_id spec), FieldError ''calculation_id''),
         (\<not> expr_ok (cs_expression spec), FieldError ''expression''),
         (length (cs_inputs spec) < 1 \<or> length (cs_inputs spec) > 32, FieldError ''inputs''),
         (\<not> distinct (map ci_role (cs_inputs spec)), ValueError ''calculation input roles must be unique''),
         (length (cs_parameters spec) > 32, FieldError ''parameters''),
         (\<not> distinct (map ps_name (cs_parameters spec)), ValueError ''calculation parameter names must be unique''),
         (case cs_custom_unit_id spec of None \<Rightarrow> False | Some u \<Rightarrow> \<not> custom_unit_id_ok u, FieldError ''custom_unit_id''),
         (case cs_precision spec of None \<Rightarrow> False | Some p \<Rightarrow> p > 12, FieldError ''precision'')]
        spec of
      Inl e \<Rightarrow> Inl e
    | Inr _ \<Rightarrow> validate_semantics spec)"

section \<open>Checksums\<close>

fun expression_json :: "expression \<Rightarrow> json" where
  "expression_json (LiteralOperand v) = jobj [(''op'', JStr ''literal''), (''value'', JStr (dec_str v))]"
| "expression_json NullLiteralOperand = jobj [(''op'', JStr ''null'')]"
| "expression_json (InputRefOperand r) = jobj [(''op'', JStr ''input''), (''role'', JStr r)]"
| "expression_json (ParameterRefOperand n) = jobj [(''op'', JStr ''parameter''), (''name'', JStr n)]"
| "expression_json (AggregateOperand f r) =
     jobj [(''op'', JStr ''aggregate''), (''function'', JStr (aggregate_text f)), (''role'', JStr r)]"
| "expression_json (BinaryOperand op a b) =
     jobj [(''op'', JStr (binary_text op)), (''left'', expression_json a), (''right'', expression_json b)]"
| "expression_json (CompareOperand op a b) =
     jobj [(''op'', JStr ''compare''), (''operator'', JStr (comparison_text op)),
           (''left'', expression_json a), (''right'', expression_json b)]"
| "expression_json (NullTestOperand op a) =
     jobj [(''op'', JStr ''null_test''), (''operator'', JStr (null_test_text op)), (''operand'', expression_json a)]"
| "expression_json (CoalesceOperand a v) =
     jobj [(''op'', JStr ''coalesce''), (''operand'', expression_json a),
           (''default'', jobj [(''op'', JStr ''literal''), (''value'', JStr (dec_str v))])]"
| "expression_json (RoundOperand a n) =
     jobj [(''op'', JStr ''round''), (''operand'', expression_json a), (''digits'', JInt (int n))]"
| "expression_json (AllOperand cs) =
     jobj [(''op'', JStr ''all''), (''conditions'', JList (map expression_json cs))]"
| "expression_json (AnyOperand cs) =
     jobj [(''op'', JStr ''any''), (''conditions'', JList (map expression_json cs))]"
| "expression_json (CaseOperand ws els) =
     jobj [(''op'', JStr ''case''),
           (''whens'', JList (map (\<lambda>(c, t). jobj [(''condition'', expression_json c), (''then'', expression_json t)]) ws)),
           (''otherwise'', case els of None \<Rightarrow> JNull | Some e \<Rightarrow> expression_json e)]"

definition input_spec_json :: "calculation_input_spec \<Rightarrow> json" where
  "input_spec_json i =
     jobj [(''role'', JStr (ci_role i)), (''provenance'', JStr (provenance_text (ci_provenance i))),
           (''metric_key'', jopt JStr (ci_metric_key i)), (''required'', JBool (ci_required i))]"

definition parameter_spec_json :: "parameter_spec \<Rightarrow> json" where
  "parameter_spec_json p =
     jobj [(''name'', JStr (ps_name p)), (''value_type'', JStr (value_type_text (ps_value_type p))),
           (''required'', JBool (ps_required p)), (''allowed_values'', JList (map JStr (ps_allowed_values p))),
           (''description'', jopt JStr (ps_description p))]"

definition spec_json :: "calculation_spec \<Rightarrow> json" where
  "spec_json s =
     jobj [(''schema_version'', JStr ''1.1''), (''calculation_id'', JStr (cs_calculation_id s)),
           (''expression'', expression_json (cs_expression s)),
           (''inputs'', JList (map input_spec_json (cs_inputs s))),
           (''parameters'', JList (map parameter_spec_json (cs_parameters s))),
           (''unit'', JStr (unit_text (cs_unit s))), (''custom_unit_id'', jopt JStr (cs_custom_unit_id s)),
           (''precision'', jopt (\<lambda>n. JInt (int n)) (cs_precision s)),
           (''rounding'', jopt (\<lambda>r. JStr (rounding_text r)) (cs_rounding s))]"

definition spec_checksum :: "(string \<Rightarrow> string) \<Rightarrow> calculation_spec \<Rightarrow> string" where
  "spec_checksum sha256 s = checksum_of sha256 (spec_json s)"

section \<open>Per-run binding\<close>

datatype parameter_value =
    PStr string
  | PBool bool
  | PInt int
  | PFloat string
  | PDec decimal

definition year_days_leap :: "nat \<Rightarrow> bool" where
  "year_days_leap y \<longleftrightarrow> y mod 4 = 0 \<and> (y mod 100 \<noteq> 0 \<or> y mod 400 = 0)"

definition days_in_month :: "nat \<Rightarrow> nat \<Rightarrow> nat" where
  "days_in_month y m =
     (if m = 2 then (if year_days_leap y then 29 else 28) else if m \<in> {4, 6, 9, 11} then 30 else 31)"

text \<open>\<open>date.fromisoformat\<close> of four, two and two digits: a day of the proleptic Gregorian calendar.\<close>

definition is_iso_calendar_date :: "string \<Rightarrow> bool" where
  "is_iso_calendar_date v \<longleftrightarrow>
     length v = 10 \<and> v ! 4 = CHR ''-'' \<and> v ! 7 = CHR ''-'' \<and>
     list_all is_digit (take 4 v @ take 2 (drop 5 v) @ drop 8 v) \<and>
     (let y = nat_of_digits 0 (take 4 v); m = nat_of_digits 0 (take 2 (drop 5 v)); d = nat_of_digits 0 (drop 8 v)
      in 1 \<le> y \<and> 1 \<le> m \<and> m \<le> 12 \<and> 1 \<le> d \<and> d \<le> days_in_month y m)"

fun value_matches_type :: "parameter_value \<Rightarrow> parameter_value_type \<Rightarrow> bool" where
  "value_matches_type v TString = (case v of PStr _ \<Rightarrow> True | _ \<Rightarrow> False)"
| "value_matches_type v TBoolean = (case v of PBool _ \<Rightarrow> True | _ \<Rightarrow> False)"
| "value_matches_type v TInteger = (case v of PInt _ \<Rightarrow> True | _ \<Rightarrow> False)"
| "value_matches_type v TDecimal = (case v of PDec _ \<Rightarrow> True | PInt _ \<Rightarrow> True | _ \<Rightarrow> False)"
| "value_matches_type v TDate = (case v of PStr s \<Rightarrow> is_iso_calendar_date s | _ \<Rightarrow> False)"

text \<open>\<open>str(value)\<close>.\<close>

fun value_str :: "parameter_value \<Rightarrow> string" where
  "value_str (PStr s) = s"
| "value_str (PBool b) = (if b then ''True'' else ''False'')"
| "value_str (PInt i) = int_str i"
| "value_str (PFloat t) = t"
| "value_str (PDec d) = dec_str d"

record parameter_binding =
  pb_name :: string
  pb_value :: parameter_value

record calculation_execution_binding =
  eb_calculation_id :: string
  eb_spec_checksum :: string
  eb_parameters :: "parameter_binding list"

definition mk_execution_binding ::
  "string \<Rightarrow> string \<Rightarrow> parameter_binding list \<Rightarrow> calculation_execution_binding result" where
  "mk_execution_binding cid sc ps =
     validated
       [(\<not> calculation_id_ok cid, FieldError ''calculation_id''),
        (\<not> is_hex64 sc, FieldError ''spec_checksum''),
        (length ps > 32 \<or> list_ex (\<lambda>p. \<not> role_name (pb_name p)) ps, FieldError ''parameters''),
        (\<not> distinct (map pb_name ps), ValueError ''parameter bindings must be unique by name'')]
       \<lparr>eb_calculation_id = cid, eb_spec_checksum = sc, eb_parameters = ps\<rparr>"

definition bound_value :: "calculation_execution_binding \<Rightarrow> string \<Rightarrow> parameter_value option" where
  "bound_value b = map_of (rev (map (\<lambda>p. (pb_name p, pb_value p)) (eb_parameters b)))"

text \<open>The failures one declared parameter contributes.\<close>

definition parameter_failures :: "calculation_execution_binding \<Rightarrow> parameter_spec \<Rightarrow> string list" where
  "parameter_failures b p =
     (case bound_value b (ps_name p) of
        None \<Rightarrow> if ps_required p then [''execution_binding_missing_required_parameter''] else []
      | Some v \<Rightarrow>
          if \<not> value_matches_type v (ps_value_type p) then [''execution_binding_value_type_mismatch'']
          else if ps_allowed_values p \<noteq> [] \<and> value_str v \<notin> set (ps_allowed_values p)
            then [''execution_binding_value_not_allowed'']
          else [])"

definition binding_failures ::
  "(string \<Rightarrow> string) \<Rightarrow> calculation_execution_binding \<Rightarrow> calculation_spec \<Rightarrow> string list" where
  "binding_failures sha256 b spec =
     nub ((if cs_calculation_id spec \<noteq> eb_calculation_id b \<or> spec_checksum sha256 spec \<noteq> eb_spec_checksum b
           then [''execution_binding_spec_mismatch''] else [])
        @ concat (map (\<lambda>p. if pb_name p \<notin> set (map ps_name (cs_parameters spec))
                           then [''execution_binding_unknown_parameter''] else []) (eb_parameters b))
        @ concat (map (parameter_failures b) (cs_parameters spec)))"

fun value_json :: "parameter_value \<Rightarrow> json" where
  "value_json (PStr s) = JStr s"
| "value_json (PBool b) = JBool b"
| "value_json (PInt i) = JInt i"
| "value_json (PFloat t) = JFloat t"
| "value_json (PDec d) = JStr (dec_str d)"

definition binding_json :: "calculation_execution_binding \<Rightarrow> json" where
  "binding_json b =
     jobj [(''schema_version'', JStr ''1.1''), (''calculation_id'', JStr (eb_calculation_id b)),
           (''spec_checksum'', JStr (eb_spec_checksum b)),
           (''parameters'', JList (map (\<lambda>p. jobj [(''name'', JStr (pb_name p)), (''value'', value_json (pb_value p))])
              (eb_parameters b)))]"

definition binding_checksum :: "(string \<Rightarrow> string) \<Rightarrow> calculation_execution_binding \<Rightarrow> string" where
  "binding_checksum sha256 b = checksum_of sha256 (binding_json b)"

definition output_id_json :: "(string \<Rightarrow> string) \<Rightarrow> calculation_spec \<Rightarrow> calculation_execution_binding \<Rightarrow> json" where
  "output_id_json sha256 spec b =
     jobj [(''spec_checksum'', JStr (spec_checksum sha256 spec)), (''binding_checksum'', JStr (binding_checksum sha256 b))]"

definition derived_output_id ::
  "(string \<Rightarrow> string) \<Rightarrow> calculation_spec \<Rightarrow> calculation_execution_binding \<Rightarrow> string" where
  "derived_output_id sha256 spec b = ''adhoc_'' @ take 32 (checksum_of sha256 (output_id_json sha256 spec b))"

section \<open>Resolution vocabulary\<close>

datatype resolution_outcome = Resolved | ClarificationRequired | NoAuthoritativeDefinition

record semantic_resolution =
  sr_outcome :: resolution_outcome
  sr_unresolved_slots :: "string list"

definition mk_semantic_resolution :: "resolution_outcome \<Rightarrow> string list \<Rightarrow> semantic_resolution result" where
  "mk_semantic_resolution outcome slots =
     validated
       [(length slots > 16, FieldError ''unresolved_slots''),
        (list_ex blank slots, ValueError ''resolution slots must be non-blank''),
        (\<not> distinct slots, ValueError ''resolution slots must be unique''),
        (outcome = Resolved \<and> slots \<noteq> [], ValueError ''resolved outcome must not carry unresolved slots'')]
       \<lparr>sr_outcome = outcome, sr_unresolved_slots = slots\<rparr>"

section \<open>The walkers compute the recursive traversals\<close>

text \<open>
  A traversal with a node budget over any tree given by its successor lists, and the reference
  traversal it must equal.  Both walkers of the source are such traversals: one over expressions,
  one over expressions paired with their level.
\<close>

fun visit :: "('n \<Rightarrow> 'n list) \<Rightarrow> nat \<Rightarrow> 'n list \<Rightarrow> 'n list option" where
  "visit succ budget [] = Some []"
| "visit succ 0 (x # xs) = None"
| "visit succ (Suc budget) (x # xs) = map_option ((#) x) (visit succ budget (succ x @ xs))"

locale bounded_traversal =
  fixes succ :: "'n \<Rightarrow> 'n list"
    and flatten :: "'n \<Rightarrow> 'n list"
  assumes flatten_unfold: "flatten x = x # concat (map flatten (succ x))"
begin

lemma visit_flatten:
  "visit succ budget stack =
     (let ns = concat (map flatten stack) in if length ns \<le> budget then Some ns else None)"
proof (induction budget arbitrary: stack)
  case 0
  show ?case
    by (cases stack) (simp_all add: flatten_unfold[of "hd stack"] Let_def split: list.splits, metis flatten_unfold list.discI)
next
  case (Suc budget)
  show ?case
  proof (cases stack)
    case (Cons x xs)
    have f: "concat (map flatten stack) = x # concat (map flatten (succ x @ xs))"
      using Cons flatten_unfold[of x] by simp
    show ?thesis unfolding f using Cons Suc.IH[of "succ x @ xs"] by (simp add: Let_def)
  qed simp
qed

lemma visit_one: "visit succ budget [x] = (if length (flatten x) \<le> budget then Some (flatten x) else None)"
  by (simp add: visit_flatten Let_def)

end

function preorder :: "expression \<Rightarrow> expression list" where
  "preorder e = e # concat (map preorder (children e))"
  by pat_completeness auto
termination
  by (relation "measure size") (auto dest: children_size)

declare preorder.simps [simp del]

function height :: "expression \<Rightarrow> nat" where
  "height e = Suc (foldr max (map height (children e)) 0)"
  by pat_completeness auto
termination
  by (relation "measure size") (auto dest: children_size)

declare height.simps [simp del]

definition level_succ :: "expression \<times> nat \<Rightarrow> (expression \<times> nat) list" where
  "level_succ = (\<lambda>(e, d). rev (map (\<lambda>c. (c, d + 1)) (children e)))"

function levels :: "expression \<times> nat \<Rightarrow> (expression \<times> nat) list" where
  "levels x = x # concat (map levels (level_succ x))"
  by pat_completeness auto
termination
  by (relation "measure (size \<circ> fst)") (auto simp: level_succ_def dest: children_size)

declare levels.simps [simp del]

interpretation walking: bounded_traversal children preorder
  by unfold_locales (rule preorder.simps)

interpretation levelling: bounded_traversal level_succ levels
  by unfold_locales (rule levels.simps)

lemma walk_loop_visit:
  "length seen \<le> max_expression_nodes \<Longrightarrow>
   walk_loop stack seen =
     (case visit children (max_expression_nodes - length seen) stack of
        None \<Rightarrow> Inl node_count_error | Some ns \<Rightarrow> Inr (seen @ ns))"
proof (induction stack seen rule: walk_loop.induct)
  case (2 node stack seen)
  show ?case
  proof (cases "length seen < max_expression_nodes")
    case True
    then obtain n where "max_expression_nodes - length seen = Suc n"
      using Suc_diff_Suc by metis
    with True 2 show ?thesis
      by (simp add: walk_loop.simps Let_def diff_Suc split: option.splits nat.splits)
  qed (use 2 in \<open>simp add: walk_loop.simps Let_def\<close>)
qed (simp add: walk_loop.simps)

lemma depth_loop_visit:
  "visited \<le> max_expression_nodes \<Longrightarrow>
   depth_loop stack visited best =
     (case visit level_succ (max_expression_nodes - visited) stack of
        None \<Rightarrow> Inl node_count_error | Some ns \<Rightarrow> Inr (foldl (\<lambda>b x. max b (snd x)) best ns))"
proof (induction stack visited best rule: depth_loop.induct)
  case (2 node d stack visited best)
  show ?case
  proof (cases "visited < max_expression_nodes")
    case True
    then obtain n where "max_expression_nodes - visited = Suc n"
      using Suc_diff_Suc by metis
    with True 2 show ?thesis
      by (simp add: depth_loop.simps Let_def level_succ_def diff_Suc split: option.splits nat.splits)
  qed (use 2 in \<open>simp add: depth_loop.simps Let_def\<close>)
qed (simp add: depth_loop.simps)

lemma length_levels: "length (levels (e, d)) = length (preorder e)"
proof (induction e arbitrary: d rule: preorder.induct)
  case (1 e)
  have "(\<Sum>c\<leftarrow>rev (children e). length (levels (c, Suc d))) = (\<Sum>c\<leftarrow>rev (children e). length (preorder c))"
    using 1 by (intro arg_cong[where f = sum_list]) simp
  also have "\<dots> = (\<Sum>c\<leftarrow>children e. length (preorder c))"
    unfolding rev_map[symmetric] by (simp add: sum_list_rev)
  finally show ?case
    by (simp add: levels.simps[of "(e, d)"] preorder.simps[of e] level_succ_def length_concat rev_map comp_def)
qed

lemma foldr_max_start: "foldr max xs (max a (b :: nat)) = max a (foldr max xs b)"
  by (induction xs) (auto simp: max.left_commute)

lemma foldl_max: "foldl (\<lambda>b x. max b (f x)) (b :: nat) xs = foldr max (map f xs) b"
  by (induction xs arbitrary: b) (auto simp: max.left_commute max.commute, metis foldr_max_start max.commute)

lemma foldr_max_zero: "foldr max xs (b :: nat) = max (foldr max xs 0) b"
  by (induction xs) (auto simp: max.assoc)

lemma foldr_max_append: "foldr max (xs @ ys) (0 :: nat) = max (foldr max xs 0) (foldr max ys 0)"
  by (simp add: foldr_max_zero[of xs "foldr max ys 0"])

lemma foldr_max_concat:
  "foldr max (concat xss) (0 :: nat) = foldr max (map (\<lambda>xs. foldr max xs 0) xss) 0"
  by (induction xss) (auto simp: foldr_max_append simp del: foldr_append)

lemma foldr_max_rev: "foldr max (rev xs) (0 :: nat) = foldr max xs 0"
  by (induction xs) (auto simp: foldr_max_append max.commute simp del: foldr_append)

lemma foldr_max_shift: "xs \<noteq> [] \<Longrightarrow> foldr max (map (\<lambda>x. d + x) xs) (0 :: nat) = d + foldr max xs 0"
proof (induction xs)
  case (Cons x xs)
  then show ?case by (cases xs) auto
qed simp

lemma height_pos: "height e \<ge> 1"
  by (simp add: height.simps[of e])

lemma levels_max: "foldr max (map snd (levels (e, d))) 0 = d + height e - 1"
proof (induction e arbitrary: d rule: preorder.induct)
  case (1 e)
  let ?cs = "children e"
  have m: "map (\<lambda>c. foldr max (map snd (levels (c, Suc d))) 0) ?cs = map (\<lambda>x. d + x) (map height ?cs)"
    using 1 by simp
  have m': "map (\<lambda>c. foldr max (map snd (levels (c, Suc d))) 0) ?cs = map (\<lambda>c. d + height c) ?cs"
    unfolding m by simp
  have "foldr max (map snd (levels (e, d))) 0 = max d (foldr max (map (\<lambda>x. d + x) (map height ?cs)) 0)"
    by (simp add: levels.simps[of "(e, d)"] level_succ_def map_concat foldr_max_concat rev_map[symmetric]
        foldr_max_rev comp_def m' del: map_eq_conv)
  also have "\<dots> = d + foldr max (map height ?cs) 0"
    using foldr_max_shift[of "map height ?cs" d] by (cases "?cs = []") simp_all
  finally show ?case by (simp add: height.simps[of e])
qed

lemma walk_eq:
  "walk e = (if length (preorder e) \<le> max_expression_nodes then Inr (preorder e) else Inl node_count_error)"
  by (simp add: walk_def walk_loop_visit walking.visit_one)

lemma expression_depth_eq:
  "expression_depth e =
     (if length (preorder e) \<le> max_expression_nodes then Inr (height e) else Inl node_count_error)"
proof -
  have "foldl (\<lambda>b x. max b (snd x)) 0 (levels (e, 1)) = height e"
    using levels_max[of e 1] height_pos[of e] by (simp add: foldl_max)
  then show ?thesis
    by (simp add: expression_depth_def depth_loop_visit levelling.visit_one length_levels)
qed

text \<open>C13. The iterative walkers agree with the recursive traversals: within the budget of 64 nodes
  \<open>_walk\<close> returns the depth-first pre-order, \<open>expression_node_count\<close> its length and
  \<open>expression_depth\<close> the length of the longest path; past the budget all three raise the same
  node count error.  The loops always return.\<close>

theorem walkers_compute_traversals:
  "walk e = (if length (preorder e) \<le> 64 then Inr (preorder e) else Inl node_count_error) \<and>
   expression_node_count e = (if length (preorder e) \<le> 64 then Inr (length (preorder e)) else Inl node_count_error) \<and>
   expression_depth e = (if length (preorder e) \<le> 64 then Inr (height e) else Inl node_count_error)"
  by (simp add: walk_eq expression_depth_eq expression_node_count_def max_expression_nodes_def)

lemma referenced_input_roles_eq:
  "length (preorder e) \<le> max_expression_nodes \<Longrightarrow>
   referenced_input_roles e = Inr (nub (concat (map role_of (preorder e))))"
  by (simp add: referenced_input_roles_def walk_eq)

lemma referenced_parameter_names_eq:
  "length (preorder e) \<le> max_expression_nodes \<Longrightarrow>
   referenced_parameter_names e = Inr (nub (concat (map parameter_of (preorder e))))"
  by (simp add: referenced_parameter_names_def walk_eq)

section \<open>What a valid specification guarantees\<close>

definition bounded_expression :: "expression \<Rightarrow> bool" where
  "bounded_expression e \<longleftrightarrow> length (preorder e) \<le> max_expression_nodes \<and> height e \<le> max_expression_depth"

lemma validate_semantics_ok:
  assumes "validate_semantics spec = Inr s"
  shows "s = spec" "bounded_expression (cs_expression s)"
    "\<And>n r. n \<in> set (preorder (cs_expression s)) \<Longrightarrow> r \<in> set (role_of n) \<Longrightarrow> r \<in> set (map ci_role (cs_inputs s))"
    "\<And>n q. n \<in> set (preorder (cs_expression s)) \<Longrightarrow> q \<in> set (parameter_of n) \<Longrightarrow> q \<in> set (map ps_name (cs_parameters s))"
proof -
  let ?e = "cs_expression spec"
  have b: "length (preorder ?e) \<le> max_expression_nodes"
    using assms by (simp add: validate_semantics_def expression_depth_eq split: if_splits)
  note facts = assms[unfolded validate_semantics_def expression_depth_eq expression_node_count_def walk_eq
      referenced_input_roles_eq[OF b] referenced_parameter_names_eq[OF b], simplified b]
  show "s = spec" using facts by (simp split: if_splits)
  then show "bounded_expression (cs_expression s)" "\<And>n r. n \<in> set (preorder (cs_expression s)) \<Longrightarrow> r \<in> set (role_of n) \<Longrightarrow> r \<in> set (map ci_role (cs_inputs s))"
    "\<And>n q. n \<in> set (preorder (cs_expression s)) \<Longrightarrow> q \<in> set (parameter_of n) \<Longrightarrow> q \<in> set (map ps_name (cs_parameters s))"
    using facts b by (auto simp: bounded_expression_def split: if_splits)
qed

lemma mk_calculation_spec_ok:
  assumes "mk_calculation_spec keys spec = Inr s"
  shows "validate_semantics spec = Inr s" "expr_ok (cs_expression spec)"
    "\<not> list_ex (\<lambda>k. k \<in> set forbidden_authority_fields) keys"
    "distinct (map ci_role (cs_inputs spec))" "distinct (map ps_name (cs_parameters spec))"
    "\<And>p. cs_precision spec = Some p \<Longrightarrow> p \<le> 12"
  using assms unfolding mk_calculation_spec_def
  by (auto split: sum.splits simp del: list_ex_iff)

section \<open>Content identity\<close>

text \<open>The discriminator and the members of a dumped node.\<close>

fun op_text :: "expression \<Rightarrow> string" where
  "op_text (LiteralOperand _) = ''literal''"
| "op_text NullLiteralOperand = ''null''"
| "op_text (InputRefOperand _) = ''input''"
| "op_text (ParameterRefOperand _) = ''parameter''"
| "op_text (AggregateOperand _ _) = ''aggregate''"
| "op_text (BinaryOperand op _ _) = binary_text op"
| "op_text (CompareOperand _ _ _) = ''compare''"
| "op_text (NullTestOperand _ _) = ''null_test''"
| "op_text (CoalesceOperand _ _) = ''coalesce''"
| "op_text (RoundOperand _ _) = ''round''"
| "op_text (AllOperand _) = ''all''"
| "op_text (AnyOperand _) = ''any''"
| "op_text (CaseOperand _ _) = ''case''"

lemma expression_json_op: "member (expression_json e) ''op'' = Some (JStr (op_text e))"
  by (cases e) (simp_all add: member_jobj)

lemma text_injects:
  "binary_text b = binary_text b' \<Longrightarrow> b = b'" "aggregate_text g = aggregate_text g' \<Longrightarrow> g = g'"
  "comparison_text c = comparison_text c' \<Longrightarrow> c = c'" "null_test_text n = null_test_text n' \<Longrightarrow> n = n'"
  "unit_text u = unit_text u' \<Longrightarrow> u = u'" "rounding_text r = rounding_text r' \<Longrightarrow> r = r'"
  "value_type_text t = value_type_text t' \<Longrightarrow> t = t'" "provenance_text p = provenance_text p' \<Longrightarrow> p = p'"
proof -
  show "binary_text b = binary_text b' \<Longrightarrow> b = b'" by (cases b; cases b') simp_all
  show "aggregate_text g = aggregate_text g' \<Longrightarrow> g = g'" by (cases g; cases g') simp_all
  show "comparison_text c = comparison_text c' \<Longrightarrow> c = c'" by (cases c; cases c') simp_all
  show "null_test_text n = null_test_text n' \<Longrightarrow> n = n'" by (cases n; cases n') simp_all
  show "unit_text u = unit_text u' \<Longrightarrow> u = u'" by (cases u; cases u') simp_all
  show "rounding_text r = rounding_text r' \<Longrightarrow> r = r'" by (cases r; cases r') simp_all
  show "value_type_text t = value_type_text t' \<Longrightarrow> t = t'" by (cases t; cases t') simp_all
  show "provenance_text p = provenance_text p' \<Longrightarrow> p = p'" by (cases p; cases p') simp_all
qed

text \<open>All decimal literals within the range the decimal constructor accepts, which every value of
  the C implementation is.\<close>

fun literals_in_range :: "expression \<Rightarrow> bool" where
  "literals_in_range (LiteralOperand v) = dec_in_range v"
| "literals_in_range (BinaryOperand _ a b) = (literals_in_range a \<and> literals_in_range b)"
| "literals_in_range (CompareOperand _ a b) = (literals_in_range a \<and> literals_in_range b)"
| "literals_in_range (NullTestOperand _ a) = literals_in_range a"
| "literals_in_range (CoalesceOperand a v) = (literals_in_range a \<and> dec_in_range v)"
| "literals_in_range (RoundOperand a _) = literals_in_range a"
| "literals_in_range (AllOperand cs) = list_all literals_in_range cs"
| "literals_in_range (AnyOperand cs) = list_all literals_in_range cs"
| "literals_in_range (CaseOperand ws els) =
     (list_all (\<lambda>(c, t). literals_in_range c \<and> literals_in_range t) ws \<and>
      (case els of None \<Rightarrow> True | Some e \<Rightarrow> literals_in_range e))"
| "literals_in_range _ = True"

lemma op_text_not_binary:
  "binary_text op \<notin> {''literal'', ''null'', ''input'', ''parameter'', ''aggregate'', ''compare'', ''null_test'',
     ''coalesce'', ''round'', ''all'', ''any'', ''case''}"
  by (cases op) auto

lemma same_member:
  assumes "expression_json e = expression_json e'"
  shows "op_text e = op_text e'" "member (expression_json e) k = member (expression_json e') k"
  using assms expression_json_op[of e] expression_json_op[of e'] by auto

lemma map_inject_on:
  "map f xs = map f ys \<Longrightarrow> (\<And>x y. x \<in> set xs \<Longrightarrow> y \<in> set ys \<Longrightarrow> f x = f y \<Longrightarrow> x = y) \<Longrightarrow> xs = ys"
proof (induction xs arbitrary: ys)
  case (Cons x xs)
  then show ?case by (cases ys) auto
qed simp

definition when_json :: "expression \<times> expression \<Rightarrow> json" where
  "when_json w = jobj [(''condition'', expression_json (fst w)), (''then'', expression_json (snd w))]"

lemma when_json_inject:
  assumes "when_json w = when_json w'"
  shows "expression_json (fst w) = expression_json (fst w') \<and> expression_json (snd w) = expression_json (snd w')"
proof -
  have "member (when_json w) k = member (when_json w') k" for k using assms by simp
  from this[of "''condition''"] this[of "''then''"] show ?thesis by (simp add: when_json_def member_jobj)
qed

lemma expression_json_Case:
  "expression_json (CaseOperand ws els) =
     jobj [(''op'', JStr ''case''), (''whens'', JList (map when_json ws)),
           (''otherwise'', case els of None \<Rightarrow> JNull | Some e \<Rightarrow> expression_json e)]"
proof -
  have "(\<lambda>(c, t). jobj [(''condition'', expression_json c), (''then'', expression_json t)]) = when_json"
    by (auto simp: when_json_def)
  then show ?thesis by simp
qed

lemma expression_json_not_null: "expression_json e \<noteq> JNull"
  by (cases e) (simp_all add: jobj_def)

lemma expression_json_inject:
  "literals_in_range e \<Longrightarrow> literals_in_range e' \<Longrightarrow> expression_json e = expression_json e' \<Longrightarrow> e = e'"
proof (induction e arbitrary: e')
  case (LiteralOperand v)
  note m = same_member[OF LiteralOperand.prems(3)]
  obtain w where "e' = LiteralOperand w" using m(1) op_text_not_binary by (cases e') auto
  with m(2)[of "''value''"] LiteralOperand.prems dec_str_inject show ?case by (simp add: member_jobj)
next
  case NullLiteralOperand
  then show ?case using same_member(1)[of NullLiteralOperand e'] op_text_not_binary by (cases e') auto
next
  case (InputRefOperand r)
  note m = same_member[OF InputRefOperand.prems(3)]
  obtain r' where "e' = InputRefOperand r'" using m(1) op_text_not_binary by (cases e') auto
  with m(2)[of "''role''"] show ?case by (simp add: member_jobj)
next
  case (ParameterRefOperand n)
  note m = same_member[OF ParameterRefOperand.prems(3)]
  obtain n' where "e' = ParameterRefOperand n'" using m(1) op_text_not_binary by (cases e') auto
  with m(2)[of "''name''"] show ?case by (simp add: member_jobj)
next
  case (AggregateOperand f r)
  note m = same_member[OF AggregateOperand.prems(3)]
  obtain f' r' where "e' = AggregateOperand f' r'" using m(1) op_text_not_binary by (cases e') auto
  with m(2)[of "''role''"] m(2)[of "''function''"] text_injects(2) show ?case by (simp add: member_jobj)
next
  case (BinaryOperand op a b)
  note m = same_member[OF BinaryOperand.prems(3)]
  obtain op' a' b' where e': "e' = BinaryOperand op' a' b'"
    using m(1) op_text_not_binary[of op] by (cases e') auto
  with m(1) m(2)[of "''left''"] m(2)[of "''right''"] BinaryOperand text_injects(1) show ?case
    by (simp add: member_jobj)
next
  case (CompareOperand op a b)
  note m = same_member[OF CompareOperand.prems(3)]
  obtain op' a' b' where "e' = CompareOperand op' a' b'" using m(1) op_text_not_binary by (cases e') auto
  with m(2)[of "''operator''"] m(2)[of "''left''"] m(2)[of "''right''"] CompareOperand text_injects(3)
  show ?case by (simp add: member_jobj)
next
  case (NullTestOperand op a)
  note m = same_member[OF NullTestOperand.prems(3)]
  obtain op' a' where "e' = NullTestOperand op' a'" using m(1) op_text_not_binary by (cases e') auto
  with m(2)[of "''operator''"] m(2)[of "''operand''"] NullTestOperand text_injects(4)
  show ?case by (simp add: member_jobj)
next
  case (CoalesceOperand a v)
  note m = same_member[OF CoalesceOperand.prems(3)]
  obtain a' v' where e': "e' = CoalesceOperand a' v'" using m(1) op_text_not_binary by (cases e') auto
  have "dec_str v = dec_str v'"
    using m(2)[of "''default''"] member_eqI[of "[(''op'', JStr ''literal''), (''value'', JStr (dec_str v))]"
        "[(''op'', JStr ''literal''), (''value'', JStr (dec_str v'))]" "''value''"]
    by (simp add: e' member_jobj)
  with e' m(2)[of "''operand''"] CoalesceOperand dec_str_inject show ?case by (simp add: member_jobj)
next
  case (RoundOperand a n)
  note m = same_member[OF RoundOperand.prems(3)]
  obtain a' n' where "e' = RoundOperand a' n'" using m(1) op_text_not_binary by (cases e') auto
  with m(2)[of "''digits''"] m(2)[of "''operand''"] RoundOperand show ?case by (simp add: member_jobj)
next
  case (AllOperand cs)
  note m = same_member[OF AllOperand.prems(3)]
  obtain cs' where e': "e' = AllOperand cs'" using m(1) op_text_not_binary by (cases e') auto
  have "map expression_json cs = map expression_json cs'" using m(2)[of "''conditions''"] e' by (simp add: member_jobj)
  then have "cs = cs'" by (rule map_inject_on) (use AllOperand e' in \<open>auto simp: list_all_iff\<close>)
  with e' show ?case by simp
next
  case (AnyOperand cs)
  note m = same_member[OF AnyOperand.prems(3)]
  obtain cs' where e': "e' = AnyOperand cs'" using m(1) op_text_not_binary by (cases e') auto
  have "map expression_json cs = map expression_json cs'" using m(2)[of "''conditions''"] e' by (simp add: member_jobj)
  then have "cs = cs'" by (rule map_inject_on) (use AnyOperand e' in \<open>auto simp: list_all_iff\<close>)
  with e' show ?case by simp
next
  case (CaseOperand ws els)
  note m = same_member[OF CaseOperand.prems(3)]
  obtain ws' els' where e': "e' = CaseOperand ws' els'" using m(1) op_text_not_binary by (cases e') auto
  have w: "map when_json ws = map when_json ws'"
    and o: "(case els of None \<Rightarrow> JNull | Some e \<Rightarrow> expression_json e) = (case els' of None \<Rightarrow> JNull | Some e \<Rightarrow> expression_json e)"
    using m(2)[of "''whens''"] m(2)[of "''otherwise''"] e' unfolding e' expression_json_Case
    by (simp_all add: member_jobj)
  from w have "ws = ws'"
  proof (rule map_inject_on)
    fix x y assume x: "x \<in> set ws" and y: "y \<in> set ws'" and eq: "when_json x = when_json y"
    have "literals_in_range (fst x)" "literals_in_range (snd x)" "literals_in_range (fst y)" "literals_in_range (snd y)"
      using CaseOperand.prems(1,2) x y unfolding e' by (auto simp: list_all_iff)
    with when_json_inject[OF eq] CaseOperand.IH(1)[of x "fst x" "fst y"] CaseOperand.IH(2)[of x "snd x" "snd y"] x
    show "x = y" by (cases x; cases y) (auto simp: Basic_BNFs.fsts.simps Basic_BNFs.snds.simps)
  qed
  moreover have "els = els'"
    using o CaseOperand.prems(1,2) CaseOperand.IH(3) e' expression_json_not_null
    by (cases els; cases els') (auto, metis expression_json_not_null)+
  ultimately show ?case using e' by simp
qed

lemma json_ok_expression: "json_ok (expression_json e)"
proof (induction e)
  case (CaseOperand ws els)
  then show ?case unfolding expression_json_Case
    by (auto simp: list_all_iff when_json_def Basic_BNFs.fsts.simps Basic_BNFs.snds.simps split: option.splits)
qed (simp_all add: list_all_iff)

lemma member_cong: "j = j' \<Longrightarrow> member j k = member j' k"
  by simp

lemma jopt_JStr_inject: "jopt JStr v = jopt JStr w \<Longrightarrow> v = w"
  by (rule jopt_inject) (auto simp: inj_def)

lemma input_spec_json_inject: "input_spec_json i = input_spec_json j \<Longrightarrow> (i :: calculation_input_spec) = j"
proof -
  assume "input_spec_json i = input_spec_json j"
  note m = member_cong[OF this, unfolded input_spec_json_def]
  show ?thesis
    using m[of "''role''"] m[of "''provenance''"] m[of "''metric_key''"] m[of "''required''"]
      text_injects(8) jopt_JStr_inject by (simp add: member_jobj)
qed

lemma parameter_spec_json_inject: "parameter_spec_json i = parameter_spec_json j \<Longrightarrow> (i :: parameter_spec) = j"
proof -
  assume "parameter_spec_json i = parameter_spec_json j"
  note m = member_cong[OF this, unfolded parameter_spec_json_def]
  have "map JStr (ps_allowed_values i) = map JStr (ps_allowed_values j)"
    using m[of "''allowed_values''"] by (simp add: member_jobj)
  then have "ps_allowed_values i = ps_allowed_values j" by (rule map_inject_on) simp
  then show ?thesis
    using m[of "''name''"] m[of "''value_type''"] m[of "''required''"] m[of "''description''"]
      text_injects(7) jopt_JStr_inject by (simp add: member_jobj)
qed

lemma spec_json_inject:
  fixes s t :: calculation_spec
  assumes "spec_json s = spec_json t" "literals_in_range (cs_expression s)" "literals_in_range (cs_expression t)"
  shows "s = t"
proof -
  note m = member_cong[OF assms(1), unfolded spec_json_def]
  have "map input_spec_json (cs_inputs s) = map input_spec_json (cs_inputs t)"
    using m[of "''inputs''"] by (simp add: member_jobj)
  then have "cs_inputs s = cs_inputs t"
    by (rule map_inject_on) (rule input_spec_json_inject)
  moreover have "map parameter_spec_json (cs_parameters s) = map parameter_spec_json (cs_parameters t)"
    using m[of "''parameters''"] by (simp add: member_jobj)
  then have "cs_parameters s = cs_parameters t"
    by (rule map_inject_on) (rule parameter_spec_json_inject)
  moreover have "cs_precision s = cs_precision t"
    by (rule jopt_inject[where f = "\<lambda>n. JInt (int n)"])
      (use m[of "''precision''"] in \<open>auto simp: inj_def member_jobj\<close>)
  moreover have "cs_rounding s = cs_rounding t"
    by (rule jopt_inject[where f = "\<lambda>r. JStr (rounding_text r)"])
      (use m[of "''rounding''"] text_injects(6) in \<open>auto simp: inj_def member_jobj\<close>)
  moreover have "cs_expression s = cs_expression t"
    by (rule expression_json_inject[OF assms(2,3)]) (use m[of "''expression''"] in \<open>simp add: member_jobj\<close>)
  ultimately show ?thesis
    using m[of "''calculation_id''"] m[of "''unit''"] m[of "''custom_unit_id''"] text_injects(5) jopt_JStr_inject
    by (simp add: member_jobj)
qed

text \<open>The dump of a value forgets whether a text was a string or a decimal, and nothing else.\<close>

definition binding_content :: "calculation_execution_binding \<Rightarrow> string \<times> string \<times> (string \<times> json) list" where
  "binding_content b = (eb_calculation_id b, eb_spec_checksum b,
     map (\<lambda>p. (pb_name p, value_json (pb_value p))) (eb_parameters b))"

definition binding_values_ok :: "calculation_execution_binding \<Rightarrow> bool" where
  "binding_values_ok b \<longleftrightarrow> list_all (\<lambda>p. json_ok (value_json (pb_value p))) (eb_parameters b)"

definition bound_json :: "parameter_binding \<Rightarrow> json" where
  "bound_json p = jobj [(''name'', JStr (pb_name p)), (''value'', value_json (pb_value p))]"

lemma bound_json_content:
  "map bound_json ps = map bound_json qs \<Longrightarrow>
   map (\<lambda>p. (pb_name p, value_json (pb_value p))) ps = map (\<lambda>p. (pb_name p, value_json (pb_value p))) qs"
proof (induction ps arbitrary: qs)
  case (Cons p ps)
  then obtain q rs where q: "qs = q # rs" "bound_json p = bound_json q" "map bound_json ps = map bound_json rs"
    by (cases qs) auto
  note m = member_cong[OF q(2), unfolded bound_json_def]
  show ?case using q Cons.IH m[of "''name''"] m[of "''value''"] by (simp add: member_jobj)
qed simp

lemma binding_json_bound:
  "binding_json b =
     jobj [(''schema_version'', JStr ''1.1''), (''calculation_id'', JStr (eb_calculation_id b)),
           (''spec_checksum'', JStr (eb_spec_checksum b)), (''parameters'', JList (map bound_json (eb_parameters b)))]"
proof -
  have "(\<lambda>p. jobj [(''name'', JStr (pb_name p)), (''value'', value_json (pb_value p))]) = bound_json"
    by (auto simp: bound_json_def)
  then show ?thesis by (simp add: binding_json_def)
qed

lemma binding_json_content: "binding_json b = binding_json c \<Longrightarrow> binding_content b = binding_content c"
proof -
  assume "binding_json b = binding_json c"
  note m = member_cong[OF this, unfolded binding_json_bound]
  have "map bound_json (eb_parameters b) = map bound_json (eb_parameters c)"
    using m[of "''parameters''"] by (simp add: member_jobj)
  then show ?thesis
    using bound_json_content[of "eb_parameters b" "eb_parameters c"] m[of "''calculation_id''"] m[of "''spec_checksum''"]
    by (simp add: member_jobj binding_content_def del: map_eq_conv)
qed

lemma json_ok_spec: "json_ok (spec_json s)"
  by (auto simp: spec_json_def input_spec_json_def parameter_spec_json_def json_ok_expression list_all_iff
      intro!: json_ok_jopt)

lemma json_ok_binding: "binding_values_ok b \<Longrightarrow> json_ok (binding_json b)"
  by (auto simp: binding_json_bound bound_json_def binding_values_ok_def list_all_iff)

definition identity_texts ::
  "(string \<Rightarrow> string) \<Rightarrow> calculation_spec \<Rightarrow> calculation_execution_binding \<Rightarrow> string set" where
  "identity_texts sha256 s b =
     {json_text (spec_json s), json_text (binding_json b), json_text (output_id_json sha256 s b)}"

lemma no_collisionD:
  "no_collision h n T \<Longrightarrow> t \<in> T \<Longrightarrow> u \<in> T \<Longrightarrow> take n (h t) = take n (h u) \<Longrightarrow> t = u"
  by (auto simp: no_collision_def inj_on_def)

text \<open>C14. Equal derived output ids mean equal content: if the first 32 characters of the hash tell
  apart the six texts involved, two calculations whose ids agree have the same specification and
  bindings that agree in calculation id, specification checksum, parameter names and the JSON form
  of every value.  Conversely content alone determines the id.\<close>

theorem derived_output_id_identifies_content:
  assumes id: "derived_output_id h s b = derived_output_id h t c"
    and h: "no_collision h 32 (identity_texts h s b \<union> identity_texts h t c)"
    and lits: "literals_in_range (cs_expression s)" "literals_in_range (cs_expression t)"
    and vals: "binding_values_ok b" "binding_values_ok c"
  shows "s = t \<and> binding_content b = binding_content c"
proof -
  have "json_text (output_id_json h s b) = json_text (output_id_json h t c)"
    by (rule no_collisionD[OF h]) (use id in \<open>simp_all add: identity_texts_def derived_output_id_def checksum_of_def\<close>)
  then have "output_id_json h s b = output_id_json h t c"
    by (rule json_text_inject[rotated 2]) (simp_all add: output_id_json_def)
  note m = member_cong[OF this, unfolded output_id_json_def]
  have "json_text (spec_json s) = json_text (spec_json t)"
    by (rule no_collisionD[OF h])
      (use m[of "''spec_checksum''"] in \<open>simp_all add: identity_texts_def spec_checksum_def checksum_of_def member_jobj\<close>)
  then have "spec_json s = spec_json t" by (intro json_text_inject json_ok_spec)
  moreover have "json_text (binding_json b) = json_text (binding_json c)"
    by (rule no_collisionD[OF h])
      (use m[of "''binding_checksum''"] in \<open>simp_all add: identity_texts_def binding_checksum_def checksum_of_def member_jobj\<close>)
  then have "binding_json b = binding_json c" by (intro json_text_inject json_ok_binding vals)
  ultimately show ?thesis using spec_json_inject[OF _ lits] binding_json_content by blast
qed

definition sample_spec :: calculation_spec where
  "sample_spec = \<lparr>cs_calculation_id = ''rate'',
     cs_expression = BinaryOperand Divide (InputRefOperand ''won'') (InputRefOperand ''all''),
     cs_inputs = [\<lparr>ci_role = ''won'', ci_provenance = AdHocMetric, ci_metric_key = None, ci_required = True\<rparr>,
                  \<lparr>ci_role = ''all'', ci_provenance = AdHocMetric, ci_metric_key = None, ci_required = True\<rparr>],
     cs_parameters = [\<lparr>ps_name = ''day'', ps_value_type = TDate, ps_required = True, ps_allowed_values = [],
                       ps_description = None\<rparr>],
     cs_unit = Ratio, cs_custom_unit_id = None, cs_precision = Some 2, cs_rounding = None\<rparr>"

definition sample_binding :: "string \<Rightarrow> calculation_execution_binding" where
  "sample_binding day = \<lparr>eb_calculation_id = ''rate'', eb_spec_checksum = replicate 64 CHR ''a'',
     eb_parameters = [\<lparr>pb_name = ''day'', pb_value = PStr day\<rparr>]\<rparr>"

text \<open>A hash that tells apart the texts of the sample specification under two bindings.\<close>

definition sample_hash :: "string \<Rightarrow> string" where
  "sample_hash t =
     (if t = json_text (spec_json sample_spec) then ''s''
      else if t = json_text (binding_json (sample_binding ''2024-02-29'')) then ''b''
      else if t = json_text (binding_json (sample_binding ''2024-03-01'')) then ''c''
      else if t = json_text (jobj [(''spec_checksum'', JStr ''s''), (''binding_checksum'', JStr ''b'')]) then ''o''
      else ''p'')"

lemma sample_json_ok:
  "json_ok (spec_json sample_spec)" "json_ok (binding_json (sample_binding d))"
  "json_ok (jobj [(''spec_checksum'', JStr x), (''binding_checksum'', JStr y)])"
  by (simp_all add: json_ok_spec json_ok_binding binding_values_ok_def sample_binding_def)

lemma sample_members:
  "member (spec_json sample_spec) ''unit'' = Some (JStr ''ratio'')"
  "member (binding_json (sample_binding d)) ''unit'' = None"
  "member (binding_json (sample_binding d)) ''parameters'' = Some (JList [jobj [(''name'', JStr ''day''), (''value'', JStr d)]])"
  "member (jobj [(''spec_checksum'', JStr x), (''binding_checksum'', JStr y)]) ''unit'' = None"
  "member (jobj [(''spec_checksum'', JStr x), (''binding_checksum'', JStr y)]) ''parameters'' = None"
  "member (jobj [(''spec_checksum'', JStr x), (''binding_checksum'', JStr y)]) ''binding_checksum'' = Some (JStr y)"
  by (simp_all add: spec_json_def sample_spec_def binding_json_def sample_binding_def member_jobj)

lemma text_differs: "json_ok j \<Longrightarrow> json_ok j' \<Longrightarrow> member j k \<noteq> member j' k \<Longrightarrow> json_text j \<noteq> json_text j'"
  using json_text_inject by blast

lemma sample_texts_differ:
  "json_text (binding_json (sample_binding d)) \<noteq> json_text (spec_json sample_spec)"
  "json_text (jobj [(''spec_checksum'', JStr x), (''binding_checksum'', JStr y)]) \<noteq> json_text (spec_json sample_spec)"
  "json_text (jobj [(''spec_checksum'', JStr x), (''binding_checksum'', JStr y)]) \<noteq> json_text (binding_json (sample_binding d))"
  "y \<noteq> y' \<Longrightarrow> json_text (jobj [(''spec_checksum'', JStr x), (''binding_checksum'', JStr y)]) \<noteq>
     json_text (jobj [(''spec_checksum'', JStr x), (''binding_checksum'', JStr y')])"
  "d \<noteq> d' \<Longrightarrow> json_text (binding_json (sample_binding d)) \<noteq> json_text (binding_json (sample_binding d'))"
proof -
  show "json_text (binding_json (sample_binding d)) \<noteq> json_text (spec_json sample_spec)"
    by (rule text_differs[where k = "''unit''"]) (simp_all only: sample_json_ok sample_members, simp)
  show "json_text (jobj [(''spec_checksum'', JStr x), (''binding_checksum'', JStr y)]) \<noteq> json_text (spec_json sample_spec)"
    by (rule text_differs[where k = "''unit''"]) (simp_all only: sample_json_ok sample_members, simp)
  show "json_text (jobj [(''spec_checksum'', JStr x), (''binding_checksum'', JStr y)]) \<noteq> json_text (binding_json (sample_binding d))"
    by (rule text_differs[where k = "''parameters''"]) (simp_all only: sample_json_ok sample_members, simp)
  show "y \<noteq> y' \<Longrightarrow> json_text (jobj [(''spec_checksum'', JStr x), (''binding_checksum'', JStr y)]) \<noteq>
     json_text (jobj [(''spec_checksum'', JStr x), (''binding_checksum'', JStr y')])"
    by (rule text_differs[where k = "''binding_checksum''"]) (simp_all only: sample_json_ok sample_members, simp)
  show "d \<noteq> d' \<Longrightarrow> json_text (binding_json (sample_binding d)) \<noteq> json_text (binding_json (sample_binding d'))"
    by (rule text_differs[where k = "''parameters''"])
      (simp_all only: sample_json_ok sample_members,
       auto dest: member_eqI[where k = "''value''"] simp: jobj_def[symmetric])
qed

lemma sample_hash_values:
  "sample_hash (json_text (spec_json sample_spec)) = ''s''"
  "sample_hash (json_text (binding_json (sample_binding ''2024-02-29''))) = ''b''"
  "sample_hash (json_text (binding_json (sample_binding ''2024-03-01''))) = ''c''"
  "sample_hash (json_text (output_id_json sample_hash sample_spec (sample_binding ''2024-02-29''))) = ''o''"
  "sample_hash (json_text (output_id_json sample_hash sample_spec (sample_binding ''2024-03-01''))) = ''p''"
proof -
  show 1: "sample_hash (json_text (spec_json sample_spec)) = ''s''"
    and 2: "sample_hash (json_text (binding_json (sample_binding ''2024-02-29''))) = ''b''"
    and 3: "sample_hash (json_text (binding_json (sample_binding ''2024-03-01''))) = ''c''"
    using sample_texts_differ(1) sample_texts_differ(5)[of "''2024-03-01''" "''2024-02-29''"] by (simp_all add: sample_hash_def)
  have o: "output_id_json sample_hash sample_spec (sample_binding ''2024-02-29'') =
      jobj [(''spec_checksum'', JStr ''s''), (''binding_checksum'', JStr ''b'')]"
    "output_id_json sample_hash sample_spec (sample_binding ''2024-03-01'') =
      jobj [(''spec_checksum'', JStr ''s''), (''binding_checksum'', JStr ''c'')]"
    by (simp_all add: output_id_json_def spec_checksum_def binding_checksum_def checksum_of_def 1 2 3)
  show "sample_hash (json_text (output_id_json sample_hash sample_spec (sample_binding ''2024-02-29''))) = ''o''"
    unfolding o using sample_texts_differ(2,3) by (simp add: sample_hash_def)
  show "sample_hash (json_text (output_id_json sample_hash sample_spec (sample_binding ''2024-03-01''))) = ''p''"
    unfolding o using sample_texts_differ(2,3,4) by (simp add: sample_hash_def)
qed

lemma inj_on_five:
  "distinct [f a, f b, f c, f d, f e] \<Longrightarrow> inj_on f ({a, b, c} \<union> {a, d, e})"
  by (auto simp: inj_on_def)

theorem derived_output_id_identifies_content_witness:
  "derived_output_id sample_hash sample_spec (sample_binding ''2024-02-29'') \<noteq>
   derived_output_id sample_hash sample_spec (sample_binding ''2024-03-01'')"
proof
  let ?b = "sample_binding ''2024-02-29''" and ?c = "sample_binding ''2024-03-01''"
  assume id: "derived_output_id sample_hash sample_spec ?b = derived_output_id sample_hash sample_spec ?c"
  have "no_collision sample_hash 32 (identity_texts sample_hash sample_spec ?b \<union> identity_texts sample_hash sample_spec ?c)"
    unfolding no_collision_def identity_texts_def
    by (rule inj_on_five) (simp add: sample_hash_values)
  from derived_output_id_identifies_content[OF id this] show False
    by (simp add: sample_spec_def sample_binding_def binding_values_ok_def binding_content_def)
qed

section \<open>Contract-valid bindings\<close>

definition value_conforms :: "parameter_spec \<Rightarrow> parameter_value \<Rightarrow> bool" where
  "value_conforms p v \<longleftrightarrow> value_matches_type v (ps_value_type p) \<and>
     (ps_allowed_values p \<noteq> [] \<longrightarrow> value_str v \<in> set (ps_allowed_values p))"

lemma parameter_failures_Nil:
  "parameter_failures b p = [] \<longleftrightarrow>
     (case bound_value b (ps_name p) of None \<Rightarrow> \<not> ps_required p | Some v \<Rightarrow> value_conforms p v)"
  by (auto simp: parameter_failures_def value_conforms_def split: option.splits)

text \<open>A binding is free of failures exactly when it names the calculation and the checksum of the
  specification, binds only declared parameters, binds every required one, and every bound value has
  the declared type and, where values are enumerated, one of them.  Failures are reported once each.\<close>

theorem binding_failures_characterised:
  "(binding_failures h b spec = [] \<longleftrightarrow>
      cs_calculation_id spec = eb_calculation_id b \<and> spec_checksum h spec = eb_spec_checksum b \<and>
      set (map pb_name (eb_parameters b)) \<subseteq> set (map ps_name (cs_parameters spec)) \<and>
      list_all (\<lambda>p. case bound_value b (ps_name p) of None \<Rightarrow> \<not> ps_required p | Some v \<Rightarrow> value_conforms p v)
        (cs_parameters spec)) \<and>
   distinct (binding_failures h b spec)"
  by (auto simp: binding_failures_def parameter_failures_Nil list_all_iff split: if_splits)

text \<open>A hash for sample runs: the same digest for every text.\<close>

definition zero_hash :: "string \<Rightarrow> string" where
  "zero_hash t = replicate 64 CHR ''0''"

lemma zero_hash_hex: "is_hex64 (zero_hash t)"
  by (simp add: zero_hash_def is_hex64_def is_hex_def is_digit_def list_all_length)

end
