(* ===== verification/Calculation_Runtime.thy ===== *)
theory Calculation_Runtime
  imports Calculation_Contract
begin

text \<open>
  The calculation evaluator (\<open>semantic/calculation_runtime.py\<close>).  \<open>_evaluate\<close> either returns a
  decimal, raises the internal \<open>_NullOperand\<close> marker, raises a \<open>CalculationRuntimeError\<close> with a stable
  code, or lets a decimal trap escape to the entry point: the four constructors of \<open>outcome\<close>.
\<close>

section \<open>Values and outcomes\<close>

text \<open>The Python objects an input or parameter may be: \<open>None\<close> is \<^const>\<open>None\<close> of an option; a value of
  any other class, which no branch of the coercion accepts, is \<open>VOther\<close>.  A binary float is one.\<close>

datatype scalar =
    VBool bool
  | VDec decimal
  | VNonFinite
  | VInt int
  | VStr string
  | VOther

datatype 'a outcome =
    Value 'a
  | NullOperand
  | RuntimeErr string
  | Trap dec_signal

fun obind :: "'a outcome \<Rightarrow> ('a \<Rightarrow> 'b outcome) \<Rightarrow> 'b outcome" where
  "obind (Value v) f = f v"
| "obind NullOperand f = NullOperand"
| "obind (RuntimeErr c) f = RuntimeErr c"
| "obind (Trap s) f = Trap s"

fun of_signal :: "dec_signal + 'a \<Rightarrow> 'a outcome" where
  "of_signal (Inl s) = Trap s"
| "of_signal (Inr v) = Value v"

fun coerce_numeric :: "string \<Rightarrow> scalar \<Rightarrow> decimal outcome" where
  "coerce_numeric code (VBool _) = RuntimeErr code"
| "coerce_numeric code (VDec d) = Value d"
| "coerce_numeric code VNonFinite = RuntimeErr code"
| "coerce_numeric code (VInt i) = Value (dec_of_int i)"
| "coerce_numeric code (VStr s) =
     (let text = strip s in
      if text = [] then RuntimeErr code
      else case parse_dec text of None \<Rightarrow> RuntimeErr code | Some d \<Rightarrow> Value d)"
| "coerce_numeric code VOther = RuntimeErr code"

fun decimal_error_code :: "dec_signal \<Rightarrow> string" where
  "decimal_error_code DivisionByZero = ''calculation_undefined_division_by_zero''"
| "decimal_error_code InvalidOperation = ''calculation_undefined''"
| "decimal_error_code Overflow = ''calculation_numeric_out_of_range''"

text \<open>\<open>_require_bounded\<close>: \<^const>\<open>None\<close> when it returns, else the code it raises.\<close>

definition require_bounded :: "expression \<Rightarrow> string option" where
  "require_bounded e =
     (case expression_depth e of
        Inl _ \<Rightarrow> Some ''calculation_expression_too_large''
      | Inr d \<Rightarrow>
          if d > max_expression_depth then Some ''calculation_expression_too_deep''
          else case expression_node_count e of
                 Inl _ \<Rightarrow> Some ''calculation_expression_too_large''
               | Inr n \<Rightarrow> if n > max_expression_nodes then Some ''calculation_expression_too_large'' else None)"

definition apply_precision :: "decimal \<Rightarrow> nat \<Rightarrow> round_mode \<Rightarrow> decimal outcome" where
  "apply_precision v p r = of_signal (quantize r v p)"

section \<open>Conditions and expressions\<close>

datatype condition_state = CTrue | CFalse | CUnknown

definition of_bool :: "bool \<Rightarrow> condition_state" where
  "of_bool b = (if b then CTrue else CFalse)"

fun all_states :: "condition_state list \<Rightarrow> condition_state" where
  "all_states ss = (if CFalse \<in> set ss then CFalse else if CUnknown \<in> set ss then CUnknown else CTrue)"

fun any_states :: "condition_state list \<Rightarrow> condition_state" where
  "any_states ss = (if CTrue \<in> set ss then CTrue else if CUnknown \<in> set ss then CUnknown else CFalse)"

declare all_states.simps [simp del] any_states.simps [simp del]

text \<open>The arithmetic node on two evaluated operands.\<close>

fun apply_binary :: "binary_operator \<Rightarrow> decimal \<Rightarrow> decimal \<Rightarrow> decimal outcome" where
  "apply_binary Add a b = of_signal (dec_add a b)"
| "apply_binary Subtract a b = of_signal (dec_sub a b)"
| "apply_binary Multiply a b = of_signal (dec_mul a b)"
| "apply_binary Divide a b =
     (if coeff b = 0 then RuntimeErr ''calculation_undefined_division_by_zero'' else of_signal (dec_div a b))"

definition reference_value :: "string \<Rightarrow> string \<Rightarrow> (string, scalar option) dict \<Rightarrow> string \<Rightarrow> decimal outcome" where
  "reference_value missing not_numeric env k =
     (case dget env k of
        None \<Rightarrow> RuntimeErr missing
      | Some None \<Rightarrow> NullOperand
      | Some (Some v) \<Rightarrow> coerce_numeric not_numeric v)"

fun is_condition :: "expression \<Rightarrow> bool" where
  "is_condition (NullTestOperand _ _) = True"
| "is_condition (CompareOperand _ _ _) = True"
| "is_condition (AllOperand _) = True"
| "is_condition (AnyOperand _) = True"
| "is_condition _ = False"

function (sequential)
  condition :: "(string, scalar option) dict \<Rightarrow> (string, scalar option) dict \<Rightarrow> expression \<Rightarrow> condition_state outcome"
and states :: "(string, scalar option) dict \<Rightarrow> (string, scalar option) dict \<Rightarrow> expression list \<Rightarrow> condition_state list outcome"
and evaluate :: "(string, scalar option) dict \<Rightarrow> (string, scalar option) dict \<Rightarrow> expression \<Rightarrow> decimal outcome"
and branches :: "(string, scalar option) dict \<Rightarrow> (string, scalar option) dict \<Rightarrow> (expression \<times> expression) list \<Rightarrow> expression option \<Rightarrow> decimal outcome"
where
  "condition ins ps (NullTestOperand op a) =
     (case evaluate ins ps a of
        NullOperand \<Rightarrow> Value (of_bool (op = IsNull))
      | Value _ \<Rightarrow> Value (of_bool (op \<noteq> IsNull))
      | RuntimeErr c \<Rightarrow> RuntimeErr c
      | Trap s \<Rightarrow> Trap s)"
| "condition ins ps (CompareOperand op a b) =
     (case obind (evaluate ins ps a) (\<lambda>l. obind (evaluate ins ps b) (\<lambda>r.
             Value (of_bool (if op = Gt then dec_less r l else dec_le l r)))) of
        NullOperand \<Rightarrow> Value CUnknown
      | out \<Rightarrow> out)"
| "condition ins ps (AllOperand cs) = obind (states ins ps cs) (\<lambda>ss. Value (all_states ss))"
| "condition ins ps (AnyOperand cs) = obind (states ins ps cs) (\<lambda>ss. Value (any_states ss))"
| "condition ins ps _ = RuntimeErr ''calculation_condition_unsupported''"
| "states ins ps [] = Value []"
| "states ins ps (c # cs) =
     obind (condition ins ps c) (\<lambda>s. obind (states ins ps cs) (\<lambda>ss. Value (s # ss)))"
| "evaluate ins ps (LiteralOperand v) = Value v"
| "evaluate ins ps NullLiteralOperand = NullOperand"
| "evaluate ins ps (InputRefOperand r) =
     reference_value ''calculation_input_missing'' ''calculation_input_not_numeric'' ins r"
| "evaluate ins ps (ParameterRefOperand n) =
     reference_value ''calculation_parameter_missing'' ''calculation_parameter_not_numeric'' ps n"
| "evaluate ins ps (AggregateOperand _ _) = RuntimeErr ''calculation_aggregate_unsupported''"
| "evaluate ins ps (RoundOperand a n) = obind (evaluate ins ps a) (\<lambda>v. apply_precision v n HalfUp)"
| "evaluate ins ps (CoalesceOperand a v) =
     (case evaluate ins ps a of NullOperand \<Rightarrow> Value v | out \<Rightarrow> out)"
| "evaluate ins ps (CaseOperand ws els) = branches ins ps ws els"
| "evaluate ins ps (BinaryOperand op a b) =
     obind (evaluate ins ps a) (\<lambda>l. obind (evaluate ins ps b) (\<lambda>r. apply_binary op l r))"
| "evaluate ins ps e =
     obind (condition ins ps e) (\<lambda>s. case s of
        CUnknown \<Rightarrow> NullOperand
      | CTrue \<Rightarrow> Value (dec_of_int 1)
      | CFalse \<Rightarrow> Value (dec_of_int 0))"
| "branches ins ps [] els = (case els of None \<Rightarrow> NullOperand | Some e \<Rightarrow> evaluate ins ps e)"
| "branches ins ps ((c, t) # ws) els =
     obind (condition ins ps c) (\<lambda>s. if s = CTrue then evaluate ins ps t else branches ins ps ws els)"
  by pat_completeness auto
termination
  by (relation "measure (\<lambda>x. case x of
        Inl (Inl (_, _, e)) \<Rightarrow> 2 * size e
      | Inl (Inr (_, _, cs)) \<Rightarrow> 2 * size_list size cs
      | Inr (Inl (_, _, e)) \<Rightarrow> 2 * size e + 1
      | Inr (Inr (_, _, ws, els)) \<Rightarrow> 2 * (size_list (size_prod size size) ws + size_option size els))") auto

section \<open>Entry points\<close>

fun at_boundary :: "'a outcome \<Rightarrow> 'a result" where
  "at_boundary (Value v) = Inr v"
| "at_boundary NullOperand = Inl (CalculationRuntimeError ''calculation_result_null_unsupported'')"
| "at_boundary (RuntimeErr c) = Inl (CalculationRuntimeError c)"
| "at_boundary (Trap s) = Inl (CalculationRuntimeError (decimal_error_code s))"

definition evaluate_expression ::
  "expression \<Rightarrow> (string, scalar option) dict \<Rightarrow> (string, scalar option) dict \<Rightarrow> decimal result" where
  "evaluate_expression e ins ps =
     (case require_bounded e of
        Some c \<Rightarrow> Inl (CalculationRuntimeError c)
      | None \<Rightarrow> at_boundary (evaluate ins ps e))"

record evaluation_result =
  er_value :: decimal
  er_precision :: "nat option"

text \<open>A bound parameter value as the evaluator sees it.\<close>

fun scalar_of :: "parameter_value \<Rightarrow> scalar" where
  "scalar_of (PStr s) = VStr s"
| "scalar_of (PBool b) = VBool b"
| "scalar_of (PInt i) = VInt i"
| "scalar_of (PFloat _) = VOther"
| "scalar_of (PDec d) = VDec d"

definition binding_parameters :: "calculation_execution_binding option \<Rightarrow> (string, scalar option) dict" where
  "binding_parameters b = (case b of None \<Rightarrow> []
     | Some b \<Rightarrow> fold (\<lambda>p d. dset (pb_name p) (Some (scalar_of (pb_value p))) d) (eb_parameters b) [])"

definition evaluate_calculation ::
  "calculation_spec \<Rightarrow> (string, scalar option) dict \<Rightarrow> calculation_execution_binding option \<Rightarrow> evaluation_result result" where
  "evaluate_calculation spec ins b =
     (case require_bounded (cs_expression spec) of
        Some c \<Rightarrow> Inl (CalculationRuntimeError c)
      | None \<Rightarrow>
          at_boundary (obind (evaluate ins (binding_parameters b) (cs_expression spec)) (\<lambda>exact.
            case cs_precision spec of
              None \<Rightarrow> Value \<lparr>er_value = exact, er_precision = None\<rparr>
            | Some p \<Rightarrow>
                obind (apply_precision exact p (case cs_rounding spec of None \<Rightarrow> HalfUp | Some r \<Rightarrow> r))
                  (\<lambda>v. Value \<lparr>er_value = v, er_precision = Some p\<rparr>))))"

section \<open>The closed set of failures\<close>

definition errs_in :: "string set \<Rightarrow> 'a outcome \<Rightarrow> bool" where
  "errs_in A out \<longleftrightarrow> (case out of RuntimeErr c \<Rightarrow> c \<in> A | _ \<Rightarrow> True)"

lemma errs_in_simps [simp]:
  "errs_in A (Value v)" "errs_in A NullOperand" "errs_in A (Trap s)" "errs_in A (RuntimeErr c) \<longleftrightarrow> c \<in> A"
  by (simp_all add: errs_in_def)

lemma errs_in_obind: "errs_in A x \<Longrightarrow> (\<And>v. x = Value v \<Longrightarrow> errs_in A (f v)) \<Longrightarrow> errs_in A (obind x f)"
  by (cases x) simp_all

lemma errs_in_of_signal [simp]: "errs_in A (of_signal x)"
  by (cases x) simp_all

definition base_codes :: "string list" where
  "base_codes =
     [''calculation_undefined_division_by_zero'', ''calculation_aggregate_unsupported'',
      ''calculation_input_not_numeric'', ''calculation_parameter_not_numeric'']"

definition boundary_codes :: "string list" where
  "boundary_codes =
     [''calculation_undefined'', ''calculation_numeric_out_of_range'', ''calculation_result_null_unsupported'']"

text \<open>What a set of codes must contain for the nodes of an expression.\<close>

definition node_covered :: "string set \<Rightarrow> (string, scalar option) dict \<Rightarrow> (string, scalar option) dict \<Rightarrow> expression \<Rightarrow> bool" where
  "node_covered A ins ps n \<longleftrightarrow>
     (case n of
        InputRefOperand r \<Rightarrow> dget ins r = None \<longrightarrow> ''calculation_input_missing'' \<in> A
      | ParameterRefOperand q \<Rightarrow> dget ps q = None \<longrightarrow> ''calculation_parameter_missing'' \<in> A
      | _ \<Rightarrow> True)"

definition covered :: "string set \<Rightarrow> (string, scalar option) dict \<Rightarrow> (string, scalar option) dict \<Rightarrow> expression \<Rightarrow> bool" where
  "covered A ins ps e \<longleftrightarrow> expr_ok e \<and> (\<forall>n \<in> set (preorder e). node_covered A ins ps n)"

lemma covered_child:
  "covered A ins ps e \<Longrightarrow> c \<in> set (children e) \<Longrightarrow> expr_ok c \<Longrightarrow> covered A ins ps c"
  by (auto simp: covered_def preorder.simps[of e])

lemma covered_node: "covered A ins ps e \<Longrightarrow> node_covered A ins ps e"
  by (simp add: covered_def preorder.simps[of e])

lemma covered_parts:
  "covered A ins ps (BinaryOperand bop a b) \<Longrightarrow> covered A ins ps a \<and> covered A ins ps b"
  "covered A ins ps (CompareOperand cop a b) \<Longrightarrow> covered A ins ps a \<and> covered A ins ps b"
  "covered A ins ps (NullTestOperand nop a) \<Longrightarrow> covered A ins ps a"
  "covered A ins ps (CoalesceOperand a v) \<Longrightarrow> covered A ins ps a"
  "covered A ins ps (RoundOperand a n) \<Longrightarrow> covered A ins ps a"
  by (auto simp: covered_def preorder.simps[of "BinaryOperand bop a b"] preorder.simps[of "CompareOperand cop a b"]
      preorder.simps[of "NullTestOperand nop a"] preorder.simps[of "CoalesceOperand a v"] preorder.simps[of "RoundOperand a n"])

lemma covered_references:
  "covered A ins ps (InputRefOperand r) \<Longrightarrow> dget ins r = None \<Longrightarrow> ''calculation_input_missing'' \<in> A"
  "covered A ins ps (ParameterRefOperand q) \<Longrightarrow> dget ps q = None \<Longrightarrow> ''calculation_parameter_missing'' \<in> A"
  by (auto dest!: covered_node simp: node_covered_def)

lemma errs_in_coerce: "code \<in> A \<Longrightarrow> errs_in A (coerce_numeric code v)"
  by (cases v) (simp_all add: Let_def split: option.splits)

lemma errs_in_apply_binary: "set base_codes \<subseteq> A \<Longrightarrow> errs_in A (apply_binary op a b)"
  by (cases op) (simp_all add: base_codes_def)

lemma errs_in_reference:
  "not_numeric \<in> A \<Longrightarrow> (dget env k = None \<Longrightarrow> missing \<in> A) \<Longrightarrow> errs_in A (reference_value missing not_numeric env k)"
  by (simp add: reference_value_def errs_in_coerce split: option.splits)

lemma covered_Case_parts:
  assumes "covered A ins ps (CaseOperand ws els)"
  shows "\<forall>(c, t) \<in> set ws. when_condition c \<and> covered A ins ps c \<and> covered A ins ps t"
    "case els of None \<Rightarrow> True | Some e \<Rightarrow> covered A ins ps e"
proof -
  have ok: "\<forall>(c, t) \<in> set ws. when_condition c \<and> expr_ok c \<and> expr_ok t"
    "case els of None \<Rightarrow> True | Some e \<Rightarrow> expr_ok e"
    using assms by (auto simp: covered_def list_all_iff)
  show "\<forall>(c, t) \<in> set ws. when_condition c \<and> covered A ins ps c \<and> covered A ins ps t"
  proof (clarify, intro conjI)
    fix c t assume w: "(c, t) \<in> set ws"
    then have ch: "c \<in> set (children (CaseOperand ws els))" "t \<in> set (children (CaseOperand ws els))" by force+
    show "when_condition c" using ok w by auto
    show "covered A ins ps c" "covered A ins ps t"
      using covered_child[OF assms] ch ok w by blast+
  qed
  show "case els of None \<Rightarrow> True | Some e \<Rightarrow> covered A ins ps e"
    using ok(2) covered_child[OF assms] by (auto split: option.splits)
qed

lemma covered_conditions:
  assumes "covered A ins ps (AllOperand cs) \<or> covered A ins ps (AnyOperand cs)"
  shows "\<forall>c \<in> set cs. when_condition c \<and> covered A ins ps c"
proof
  fix c assume c: "c \<in> set cs"
  have "simple_condition c" "expr_ok c" using assms c by (auto simp: covered_def list_all_iff)
  then have "when_condition c" by (cases c) auto
  moreover have "covered A ins ps c" using assms covered_child[of A ins ps] c \<open>expr_ok c\<close> by auto
  ultimately show "when_condition c \<and> covered A ins ps c" by simp
qed

lemma evaluation_errors:
  assumes base: "set base_codes \<subseteq> A"
  shows "when_condition e \<Longrightarrow> covered A ins ps e \<Longrightarrow> errs_in A (condition ins ps e)"
    and "\<forall>c \<in> set cs. when_condition c \<and> covered A ins ps c \<Longrightarrow> errs_in A (states ins ps cs)"
    and "covered A ins ps e \<Longrightarrow> errs_in A (evaluate ins ps e)"
    and "\<forall>(c, t) \<in> set ws. when_condition c \<and> covered A ins ps c \<and> covered A ins ps t \<Longrightarrow>
         (case els of None \<Rightarrow> True | Some e \<Rightarrow> covered A ins ps e) \<Longrightarrow> errs_in A (branches ins ps ws els)"
proof (induction ins ps e and ins ps cs and ins ps e and ins ps ws els
    rule: condition_states_evaluate_branches.induct)
  case (1 ins ps op a)
  with covered_parts(3)[OF 1(3)] show ?case by (cases "evaluate ins ps a") auto
next
  case (2 ins ps op a b)
  with covered_parts(2)[OF 2(4)] show ?case by (cases "evaluate ins ps a"; cases "evaluate ins ps b") auto
next
  case (3 ins ps cs)
  then have "errs_in A (states ins ps cs)" using covered_conditions[OF disjI1] by blast
  then show ?case by (cases "states ins ps cs") simp_all
next
  case (4 ins ps cs)
  then have "errs_in A (states ins ps cs)" using covered_conditions[OF disjI2] by blast
  then show ?case by (cases "states ins ps cs") simp_all
next
  case (7 ins ps c cs)
  then show ?case by (simp add: errs_in_obind)
next
  case (10 ins ps r)
  then show ?case using base covered_references(1)[of A ins ps r]
    by (auto intro: errs_in_reference simp: base_codes_def)
next
  case (11 ins ps n)
  then show ?case using base covered_references(2)[of A ins ps n]
    by (auto intro: errs_in_reference simp: base_codes_def)
next
  case (12 ins ps f r)
  then show ?case using base by (simp add: base_codes_def)
next
  case (13 ins ps a n)
  then show ?case using covered_parts(5)[of A ins ps a n] by (simp add: errs_in_obind apply_precision_def)
next
  case (14 ins ps a v)
  then show ?case using covered_parts(4)[of A ins ps a v] by (cases "evaluate ins ps a") auto
next
  case (15 ins ps ws els)
  then show ?case using covered_Case_parts[of A ins ps ws els] by simp
next
  case (16 ins ps op a b)
  then show ?case using covered_parts(1)[of A ins ps op a b] errs_in_apply_binary[OF base]
    by (simp add: errs_in_obind)
next
  case (18 ins ps els)
  then show ?case by (cases els) simp_all
next
  case (19 ins ps c t ws els)
  then show ?case by (simp add: errs_in_obind)
qed (simp_all add: errs_in_obind split: condition_state.splits)

lemma require_bounded_None: "require_bounded e = None \<longleftrightarrow> bounded_expression e"
  by (auto simp: require_bounded_def expression_depth_eq expression_node_count_def walk_eq bounded_expression_def)

lemma errs_in_boundary:
  "errs_in A out \<Longrightarrow> at_boundary out = Inl e \<Longrightarrow>
   \<exists>c. e = CalculationRuntimeError c \<and> (c \<in> A \<or> c \<in> set boundary_codes \<or> c \<in> set base_codes)"
proof (cases out)
  case (Trap sg)
  assume "at_boundary out = Inl e"
  with Trap show ?thesis by (cases sg) (auto simp: boundary_codes_def base_codes_def)
qed (auto simp: boundary_codes_def)

lemma dom_fold_dset:
  "fst ` set (fold (\<lambda>p d. dset (f p) (g p) d) xs d) = fst ` set d \<union> f ` set xs"
  by (induction xs arbitrary: d) (auto simp: dom_update)

lemma binding_parameters_dom:
  "dget (binding_parameters (Some b)) q = None \<longleftrightarrow> q \<notin> set (map pb_name (eb_parameters b))"
  by (auto simp: binding_parameters_def map_of_eq_None_iff dom_fold_dset)

lemma evaluate_calculation_errors:
  assumes spec: "mk_calculation_spec keys s = Inr spec" and base: "set base_codes \<subseteq> A"
    and refs: "\<And>n. n \<in> set (preorder (cs_expression spec)) \<Longrightarrow> node_covered A ins (binding_parameters b) n"
    and fails: "evaluate_calculation spec ins b = Inl e"
  shows "e \<in> CalculationRuntimeError ` (A \<union> set boundary_codes)"
proof -
  let ?e = "cs_expression spec" and ?ps = "binding_parameters b"
  note ok = mk_calculation_spec_ok[OF spec] and sem = validate_semantics_ok[OF mk_calculation_spec_ok(1)[OF spec]]
  have "covered A ins ?ps ?e" using refs ok(2) sem(1) by (simp add: covered_def)
  from evaluation_errors(3)[OF base this] have "errs_in A (evaluate ins ?ps ?e)" .
  then have "errs_in A (obind (evaluate ins ?ps ?e) (\<lambda>exact.
      case cs_precision spec of None \<Rightarrow> Value \<lparr>er_value = exact, er_precision = None\<rparr>
      | Some p \<Rightarrow> obind (apply_precision exact p (case cs_rounding spec of None \<Rightarrow> HalfUp | Some r \<Rightarrow> r))
          (\<lambda>v. Value \<lparr>er_value = v, er_precision = Some p\<rparr>)))"
    by (intro errs_in_obind) (simp_all add: apply_precision_def errs_in_obind split: option.splits)
  from errs_in_boundary[OF this] fails require_bounded_None[of ?e] sem(2) base show ?thesis
    by (auto simp: evaluate_calculation_def)
qed

text \<open>C10. Failures of a validated calculation form a closed vocabulary: once every declared input role has
  an entry and every declared parameter is bound, an evaluation that fails raises a
  CalculationRuntimeError with one of seven codes.  It never reports a missing input or parameter, an
  unsupported condition, or an oversized expression.\<close>

theorem valid_spec_failures_closed:
  assumes spec: "mk_calculation_spec keys s = Inr spec"
    and ins: "set (map ci_role (cs_inputs spec)) \<subseteq> set (map fst ins)"
    and bound: "set (map ps_name (cs_parameters spec)) \<subseteq> set (map pb_name (eb_parameters b))"
    and fails: "evaluate_calculation spec ins (Some b) = Inl e"
  shows "e \<in> CalculationRuntimeError ` set (base_codes @ boundary_codes)"
proof -
  let ?e = "cs_expression spec" and ?ps = "binding_parameters (Some b)"
  note sem = validate_semantics_ok[OF mk_calculation_spec_ok(1)[OF spec]]
  have "node_covered (set base_codes) ins ?ps n" if n: "n \<in> set (preorder ?e)" for n
  proof (cases n)
    case (InputRefOperand r)
    then have "r \<in> set (map fst ins)" using sem(3)[OF n, of r] ins by auto
    then show ?thesis using InputRefOperand by (auto simp: node_covered_def map_of_eq_None_iff)
  next
    case (ParameterRefOperand q)
    then have "q \<in> set (map pb_name (eb_parameters b))" using sem(4)[OF n, of q] bound by auto
    then show ?thesis using ParameterRefOperand binding_parameters_dom[of b q] by (auto simp: node_covered_def)
  qed (simp_all add: node_covered_def)
  from evaluate_calculation_errors[OF spec subset_refl this fails] show ?thesis by simp
qed

definition sample_inputs :: "(string, scalar option) dict" where
  "sample_inputs = [(''won'', Some (VInt 3)), (''all'', Some (VInt 0))]"

lemma sample_spec_valid: "mk_calculation_spec [''inputs''] sample_spec = Inr sample_spec"
  by code_simp

theorem valid_spec_failures_closed_witness:
  "evaluate_calculation sample_spec sample_inputs (Some (sample_binding ''2024-02-29'')) =
     Inl (CalculationRuntimeError ''calculation_undefined_division_by_zero'') \<and>
   CalculationRuntimeError ''calculation_undefined_division_by_zero'' \<in> CalculationRuntimeError ` set (base_codes @ boundary_codes)"
proof
  show run: "evaluate_calculation sample_spec sample_inputs (Some (sample_binding ''2024-02-29'')) =
     Inl (CalculationRuntimeError ''calculation_undefined_division_by_zero'')"
    by code_simp
  show "CalculationRuntimeError ''calculation_undefined_division_by_zero'' \<in> CalculationRuntimeError ` set (base_codes @ boundary_codes)"
    by (rule valid_spec_failures_closed[OF sample_spec_valid _ _ run])
      (simp_all add: sample_spec_def sample_inputs_def sample_binding_def)
qed

section \<open>Precision\<close>

definition declared_rounding :: "calculation_spec \<Rightarrow> round_mode" where
  "declared_rounding spec = (case cs_rounding spec of None \<Rightarrow> HalfUp | Some r \<Rightarrow> r)"

lemma at_boundary_Inr: "at_boundary out = Inr v \<longleftrightarrow> out = Value v"
  by (cases out) auto

lemma obind_Value: "obind x f = Value v \<longleftrightarrow> (\<exists>u. x = Value u \<and> f u = Value v)"
  by (cases x) auto

lemma of_signal_Value: "of_signal x = Value v \<longleftrightarrow> x = Inr v"
  by (cases x) auto

lemma evaluate_calculation_Inr:
  assumes "evaluate_calculation spec ins b = Inr r"
  obtains exact where "evaluate ins (binding_parameters b) (cs_expression spec) = Value exact"
    "er_precision r = cs_precision spec"
    "case cs_precision spec of None \<Rightarrow> er_value r = exact
       | Some p \<Rightarrow> quantize (declared_rounding spec) exact p = Inr (er_value r)"
  using assms
  by (auto simp: evaluate_calculation_def at_boundary_Inr obind_Value declared_rounding_def apply_precision_def
      of_signal_Value split: option.splits)

text \<open>C11. Declared precision is applied exactly once and exactly: without a precision the result is the
  exact value; with precision \<open>p\<close> the result has exactly \<open>p\<close> decimal places, differs from the exact
  value by less than one unit of the last place, by at most half a unit for the half modes, and lies
  on the declared side for floor and ceil.\<close>

theorem declared_precision_exact:
  assumes run: "evaluate_calculation spec ins b = Inr r" and p: "cs_precision spec \<noteq> None \<Longrightarrow> the (cs_precision spec) \<le> 12"
  shows "\<exists>exact. evaluate ins (binding_parameters b) (cs_expression spec) = Value exact \<and>
     er_precision r = cs_precision spec \<and>
     (case cs_precision spec of
        None \<Rightarrow> er_value r = exact
      | Some p \<Rightarrow>
          expo (er_value r) = - int p \<and>
          \<bar>dec_val (er_value r) - dec_val exact\<bar> < 10 powi (- int p) \<and>
          (half_mode (declared_rounding spec) \<longrightarrow> 2 * \<bar>dec_val (er_value r) - dec_val exact\<bar> \<le> 10 powi (- int p)) \<and>
          (declared_rounding spec = RoundFloor \<longrightarrow> dec_val (er_value r) \<le> dec_val exact) \<and>
          (declared_rounding spec = RoundCeil \<longrightarrow> dec_val exact \<le> dec_val (er_value r)))"
proof -
  obtain exact where ex: "evaluate ins (binding_parameters b) (cs_expression spec) = Value exact"
    "er_precision r = cs_precision spec"
    "case cs_precision spec of None \<Rightarrow> er_value r = exact
       | Some p \<Rightarrow> quantize (declared_rounding spec) exact p = Inr (er_value r)"
    using evaluate_calculation_Inr[OF run] .
  have "er_value r = rescale (declared_rounding spec) exact (- int q)" if "cs_precision spec = Some q" for q
    using quantize_rescale[of "declared_rounding spec" exact q] ex(3) p that by simp
  with ex show ?thesis
    using rescale_error[of "declared_rounding spec" exact] rescale_direction[of exact]
    by (cases "cs_precision spec") (auto intro!: exI[of _ exact])
qed

definition sample_product :: calculation_spec where
  "sample_product = sample_spec\<lparr>cs_expression := BinaryOperand Multiply (InputRefOperand ''won'') (InputRefOperand ''all'')\<rparr>"

definition sample_factors :: "(string, scalar option) dict" where
  "sample_factors = [(''won'', Some (VStr '' 1.25'')), (''all'', Some (VDec (Dec False 5 (-1))))]"

theorem declared_precision_exact_witness:
  "2 * \<bar>dec_val (Dec False 63 (-2)) - dec_val (Dec False 625 (-3))\<bar> \<le> 10 powi (-2)"
proof -
  have run: "evaluate_calculation sample_product sample_factors None = Inr \<lparr>er_value = Dec False 63 (-2), er_precision = Some 2\<rparr>"
    by code_simp
  have ev: "evaluate sample_factors (binding_parameters None) (cs_expression sample_product) = Value (Dec False 625 (-3))"
    by code_simp
  show ?thesis using declared_precision_exact[OF run] ev
    by (simp add: sample_product_def sample_spec_def declared_rounding_def half_mode_def)
qed

section \<open>Exact arithmetic\<close>

text \<open>The exact result of an arithmetic node before it is fitted into the context.\<close>

definition exact_sum :: "decimal \<Rightarrow> decimal \<Rightarrow> decimal" where
  "exact_sum a b =
     (let e = min (expo a) (expo b); s = at_exp a e + at_exp b e
      in Dec (if s = 0 then negative a \<and> negative b else s < 0) (nat \<bar>s\<bar>) e)"

fun exact_result :: "binary_operator \<Rightarrow> decimal \<Rightarrow> decimal \<Rightarrow> decimal" where
  "exact_result Add a b = exact_sum a b"
| "exact_result Subtract a b = exact_sum a (dec_neg b)"
| "exact_result Multiply a b = Dec (negative a \<noteq> negative b) (coeff a * coeff b) (expo a + expo b)"
| "exact_result Divide a b = a"

fun real_operation :: "binary_operator \<Rightarrow> real \<Rightarrow> real \<Rightarrow> real" where
  "real_operation Add x y = x + y"
| "real_operation Subtract x y = x - y"
| "real_operation Multiply x y = x * y"
| "real_operation Divide x y = x / y"



section \<open>Undefined stays undefined\<close>

text \<open>An exact-zero denominator is a failure and nothing turns it into a value: not COALESCE, not a
  NULL test, not ROUND, and a comparison or CASE that reaches it fails with the same code.\<close>

theorem division_by_zero_never_masked:
  assumes "evaluate ins ps a = Value x" "evaluate ins ps b = Value y" "dec_val y = 0"
  shows "evaluate ins ps (BinaryOperand Divide a b) = RuntimeErr ''calculation_undefined_division_by_zero'' \<and>
    evaluate ins ps (CoalesceOperand (BinaryOperand Divide a b) v) = RuntimeErr ''calculation_undefined_division_by_zero'' \<and>
    condition ins ps (NullTestOperand nop (BinaryOperand Divide a b)) = RuntimeErr ''calculation_undefined_division_by_zero'' \<and>
    evaluate ins ps (RoundOperand (BinaryOperand Divide a b) n) = RuntimeErr ''calculation_undefined_division_by_zero'' \<and>
    condition ins ps (CompareOperand cop (BinaryOperand Divide a b) c) = RuntimeErr ''calculation_undefined_division_by_zero'' \<and>
    evaluate ins ps (CaseOperand ((NullTestOperand nop (BinaryOperand Divide a b), t) # ws) els) =
      RuntimeErr ''calculation_undefined_division_by_zero''"
proof -
  have "coeff y = 0" using assms(3) by (auto simp: dec_val_def power_int_eq_0_iff split: if_splits)
  with assms(1,2) show ?thesis by simp
qed

theorem division_by_zero_never_masked_witness:
  "evaluate [] [] (CoalesceOperand (BinaryOperand Divide (LiteralOperand (Dec False 5 0)) (LiteralOperand (Dec False 0 (-2)))) (Dec False 0 0))
     = RuntimeErr ''calculation_undefined_division_by_zero''"
  using division_by_zero_never_masked[of "[]" "[]" "LiteralOperand (Dec False 5 0)" "Dec False 5 0"
      "LiteralOperand (Dec False 0 (-2))" "Dec False 0 (-2)" "Dec False 0 0"]
  by (simp add: dec_val_def)

section \<open>Order of conditions\<close>

lemma states_Value:
  "states ins ps cs = Value ss \<longleftrightarrow> list_all2 (\<lambda>c s. condition ins ps c = Value s) cs ss"
  by (induction cs arbitrary: ss) (auto simp: obind_Value list_all2_Cons1)

lemma list_all2_function: "list_all2 (\<lambda>c s. f c = Value s) cs ss \<Longrightarrow> map f cs = map Value ss"
  by (induction rule: list_all2_induct) auto

lemma Value_set: "map f cs = map Value ss \<Longrightarrow> set ss = {s. Value s \<in> f ` set cs}"
proof -
  assume "map f cs = map Value ss"
  then have "f ` set cs = Value ` set ss" by (metis list.set_map)
  then show ?thesis by auto
qed

lemma states_set:
  assumes "states ins ps cs = Value ss"
  shows "set ss = {s. Value s \<in> condition ins ps ` set cs}"
  by (rule Value_set) (use assms list_all2_function in \<open>auto simp: states_Value\<close>)

lemma states_total: "(\<exists>ss. states ins ps cs = Value ss) \<longleftrightarrow> (\<forall>c \<in> set cs. \<exists>s. condition ins ps c = Value s)"
  by (induction cs) (auto simp: obind_Value)

text \<open>The outcome of a conjunction or disjunction does not depend on the order or repetition of its
  conditions: with the same set of conditions, one ordering yields a truth state exactly when the
  other does, and then the same one.\<close>

theorem condition_order_irrelevant:
  assumes "set cs = set ds"
  shows "(\<exists>s. condition ins ps (AllOperand cs) = Value s) = (\<exists>s. condition ins ps (AllOperand ds) = Value s) \<and>
    (\<exists>s. condition ins ps (AnyOperand cs) = Value s) = (\<exists>s. condition ins ps (AnyOperand ds) = Value s) \<and>
    (\<forall>s. condition ins ps (AllOperand cs) = Value s \<longrightarrow> condition ins ps (AllOperand ds) = Value s) \<and>
    (\<forall>s. condition ins ps (AnyOperand cs) = Value s \<longrightarrow> condition ins ps (AnyOperand ds) = Value s)"
proof -
  have same: "set ss = set ts" if "states ins ps cs = Value ss" "states ins ps ds = Value ts" for ss ts
    using that assms by (simp add: states_set)
  have both: "(\<exists>ss. states ins ps cs = Value ss) = (\<exists>ts. states ins ps ds = Value ts)"
    using assms by (simp add: states_total)
  show ?thesis
  proof (cases "\<exists>ss. states ins ps cs = Value ss")
    case True
    then obtain ss ts where "states ins ps cs = Value ss" "states ins ps ds = Value ts" using both by blast
    with same show ?thesis by (simp add: all_states.simps any_states.simps)
  next
    case False
    then have "\<nexists>ss. states ins ps ds = Value ss" using both by blast
    with False show ?thesis by (auto simp: obind_Value)
  qed
qed

theorem condition_order_irrelevant_witness:
  "condition [] [] (AnyOperand [CompareOperand Gt NullLiteralOperand NullLiteralOperand, NullTestOperand IsNull NullLiteralOperand]) = Value CTrue"
proof -
  let ?c = "CompareOperand Gt NullLiteralOperand NullLiteralOperand" and ?n = "NullTestOperand IsNull NullLiteralOperand"
  have "condition [] [] (AnyOperand [?n, ?c]) = Value CTrue" by code_simp
  then show ?thesis using condition_order_irrelevant[of "[?n, ?c]" "[?c, ?n]" "[]" "[]"] by (simp add: insert_commute)
qed

text \<open>Which failure code a conjunction reports does depend on the written order.\<close>

lemma condition_failure_code_depends_on_order:
  "condition [] [] (AllOperand [NullTestOperand IsNull (InputRefOperand ''a''), NullTestOperand IsNull (ParameterRefOperand ''b'')])
     = RuntimeErr ''calculation_input_missing''"
  "condition [] [] (AllOperand [NullTestOperand IsNull (ParameterRefOperand ''b''), NullTestOperand IsNull (InputRefOperand ''a'')])
     = RuntimeErr ''calculation_parameter_missing''"
  by (simp_all add: reference_value_def)

end
