(* ===== verification/Custom_Definition.thy ===== *)
theory Custom_Definition
  imports Calculation_Contract
begin

text \<open>
  Custom definitions (\<open>artifacts/custom_definition.py\<close>): the four independent axes with their
  implications, immutable definition versions with their checksum, the private per-version lifecycle
  and the per-run execution binding.  A \<open>datetime\<close> is a number that is only stored and compared.
\<close>

type_synonym timestamp = nat

datatype confirmation_axis = DRAFT | CONFIRMED
datatype retention_axis = SESSION | SAVED
datatype publication_axis = UNPUBLISHED | PUBLISHED
datatype certification_axis = UNCERTIFIED | CERTIFIED

text \<open>\<open>^def_[0-9a-f]{32}$\<close>\<close>

definition is_definition_id :: "string \<Rightarrow> bool" where
  "is_definition_id s \<longleftrightarrow> take 4 s = ''def_'' \<and> length s = 36 \<and> list_all is_hex (drop 4 s)"

definition new_definition_id :: "string \<Rightarrow> string" where
  "new_definition_id uuid_hex = ''def_'' @ uuid_hex"

section \<open>Axes and lifecycle\<close>

record definition_axes =
  ax_confirmation :: confirmation_axis
  ax_retention :: retention_axis
  ax_publication :: publication_axis
  ax_certification :: certification_axis

definition default_axes :: definition_axes where
  "default_axes = \<lparr>ax_confirmation = DRAFT, ax_retention = SESSION, ax_publication = UNPUBLISHED,
     ax_certification = UNCERTIFIED\<rparr>"

definition validate_axes :: "definition_axes \<Rightarrow> definition_axes result" where
  "validate_axes a =
     validated
       [(ax_retention a = SAVED \<and> ax_confirmation a \<noteq> CONFIRMED, ValueError ''SAVED requires CONFIRMED''),
        (ax_publication a = PUBLISHED \<and> (ax_retention a \<noteq> SAVED \<or> ax_confirmation a \<noteq> CONFIRMED),
         ValueError ''PUBLISHED requires SAVED and CONFIRMED''),
        (ax_certification a = CERTIFIED \<and> ax_publication a \<noteq> PUBLISHED,
         ValueError ''CERTIFIED requires PUBLISHED'')]
       a"

definition axes_ok :: "definition_axes \<Rightarrow> bool" where
  "axes_ok a \<longleftrightarrow> (ax_retention a = SAVED \<longrightarrow> ax_confirmation a = CONFIRMED) \<and>
     (ax_publication a = PUBLISHED \<longrightarrow> ax_retention a = SAVED) \<and>
     (ax_certification a = CERTIFIED \<longrightarrow> ax_publication a = PUBLISHED)"

lemma validate_axes_iff: "validate_axes a = Inr a \<longleftrightarrow> axes_ok a"
  by (auto simp: validate_axes_def axes_ok_def)

record version_lifecycle =
  lc_confirmation :: confirmation_axis
  lc_retention :: retention_axis

definition default_lifecycle :: version_lifecycle where
  "default_lifecycle = \<lparr>lc_confirmation = DRAFT, lc_retention = SESSION\<rparr>"

definition validate_lifecycle :: "version_lifecycle \<Rightarrow> version_lifecycle result" where
  "validate_lifecycle l =
     validated [(lc_retention l = SAVED \<and> lc_confirmation l \<noteq> CONFIRMED, ValueError ''SAVED requires CONFIRMED'')] l"

section \<open>Versions\<close>

type_synonym parameter_contract = "parameter_spec list"

definition parameter_contract_json :: "parameter_contract \<Rightarrow> json" where
  "parameter_contract_json ps = jobj [(''parameters'', JList (map parameter_spec_json ps))]"

definition parameter_contract_checksum :: "(string \<Rightarrow> string) \<Rightarrow> parameter_contract \<Rightarrow> string" where
  "parameter_contract_checksum h ps = checksum_of h (parameter_contract_json ps)"

definition derive_parameter_contract :: "calculation_spec \<Rightarrow> parameter_contract" where
  "derive_parameter_contract c = cs_parameters c"

record definition_version =
  dv_definition_id :: string
  dv_version :: nat
  dv_calculation :: calculation_spec
  dv_parameter_contract :: parameter_contract
  dv_title :: string
  dv_semantic_closed :: bool
  dv_derived_from_definition_id :: "string option"
  dv_derived_from_version :: "nat option"
  dv_created_at :: timestamp

definition mk_definition_version :: "definition_version \<Rightarrow> definition_version result" where
  "mk_definition_version v =
     validated
       [(\<not> is_definition_id (dv_definition_id v), FieldError ''definition_id''),
        (dv_version v < 1, FieldError ''version''),
        (length (dv_parameter_contract v) > 32, FieldError ''parameter_contract''),
        (length (dv_title v) < 1 \<or> length (dv_title v) > 256, FieldError ''title''),
        (case dv_derived_from_definition_id v of None \<Rightarrow> False | Some i \<Rightarrow> \<not> is_definition_id i,
         FieldError ''derived_from_definition_id''),
        (case dv_derived_from_version v of None \<Rightarrow> False | Some n \<Rightarrow> n < 1, FieldError ''derived_from_version''),
        (dv_parameter_contract v \<noteq> cs_parameters (dv_calculation v),
         ValueError ''parameter contract must match the calculation parameters'')]
       v"

definition version_json :: "(string \<Rightarrow> string) \<Rightarrow> definition_version \<Rightarrow> json" where
  "version_json h v =
     jobj [(''schema_version'', JStr ''1.0''), (''definition_id'', JStr (dv_definition_id v)),
           (''version'', JInt (int (dv_version v))),
           (''calculation_spec_checksum'', JStr (spec_checksum h (dv_calculation v))),
           (''parameter_contract_checksum'', JStr (parameter_contract_checksum h (dv_parameter_contract v))),
           (''title'', JStr (dv_title v)), (''semantic_closed'', JBool (dv_semantic_closed v)),
           (''derived_from_definition_id'', jopt JStr (dv_derived_from_definition_id v)),
           (''derived_from_version'', jopt (\<lambda>n. JInt (int n)) (dv_derived_from_version v))]"

definition version_checksum :: "(string \<Rightarrow> string) \<Rightarrow> definition_version \<Rightarrow> string" where
  "version_checksum h v = checksum_of h (version_json h v)"

text \<open>Two versions with the same content: everything but the timestamp.\<close>

definition same_content :: "definition_version \<Rightarrow> definition_version \<Rightarrow> bool" where
  "same_content v w \<longleftrightarrow> v\<lparr>dv_created_at := 0\<rparr> = w\<lparr>dv_created_at := 0\<rparr>"

lemma same_content_refl [simp]: "same_content v v"
  by (simp add: same_content_def)

lemma same_content_trans: "same_content u v \<Longrightarrow> same_content v w \<Longrightarrow> same_content u w"
  by (simp add: same_content_def)

lemma same_content_sym: "same_content u v \<Longrightarrow> same_content v u"
  by (simp add: same_content_def)

lemma same_content_created [simp]: "same_content v (v\<lparr>dv_created_at := t\<rparr>)" "same_content (v\<lparr>dv_created_at := t\<rparr>) v"
  by (simp_all add: same_content_def)

lemma same_content_fields:
  assumes "same_content v w"
  shows "dv_definition_id v = dv_definition_id w" "dv_version v = dv_version w" "dv_calculation v = dv_calculation w"
    "dv_parameter_contract v = dv_parameter_contract w" "dv_title v = dv_title w"
    "dv_semantic_closed v = dv_semantic_closed w"
    "dv_derived_from_definition_id v = dv_derived_from_definition_id w"
    "dv_derived_from_version v = dv_derived_from_version w"
  using assms by (cases v; cases w; simp add: same_content_def)+

lemma same_content_checksum: "same_content v w \<Longrightarrow> version_checksum h v = version_checksum h w"
  by (simp add: version_checksum_def version_json_def same_content_fields)

record custom_definition =
  cd_definition_id :: string
  cd_owner_user_id :: string
  cd_axes :: definition_axes
  cd_current_version :: definition_version

definition mk_custom_definition :: "custom_definition \<Rightarrow> custom_definition result" where
  "mk_custom_definition d =
     validated
       [(\<not> is_definition_id (cd_definition_id d), FieldError ''definition_id''),
        (length (cd_owner_user_id d) < 1 \<or> length (cd_owner_user_id d) > 256, FieldError ''owner_user_id'')]
       d"

record definition_execution_binding =
  xb_definition_id :: string
  xb_version :: nat
  xb_definition_checksum :: string
  xb_binding :: calculation_execution_binding

definition mk_definition_execution_binding :: "definition_execution_binding \<Rightarrow> definition_execution_binding result" where
  "mk_definition_execution_binding x =
     validated
       [(\<not> is_definition_id (xb_definition_id x), FieldError ''definition_id''),
        (xb_version x < 1, FieldError ''version''),
        (\<not> is_hex64 (xb_definition_checksum x), FieldError ''definition_checksum'')]
       x"

end
