(* ===== verification/Owned_Store.thy ===== *)
theory Owned_Store
  imports Prelude
begin

text \<open>
  The contract the owner-scoped stores share: a record is returned to its owner only, and to anyone
  else the store answers exactly as if the record did not exist.  Its consequences are proved once;
  the artifact repository and the definition service interpret the locale on their own readers.
\<close>

locale owned_store =
  fixes lookup :: "'s \<Rightarrow> string \<Rightarrow> 'r option"
    and owner_of :: "'r \<Rightarrow> string"
    and fetch :: "'s \<Rightarrow> string \<Rightarrow> string \<Rightarrow> 'r result"
    and not_found :: exn
  assumes fetch_own: "lookup s k = Some r \<Longrightarrow> owner_of r = u \<Longrightarrow> fetch s u k = Inr r"
    and fetch_foreign: "lookup s k = Some r \<Longrightarrow> owner_of r \<noteq> u \<Longrightarrow> fetch s u k = Inl not_found"
    and fetch_absent: "lookup s k = None \<Longrightarrow> fetch s u k = Inl not_found"
begin

lemma fetch_iff: "fetch s u k = Inr r \<longleftrightarrow> lookup s k = Some r \<and> owner_of r = u"
  using fetch_own fetch_foreign fetch_absent
  by (metis Inr_Inl_False old.sum.distinct(1) option.exhaust sum.sel(2))

lemma fetch_cases: "(\<exists>r. fetch s u k = Inr r) \<or> fetch s u k = Inl not_found"
  using fetch_own fetch_foreign fetch_absent by (metis option.exhaust)

text \<open>Two stores that agree on what \<open>u\<close> owns answer every question of \<open>u\<close> alike.\<close>

lemma fetch_agree:
  assumes "\<And>r. owner_of r = u \<Longrightarrow> lookup s k = Some r \<longleftrightarrow> lookup t k = Some r"
  shows "fetch s u k = fetch t u k"
proof (cases "\<exists>r. fetch s u k = Inr r")
  case True
  then obtain r where r: "fetch s u k = Inr r" by blast
  then have "lookup t k = Some r" "owner_of r = u" using assms by (auto simp: fetch_iff)
  with r show ?thesis using fetch_own by simp
next
  case False
  then have "\<nexists>r. fetch t u k = Inr r" using assms by (auto simp: fetch_iff)
  with False show ?thesis using fetch_cases by metis
qed

text \<open>Replacing a record of someone else, or creating or deleting one, is invisible to \<open>u\<close>.\<close>

lemma fetch_hides_foreign:
  assumes "\<And>j. j \<noteq> k \<Longrightarrow> lookup t j = lookup s j"
    and "\<And>r. lookup s k = Some r \<Longrightarrow> owner_of r \<noteq> u" "\<And>r. lookup t k = Some r \<Longrightarrow> owner_of r \<noteq> u"
  shows "fetch t u j = fetch s u j"
  using assms by (intro fetch_agree) (cases "j = k"; auto)

end

end
