(* ===== verification/Artifact_Repository.thy ===== *)
theory Artifact_Repository
  imports Custom_Definition Owned_Store
begin

text \<open>
  The artifact contracts (\<open>artifacts/contracts.py\<close>) and the process-local artifact repository
  (\<open>artifacts/repository.py\<close>): owner-scoped envelopes whose type never changes.  The fresh UUID and the
  clock are arguments.
\<close>

datatype artifact_type = AnalysisType | CustomDefinitionType

record analysis_artifact =
  aa_title :: string
  aa_summary :: string

definition mk_analysis_artifact :: "string \<Rightarrow> string \<Rightarrow> analysis_artifact result" where
  "mk_analysis_artifact title summary =
     validated
       [(length title < 1 \<or> length title > 256, FieldError ''title''),
        (length summary < 1 \<or> length summary > 4096, FieldError ''summary'')]
       \<lparr>aa_title = title, aa_summary = summary\<rparr>"

record custom_definition_artifact =
  ca_definition_id :: string
  ca_definition_version :: nat
  ca_definition_checksum :: string

definition mk_custom_definition_artifact :: "string \<Rightarrow> nat \<Rightarrow> string \<Rightarrow> custom_definition_artifact result" where
  "mk_custom_definition_artifact i v c =
     validated
       [(length i < 1 \<or> length i > 128, FieldError ''definition_id''),
        (v < 1, FieldError ''definition_version''),
        (\<not> is_hex64 c, FieldError ''definition_checksum'')]
       \<lparr>ca_definition_id = i, ca_definition_version = v, ca_definition_checksum = c\<rparr>"

datatype payload = Analysis analysis_artifact | CustomDefinitionPayload custom_definition_artifact

fun payload_type :: "payload \<Rightarrow> artifact_type" where
  "payload_type (Analysis _) = AnalysisType"
| "payload_type (CustomDefinitionPayload _) = CustomDefinitionType"

record artifact_envelope =
  ae_artifact_id :: string
  ae_artifact_type :: artifact_type
  ae_owner_user_id :: string
  ae_thread_id :: "string option"
  ae_run_id :: "string option"
  ae_created_at :: timestamp
  ae_updated_at :: timestamp
  ae_payload :: payload

text \<open>\<open>^art_[0-9a-f]{32}$\<close>\<close>

definition is_artifact_id :: "string \<Rightarrow> bool" where
  "is_artifact_id s \<longleftrightarrow> take 4 s = ''art_'' \<and> length s = 36 \<and> list_all is_hex (drop 4 s)"

definition mk_artifact_envelope :: "artifact_envelope \<Rightarrow> artifact_envelope result" where
  "mk_artifact_envelope e =
     validated
       [(\<not> is_artifact_id (ae_artifact_id e), FieldError ''artifact_id''),
        (length (ae_owner_user_id e) < 1 \<or> length (ae_owner_user_id e) > 256, FieldError ''owner_user_id''),
        (case ae_thread_id e of None \<Rightarrow> False | Some t \<Rightarrow> length t > 128, FieldError ''thread_id''),
        (case ae_run_id e of None \<Rightarrow> False | Some t \<Rightarrow> length t > 128, FieldError ''run_id'')]
       e"

definition new_artifact_id :: "string \<Rightarrow> string" where
  "new_artifact_id uuid_hex = ''art_'' @ uuid_hex"

section \<open>The repository\<close>

type_synonym artifact_records = "(string, artifact_envelope) dict"

definition create_artifact ::
  "string \<Rightarrow> timestamp \<Rightarrow> string \<Rightarrow> payload \<Rightarrow> string option \<Rightarrow> string option \<Rightarrow> artifact_records \<Rightarrow>
   artifact_envelope result \<times> artifact_records" where
  "create_artifact uuid now owner payload thread_id run_id s =
     (if owner = [] \<or> blank owner then (Inl (ValueError ''artifact owner must be a non-blank identity''), s)
      else case mk_artifact_envelope
          \<lparr>ae_artifact_id = new_artifact_id uuid, ae_artifact_type = payload_type payload, ae_owner_user_id = owner,
           ae_thread_id = thread_id, ae_run_id = run_id, ae_created_at = now, ae_updated_at = now, ae_payload = payload\<rparr> of
        Inl e \<Rightarrow> (Inl e, s)
      | Inr record \<Rightarrow> (Inr record, dset (ae_artifact_id record) record s))"

definition get_artifact :: "artifact_records \<Rightarrow> string \<Rightarrow> string \<Rightarrow> artifact_envelope result" where
  "get_artifact s owner i =
     (case dget s i of
        None \<Rightarrow> Inl ArtifactNotFound
      | Some r \<Rightarrow> if ae_owner_user_id r \<noteq> owner then Inl ArtifactNotFound else Inr r)"

definition list_for_owner :: "artifact_records \<Rightarrow> string \<Rightarrow> artifact_envelope list" where
  "list_for_owner s owner = filter (\<lambda>r. ae_owner_user_id r = owner) (map snd s)"

definition replace_payload ::
  "timestamp \<Rightarrow> string \<Rightarrow> string \<Rightarrow> payload \<Rightarrow> artifact_records \<Rightarrow> artifact_envelope result \<times> artifact_records" where
  "replace_payload now owner i payload s =
     (case get_artifact s owner i of
        Inl e \<Rightarrow> (Inl e, s)
      | Inr current \<Rightarrow>
          if payload_type payload \<noteq> ae_artifact_type current then (Inl ArtifactTypeMismatch, s)
          else let updated = current\<lparr>ae_payload := payload, ae_updated_at := now\<rparr>
               in (Inr updated, dset i updated s))"

interpretation artifact_owner: owned_store map_of ae_owner_user_id get_artifact ArtifactNotFound
  by unfold_locales (simp_all add: get_artifact_def)

section \<open>Runs\<close>

inductive artifact_step :: "string \<Rightarrow> artifact_records \<Rightarrow> artifact_records \<Rightarrow> bool" for user where
  "dget s (new_artifact_id u) = None \<Longrightarrow> artifact_step user s (snd (create_artifact u now user p th run s))"
| "artifact_step user s (snd (replace_payload now user i p s))"

definition any_artifact_step :: "artifact_records \<Rightarrow> artifact_records \<Rightarrow> bool" where
  "any_artifact_step s t \<longleftrightarrow> (\<exists>user. artifact_step user s t)"

definition artifacts_inv :: "artifact_records \<Rightarrow> bool" where
  "artifacts_inv s \<longleftrightarrow>
     (\<forall>i r. dget s i = Some r \<longrightarrow> ae_artifact_id r = i \<and> ae_artifact_type r = payload_type (ae_payload r))"

text \<open>An envelope keeps everything but its payload and update time.\<close>

definition envelope_kept :: "artifact_envelope \<Rightarrow> artifact_envelope \<Rightarrow> bool" where
  "envelope_kept r r' \<longleftrightarrow> (\<exists>p t. r' = r\<lparr>ae_payload := p, ae_updated_at := t\<rparr>)"

definition artifacts_kept :: "artifact_records \<Rightarrow> artifact_records \<Rightarrow> bool" where
  "artifacts_kept s t \<longleftrightarrow> (\<forall>i r. dget s i = Some r \<longrightarrow> (\<exists>r'. dget t i = Some r' \<and> envelope_kept r r'))"

lemma envelope_kept_refl: "envelope_kept r r"
  unfolding envelope_kept_def by (rule exI[of _ "ae_payload r"], rule exI[of _ "ae_updated_at r"]) simp

lemma envelope_kept_trans: "envelope_kept a b \<Longrightarrow> envelope_kept b c \<Longrightarrow> envelope_kept a c"
  unfolding envelope_kept_def by (elim exE) (simp, blast)

lemma replace_payload_store:
  "snd (replace_payload now user i p s) =
     (case get_artifact s user i of
        Inr r \<Rightarrow> if payload_type p = ae_artifact_type r then dset i (r\<lparr>ae_payload := p, ae_updated_at := now\<rparr>) s else s
      | Inl e \<Rightarrow> s)"
  by (auto simp: replace_payload_def Let_def split: sum.splits)

lemma create_artifact_store:
  "snd (create_artifact u now user p th run s) = s \<or>
   (\<exists>r. ae_artifact_id r = new_artifact_id u \<and> ae_artifact_type r = payload_type (ae_payload r) \<and> ae_owner_user_id r = user \<and>
        snd (create_artifact u now user p th run s) = dset (new_artifact_id u) r s)"
proof (cases "fst (create_artifact u now user p th run s)")
  case (Inr r)
  then show ?thesis
    by (intro disjI2 exI[of _ r]) (auto simp: create_artifact_def mk_artifact_envelope_def validated_eval split: sum.splits if_splits)
qed (auto simp: create_artifact_def split: sum.splits if_splits)

lemma artifact_step_inv: "artifact_step user s t \<Longrightarrow> artifacts_inv s \<Longrightarrow> artifacts_inv t \<and> artifacts_kept s t"
proof (induction rule: artifact_step.induct)
  case (1 s u now p th run)
  then show ?case
    using create_artifact_store[of u now user p th run s] envelope_kept_refl
    by (auto simp: artifacts_inv_def artifacts_kept_def split: if_splits)
next
  case (2 s now i p)
  show ?case
  proof (cases "get_artifact s user i")
    case (Inr r)
    then have r: "dget s i = Some r" by (simp add: artifact_owner.fetch_iff)
    have "envelope_kept r (r\<lparr>ae_payload := p, ae_updated_at := now\<rparr>)" by (auto simp: envelope_kept_def)
    then show ?thesis using 2 Inr r envelope_kept_refl
      by (auto simp: replace_payload_store artifacts_inv_def artifacts_kept_def)
  qed (use 2 envelope_kept_refl in \<open>auto simp: replace_payload_store artifacts_kept_def\<close>)
qed

interpretation artifact_sys: preserved_relation "\<lambda>s. s = []" any_artifact_step artifacts_inv artifacts_kept
proof unfold_locales
  fix s t u assume "artifacts_kept s t" "artifacts_kept t u"
  then show "artifacts_kept s u" unfolding artifacts_kept_def using envelope_kept_trans by blast
qed (auto simp: any_artifact_step_def artifacts_inv_def artifacts_kept_def intro: envelope_kept_refl dest: artifact_step_inv)

text \<open>An artifact's identity, owner, type and provenance are fixed at creation: in every later state the
  record exists with only its payload and update time possibly different, and the payload always has
  the declared type.\<close>

theorem artifact_type_and_owner_fixed:
  assumes "any_artifact_step\<^sup>*\<^sup>* [] s" "any_artifact_step\<^sup>*\<^sup>* s t" "dget s i = Some r"
  shows "\<exists>r'. dget t i = Some r' \<and> envelope_kept r r' \<and> ae_artifact_type r = payload_type (ae_payload r')"
proof -
  have inv: "artifacts_inv s" by (rule artifact_sys.reachable_inv[OF refl assms(1)])
  obtain r' where r': "dget t i = Some r'" "envelope_kept r r'"
    using artifact_sys.steps_rel[OF assms(2) inv] assms(3) by (auto simp: artifacts_kept_def)
  have "artifacts_inv t" by (rule artifact_sys.steps_inv[OF assms(2) inv])
  then have "ae_artifact_type r' = payload_type (ae_payload r')" using r'(1) by (simp add: artifacts_inv_def)
  moreover have "ae_artifact_type r' = ae_artifact_type r" using r'(2) by (auto simp: envelope_kept_def)
  ultimately show ?thesis using r' by auto
qed

text \<open>C19. No existence oracle: whatever other users do, the answers to one user do not change, and what a user
  does to an artifact of someone else is refused exactly as if it did not exist.\<close>

theorem foreign_artifact_invisible:
  assumes "artifact_step other s t" "other \<noteq> user"
  shows "get_artifact t user i = get_artifact s user i \<and>
    (fst (replace_payload now user j p s) = Inl ArtifactNotFound \<longleftrightarrow>
       \<not> (\<exists>r. dget s j = Some r \<and> ae_owner_user_id r = user)) \<and>
    (\<not> (\<exists>r. dget s j = Some r \<and> ae_owner_user_id r = user) \<longrightarrow> snd (replace_payload now user j p s) = s)"
proof -
  have "get_artifact t user i = get_artifact s user i"
    using assms
  proof (induction rule: artifact_step.induct)
    case (1 s u now p th run)
    from create_artifact_store[of u now other p th run s] show ?case
    proof
      assume "\<exists>r. ae_artifact_id r = new_artifact_id u \<and> ae_artifact_type r = payload_type (ae_payload r) \<and> ae_owner_user_id r = other \<and>
        snd (create_artifact u now other p th run s) = dset (new_artifact_id u) r s"
      then show ?thesis using 1
        by (intro artifact_owner.fetch_hides_foreign[of "new_artifact_id u"]) auto
    qed simp
  next
    case (2 s now k p)
    show ?case
    proof (cases "get_artifact s other k")
      case (Inr r)
      then have r: "dget s k = Some r" "ae_owner_user_id r = other" by (simp_all add: artifact_owner.fetch_iff)
      show ?thesis using Inr r 2
        by (intro artifact_owner.fetch_hides_foreign[of k]) (auto simp: replace_payload_store split: if_splits)
    qed (simp add: replace_payload_store)
  qed
  moreover have "fst (replace_payload now user j p s) = Inl ArtifactNotFound \<longleftrightarrow> (\<nexists>r. get_artifact s user j = Inr r)"
    "(\<nexists>r. get_artifact s user j = Inr r) \<longrightarrow> snd (replace_payload now user j p s) = s"
    using artifact_owner.fetch_cases[of s user j] by (auto simp: replace_payload_def Let_def split: if_splits)
  ultimately show ?thesis by (simp add: artifact_owner.fetch_iff)
qed

section \<open>Samples\<close>

definition sample_payload :: payload where
  "sample_payload = Analysis \<lparr>aa_title = ''t'', aa_summary = ''s''\<rparr>"

definition sample_artifacts :: artifact_records where
  "sample_artifacts = snd (create_artifact (replicate 32 CHR ''1'') 5 ''alice'' sample_payload None None [])"

definition sample_artifact_id :: string where
  "sample_artifact_id = new_artifact_id (replicate 32 CHR ''1'')"

lemma sample_artifact_step: "artifact_step ''alice'' [] sample_artifacts"
  unfolding sample_artifacts_def by (rule artifact_step.intros) simp

lemma sample_artifact_get:
  "map_option ae_owner_user_id (dget sample_artifacts sample_artifact_id) = Some ''alice''"
  by code_simp

theorem artifact_type_and_owner_fixed_witness:
  "case dget (snd (replace_payload 9 ''alice'' sample_artifact_id (Analysis \<lparr>aa_title = ''u'', aa_summary = ''v''\<rparr>) sample_artifacts)) sample_artifact_id of
     None \<Rightarrow> False | Some r \<Rightarrow> ae_owner_user_id r = ''alice''"
proof -
  let ?t = "snd (replace_payload 9 ''alice'' sample_artifact_id (Analysis \<lparr>aa_title = ''u'', aa_summary = ''v''\<rparr>) sample_artifacts)"
  obtain r where r: "dget sample_artifacts sample_artifact_id = Some r" "ae_owner_user_id r = ''alice''"
    using sample_artifact_get by auto
  have "any_artifact_step\<^sup>*\<^sup>* [] sample_artifacts" 
    by (rule r_into_rtranclp) (use sample_artifact_step in \<open>auto simp: any_artifact_step_def\<close>)
  moreover have "any_artifact_step\<^sup>*\<^sup>* sample_artifacts ?t"
    by (rule r_into_rtranclp) (unfold any_artifact_step_def, blast intro: artifact_step.intros)
  ultimately show ?thesis
    using artifact_type_and_owner_fixed[of sample_artifacts ?t, OF _ _ r(1)] r(2) by (auto simp: envelope_kept_def)
qed

theorem foreign_artifact_invisible_witness:
  "get_artifact sample_artifacts ''bob'' sample_artifact_id = get_artifact [] ''bob'' sample_artifact_id"
  using foreign_artifact_invisible[OF sample_artifact_step, of "''bob''" sample_artifact_id] by simp

end
