(* ===== verification/Definition_Service.thy ===== *)
theory Definition_Service
  imports Custom_Definition
begin

text \<open>
  The custom definition service (\<open>artifacts/service.py\<close>).  Its four dictionaries are the record
  \<open>definition_store\<close>; every operation takes the store and returns the outcome together with the
  store it leaves, so that what a failing operation already wrote stays visible.  The clock, the
  fresh UUID, the SHA-256 function and the metric resolver are arguments.
\<close>

section \<open>The store\<close>

record definition_store =
  st_definitions :: "(string, custom_definition) dict"
  st_drafts :: "(string, definition_version) dict"
  st_versions :: "(string \<times> nat, definition_version) dict"
  st_lifecycle :: "(string \<times> nat, version_lifecycle) dict"

definition empty_store :: definition_store where
  "empty_store = \<lparr>st_definitions = [], st_drafts = [], st_versions = [], st_lifecycle = []\<rparr>"

type_synonym 'a operation = "definition_store \<Rightarrow> 'a result \<times> definition_store"

definition owned :: "definition_store \<Rightarrow> string \<Rightarrow> string \<Rightarrow> custom_definition result" where
  "owned s owner i =
     (case dget (st_definitions s) i of
        None \<Rightarrow> Inl DefinitionNotFound
      | Some d \<Rightarrow> if cd_owner_user_id d \<noteq> owner then Inl DefinitionNotFound else Inr d)"

definition get_owned_definition :: "definition_store \<Rightarrow> string \<Rightarrow> string \<Rightarrow> custom_definition result" where
  "get_owned_definition s owner i = owned s owner i"

definition get_exact_version :: "definition_store \<Rightarrow> string \<Rightarrow> string \<Rightarrow> nat \<Rightarrow> definition_version result" where
  "get_exact_version s owner i v =
     (case owned s owner i of
        Inl e \<Rightarrow> Inl e
      | Inr current \<Rightarrow>
          (case dget (st_versions s) (i, v) of
             Some exact \<Rightarrow> Inr exact
           | None \<Rightarrow>
               (case dget (st_drafts s) i of
                  Some draft \<Rightarrow>
                    if dv_version draft = v then Inr draft
                    else if dv_version (cd_current_version current) = v then Inr (cd_current_version current)
                    else Inl DefinitionNotFound
                | None \<Rightarrow>
                    if dv_version (cd_current_version current) = v then Inr (cd_current_version current)
                    else Inl DefinitionNotFound)))"

definition get_version_lifecycle :: "definition_store \<Rightarrow> string \<Rightarrow> string \<Rightarrow> nat \<Rightarrow> version_lifecycle result" where
  "get_version_lifecycle s owner i v =
     (case get_exact_version s owner i v of
        Inl e \<Rightarrow> Inl e
      | Inr exact \<Rightarrow>
          (case dget (st_lifecycle s) (i, v) of
             Some recorded \<Rightarrow> Inr recorded
           | None \<Rightarrow>
               if dv_semantic_closed exact \<and> dget (st_versions s) (i, v) \<noteq> None
               then Inr \<lparr>lc_confirmation = CONFIRMED, lc_retention = SAVED\<rparr>
               else Inr default_lifecycle))"

section \<open>Lifecycle operations\<close>

text \<open>
  Storing a new private definition at version 1: the draft and its lifecycle are written before the
  definition record is validated.
\<close>

definition store_new :: "string \<Rightarrow> definition_version \<Rightarrow> definition_version operation" where
  "store_new owner draft s =
     (let i = dv_definition_id draft;
          s1 = s\<lparr>st_drafts := dset i draft (st_drafts s),
                 st_lifecycle := dset (i, dv_version draft) default_lifecycle (st_lifecycle s)\<rparr>
      in case mk_custom_definition \<lparr>cd_definition_id = i, cd_owner_user_id = owner, cd_axes = default_axes,
                                    cd_current_version = draft\<rparr> of
           Inl e \<Rightarrow> (Inl e, s1)
         | Inr d \<Rightarrow> (Inr draft, s1\<lparr>st_definitions := dset i d (st_definitions s1)\<rparr>))"

definition create_draft ::
  "string \<Rightarrow> timestamp \<Rightarrow> string \<Rightarrow> string \<Rightarrow> calculation_spec \<Rightarrow> parameter_contract option \<Rightarrow> definition_version operation" where
  "create_draft uuid now owner title calculation contract s =
     (if owner = [] \<or> blank owner then (Inl (ValueError ''definition owner must be a non-blank identity''), s)
      else case mk_definition_version
          \<lparr>dv_definition_id = new_definition_id uuid, dv_version = 1, dv_calculation = calculation,
           dv_parameter_contract = (case contract of None \<Rightarrow> derive_parameter_contract calculation | Some p \<Rightarrow> p),
           dv_title = title, dv_semantic_closed = False, dv_derived_from_definition_id = None,
           dv_derived_from_version = None, dv_created_at = now\<rparr> of
        Inl e \<Rightarrow> (Inl e, s)
      | Inr draft \<Rightarrow> store_new owner draft s)"

definition create_fork ::
  "string \<Rightarrow> timestamp \<Rightarrow> string \<Rightarrow> string \<Rightarrow> calculation_spec \<Rightarrow> string \<Rightarrow> nat \<Rightarrow> definition_version operation" where
  "create_fork uuid now owner title calculation source_id source_version s =
     (case mk_definition_version
          \<lparr>dv_definition_id = new_definition_id uuid, dv_version = 1, dv_calculation = calculation,
           dv_parameter_contract = derive_parameter_contract calculation, dv_title = title,
           dv_semantic_closed = False, dv_derived_from_definition_id = Some source_id,
           dv_derived_from_version = Some source_version, dv_created_at = now\<rparr> of
        Inl e \<Rightarrow> (Inl e, s)
      | Inr fork \<Rightarrow> store_new owner fork s)"

text \<open>The draft dictionary is indexed, so an absent draft is a \<open>KeyError\<close>.\<close>

definition draft_of :: "definition_store \<Rightarrow> string \<Rightarrow> definition_version result" where
  "draft_of s i = (case dget (st_drafts s) i of None \<Rightarrow> Inl (KeyError i) | Some d \<Rightarrow> Inr d)"

definition put_current :: "string \<Rightarrow> custom_definition \<Rightarrow> definition_store \<Rightarrow> definition_store" where
  "put_current i d s = s\<lparr>st_definitions := dset i d (st_definitions s)\<rparr>"

text \<open>The version an update asks for, before it is validated.\<close>

definition updated_draft ::
  "(string \<Rightarrow> string) \<Rightarrow> calculation_spec option \<Rightarrow> parameter_contract option \<Rightarrow> string option \<Rightarrow>
   definition_version \<Rightarrow> definition_version" where
  "updated_draft h calculation contract title draft =
     (let new_calculation = (case calculation of None \<Rightarrow> dv_calculation draft | Some c \<Rightarrow> c);
          calculation_changed = (spec_checksum h new_calculation \<noteq> spec_checksum h (dv_calculation draft));
          new_contract = (case contract of
              Some p \<Rightarrow> p
            | None \<Rightarrow> if calculation_changed then derive_parameter_contract new_calculation
                      else dv_parameter_contract draft);
          inputs_changed = (calculation_changed \<or>
              parameter_contract_checksum h new_contract \<noteq> parameter_contract_checksum h (dv_parameter_contract draft))
      in draft\<lparr>dv_calculation := new_calculation, dv_parameter_contract := new_contract,
               dv_title := (case title of None \<Rightarrow> dv_title draft | Some t \<Rightarrow> t),
               dv_semantic_closed := (if inputs_changed then False else dv_semantic_closed draft)\<rparr>)"

definition update_draft ::
  "(string \<Rightarrow> string) \<Rightarrow> string \<Rightarrow> string \<Rightarrow> calculation_spec option \<Rightarrow> parameter_contract option \<Rightarrow> string option \<Rightarrow>
   definition_version operation" where
  "update_draft h owner i calculation contract title s =
     (case owned s owner i of Inl e \<Rightarrow> (Inl e, s) | Inr current \<Rightarrow>
      if ax_confirmation (cd_axes current) = CONFIRMED
      then (Inl (ValueError ''confirmed definition requires a new version''), s)
      else case draft_of s i of Inl e \<Rightarrow> (Inl e, s) | Inr draft \<Rightarrow>
      case mk_definition_version (updated_draft h calculation contract title draft) of
        Inl e \<Rightarrow> (Inl e, s)
      | Inr updated \<Rightarrow>
          (Inr updated,
           put_current i (current\<lparr>cd_current_version := updated\<rparr>)
             (s\<lparr>st_drafts := dset i updated (st_drafts s)\<rparr>)))"

definition confirm :: "timestamp \<Rightarrow> string \<Rightarrow> string \<Rightarrow> custom_definition operation" where
  "confirm now owner i s =
     (case owned s owner i of Inl e \<Rightarrow> (Inl e, s) | Inr current \<Rightarrow>
      case draft_of s i of Inl e \<Rightarrow> (Inl e, s) | Inr draft \<Rightarrow>
      if \<not> dv_semantic_closed draft then (Inl (ValueError ''confirm requires semantic closure''), s)
      else
        let v = draft\<lparr>dv_created_at := now\<rparr>;
            confirmed = current\<lparr>cd_axes := (cd_axes current)\<lparr>ax_confirmation := CONFIRMED\<rparr>, cd_current_version := v\<rparr>
        in (Inr confirmed,
            put_current i confirmed
              (s\<lparr>st_versions := dset (i, dv_version v) v (st_versions s),
                 st_lifecycle := dset (i, dv_version v) \<lparr>lc_confirmation = CONFIRMED, lc_retention = SESSION\<rparr>
                   (st_lifecycle s)\<rparr>)))"

definition save :: "string \<Rightarrow> string \<Rightarrow> custom_definition operation" where
  "save owner i s =
     (case owned s owner i of Inl e \<Rightarrow> (Inl e, s) | Inr current \<Rightarrow>
      if ax_confirmation (cd_axes current) \<noteq> CONFIRMED then (Inl (ValueError ''SAVED requires CONFIRMED''), s)
      else if \<not> dv_semantic_closed (cd_current_version current)
      then (Inl (ValueError ''SAVED requires semantic closure''), s)
      else
        let saved = current\<lparr>cd_axes := (cd_axes current)\<lparr>ax_retention := SAVED\<rparr>\<rparr>
        in (Inr saved,
            (put_current i saved s)\<lparr>st_lifecycle :=
               dset (i, dv_version (cd_current_version current)) \<lparr>lc_confirmation = CONFIRMED, lc_retention = SAVED\<rparr>
                 (st_lifecycle s)\<rparr>))"

text \<open>The checks of \<open>mark_semantic_closed\<close> on one input, in the order of the loop body.\<close>

definition closure_input_checks :: "(string \<Rightarrow> bool) \<Rightarrow> calculation_input_spec \<Rightarrow> (bool \<times> exn) list" where
  "closure_input_checks governed inp =
     [(ci_provenance inp = AdHocMetric, ValueError ''semantic closure rejects a run-scoped noncanonical input''),
      (ci_provenance inp = PublishedGold \<and> (case ci_metric_key inp of None \<Rightarrow> True | Some k \<Rightarrow> \<not> governed k),
       ValueError ''semantic closure requires an existing eligible published_gold metric''),
      (ci_provenance inp \<in> {DefinitionBackedComputed, ProductPublishedState},
       ValueError ''semantic closure provenance authority is unavailable'')]"

definition mark_semantic_closed :: "(string \<Rightarrow> bool) \<Rightarrow> string \<Rightarrow> string \<Rightarrow> definition_version operation" where
  "mark_semantic_closed governed owner i s =
     (case owned s owner i of Inl e \<Rightarrow> (Inl e, s) | Inr current \<Rightarrow>
      if ax_confirmation (cd_axes current) = CONFIRMED then (Inl (ValueError ''a confirmed version is immutable''), s)
      else case draft_of s i of Inl e \<Rightarrow> (Inl e, s) | Inr draft \<Rightarrow>
      case validated
          ((dv_parameter_contract draft \<noteq> cs_parameters (dv_calculation draft),
            ValueError ''semantic closure requires a coherent parameter contract'')
           # concat (map (closure_input_checks governed) (cs_inputs (dv_calculation draft)))) () of
        Inl e \<Rightarrow> (Inl e, s)
      | Inr _ \<Rightarrow>
          if dv_semantic_closed draft then (Inr draft, s)
          else
            let closed = draft\<lparr>dv_semantic_closed := True\<rparr>
            in (Inr closed,
                put_current i (current\<lparr>cd_current_version := closed\<rparr>)
                  (s\<lparr>st_drafts := dset i closed (st_drafts s)\<rparr>)))"

definition project_published :: "string \<Rightarrow> string \<Rightarrow> nat \<Rightarrow> unit operation" where
  "project_published owner i v s =
     (case owned s owner i of Inl e \<Rightarrow> (Inl e, s) | Inr current \<Rightarrow>
      if dv_version (cd_current_version current) \<noteq> v then (Inr (), s)
      else
        let axes = cd_axes current in
        if ax_confirmation axes \<noteq> CONFIRMED \<or> ax_retention axes \<noteq> SAVED
        then (Inl (ValueError ''publication projection requires CONFIRMED and SAVED''), s)
        else (Inr (), put_current i
               (current\<lparr>cd_axes := axes\<lparr>ax_publication := PUBLISHED, ax_certification := UNCERTIFIED\<rparr>\<rparr>) s))"

definition project_certified :: "string \<Rightarrow> string \<Rightarrow> unit operation" where
  "project_certified owner i s =
     (case owned s owner i of Inl e \<Rightarrow> (Inl e, s) | Inr current \<Rightarrow>
      if ax_publication (cd_axes current) \<noteq> PUBLISHED
      then (Inl (ValueError ''certification projection requires PUBLISHED''), s)
      else (Inr (), put_current i (current\<lparr>cd_axes := (cd_axes current)\<lparr>ax_certification := CERTIFIED\<rparr>\<rparr>) s))"

definition create_revision :: "timestamp \<Rightarrow> string \<Rightarrow> string \<Rightarrow> definition_version operation" where
  "create_revision now owner i s =
     (case owned s owner i of Inl e \<Rightarrow> (Inl e, s) | Inr current \<Rightarrow>
      if ax_confirmation (cd_axes current) \<noteq> CONFIRMED
      then (Inl (ValueError ''revision requires a confirmed definition''), s)
      else
        let prior = cd_current_version current in
        case mk_definition_version
            \<lparr>dv_definition_id = i, dv_version = dv_version prior + 1, dv_calculation = dv_calculation prior,
             dv_parameter_contract = dv_parameter_contract prior, dv_title = dv_title prior,
             dv_semantic_closed = False, dv_derived_from_definition_id = Some (dv_definition_id prior),
             dv_derived_from_version = Some (dv_version prior), dv_created_at = now\<rparr> of
          Inl e \<Rightarrow> (Inl e, s)
        | Inr revision \<Rightarrow>
            (Inr revision,
             put_current i (current\<lparr>cd_axes := default_axes, cd_current_version := revision\<rparr>)
               (s\<lparr>st_drafts := dset i revision (st_drafts s),
                  st_lifecycle := dset (i, dv_version revision) default_lifecycle (st_lifecycle s)\<rparr>)))"

section \<open>Readers\<close>

definition list_owned :: "definition_store \<Rightarrow> string \<Rightarrow> custom_definition list" where
  "list_owned s owner = filter (\<lambda>d. cd_owner_user_id d = owner) (map snd (st_definitions s))"

definition is_saved :: "definition_store \<Rightarrow> string \<Rightarrow> nat \<Rightarrow> bool" where
  "is_saved s i v = (case dget (st_lifecycle s) (i, v) of None \<Rightarrow> False | Some l \<Rightarrow> lc_retention l = SAVED)"

definition list_saved_versions :: "definition_store \<Rightarrow> string \<Rightarrow> string \<Rightarrow> definition_version list result" where
  "list_saved_versions s owner i =
     (case owned s owner i of
        Inl e \<Rightarrow> Inl e
      | Inr current \<Rightarrow>
          let versions = fold (\<lambda>((j, v), exact) d. if j = i \<and> is_saved s j v then dset v exact d else d) (st_versions s) [];
              cur = cd_current_version current;
              versions' = (if is_saved s i (dv_version cur) then dset (dv_version cur) cur versions else versions)
          in Inr (map snd (sort_key fst versions')))"

definition execute_version ::
  "(string \<Rightarrow> string) \<Rightarrow> definition_store \<Rightarrow> string \<Rightarrow> string \<Rightarrow> nat \<Rightarrow> definition_execution_binding \<Rightarrow> definition_version result" where
  "execute_version h s owner i v b =
     (case get_exact_version s owner i v of
        Inl e \<Rightarrow> Inl e
      | Inr exact \<Rightarrow>
          validated
            [(xb_definition_id b \<noteq> dv_definition_id exact, ValueError ''execution binding definition id mismatch''),
             (xb_version b \<noteq> dv_version exact, ValueError ''execution binding version mismatch''),
             (xb_definition_checksum b \<noteq> version_checksum h exact, ValueError ''execution binding checksum mismatch''),
             (binding_failures h (xb_binding b) (dv_calculation exact) \<noteq> [],
              ValueError ''execution binding parameter failures'')]
            exact)"

section \<open>What the store says of one identity\<close>

text \<open>
  Every operation touches one identity.  \<open>view_of s i\<close> is all the store holds about \<open>i\<close>; the invariant
  speaks of views only.
\<close>

record id_view =
  iv_definition :: "custom_definition option"
  iv_draft :: "definition_version option"
  iv_versions :: "nat \<rightharpoonup> definition_version"
  iv_lifecycle :: "nat \<rightharpoonup> version_lifecycle"

definition view_of :: "definition_store \<Rightarrow> string \<Rightarrow> id_view" where
  "view_of s i = \<lparr>iv_definition = dget (st_definitions s) i, iv_draft = dget (st_drafts s) i,
     iv_versions = (\<lambda>v. dget (st_versions s) (i, v)), iv_lifecycle = (\<lambda>v. dget (st_lifecycle s) (i, v))\<rparr>"

lemma view_of_updates [simp]:
  "view_of (s\<lparr>st_definitions := dset i d D\<rparr>) j =
     (if j = i then (view_of (s\<lparr>st_definitions := D\<rparr>) j)\<lparr>iv_definition := Some d\<rparr> else view_of (s\<lparr>st_definitions := D\<rparr>) j)"
  "view_of (s\<lparr>st_drafts := dset i x R\<rparr>) j =
     (if j = i then (view_of (s\<lparr>st_drafts := R\<rparr>) j)\<lparr>iv_draft := Some x\<rparr> else view_of (s\<lparr>st_drafts := R\<rparr>) j)"
  "view_of (s\<lparr>st_versions := dset (i, v) x V\<rparr>) j =
     (if j = i then (view_of (s\<lparr>st_versions := V\<rparr>) j)\<lparr>iv_versions := (iv_versions (view_of (s\<lparr>st_versions := V\<rparr>) j))(v \<mapsto> x)\<rparr>
      else view_of (s\<lparr>st_versions := V\<rparr>) j)"
  "view_of (s\<lparr>st_lifecycle := dset (i, v) l L\<rparr>) j =
     (if j = i then (view_of (s\<lparr>st_lifecycle := L\<rparr>) j)\<lparr>iv_lifecycle := (iv_lifecycle (view_of (s\<lparr>st_lifecycle := L\<rparr>) j))(v \<mapsto> l)\<rparr>
      else view_of (s\<lparr>st_lifecycle := L\<rparr>) j)"
  by (auto simp: view_of_def fun_eq_iff)

lemma view_of_fields [simp]:
  "iv_definition (view_of s i) = dget (st_definitions s) i" "iv_draft (view_of s i) = dget (st_drafts s) i"
  "iv_versions (view_of s i) v = dget (st_versions s) (i, v)" "iv_lifecycle (view_of s i) v = dget (st_lifecycle s) (i, v)"
  by (simp_all add: view_of_def)

definition coherent :: "definition_version \<Rightarrow> bool" where
  "coherent v \<longleftrightarrow> dv_parameter_contract v = cs_parameters (dv_calculation v)"

text \<open>The invariant of one identity with its definition \<open>d\<close> and draft \<open>r\<close>.\<close>

definition definition_ok :: "string \<Rightarrow> id_view \<Rightarrow> custom_definition \<Rightarrow> definition_version \<Rightarrow> bool" where
  "definition_ok i w d r \<longleftrightarrow>
     is_definition_id i \<and> cd_definition_id d = i \<and> axes_ok (cd_axes d) \<and> dv_definition_id r = i \<and> coherent r \<and>
     same_content r (cd_current_version d) \<and>
     (\<forall>v. v > dv_version r \<longrightarrow> iv_versions w v = None) \<and>
     (\<forall>l. iv_lifecycle w (dv_version r) = Some l \<and> lc_retention l = SAVED \<longrightarrow> ax_retention (cd_axes d) = SAVED) \<and>
     (if ax_confirmation (cd_axes d) = CONFIRMED
      then dv_semantic_closed r \<and> iv_versions w (dv_version r) = Some (cd_current_version d) \<and>
           (\<exists>l. iv_lifecycle w (dv_version r) = Some l \<and> lc_confirmation l = CONFIRMED)
      else cd_current_version d = r \<and> iv_versions w (dv_version r) = None \<and>
           iv_lifecycle w (dv_version r) = Some default_lifecycle)"

definition view_ok :: "string \<Rightarrow> id_view \<Rightarrow> bool" where
  "view_ok i w \<longleftrightarrow>
     (case iv_definition w of
        None \<Rightarrow> (\<forall>v. iv_versions w v = None)
      | Some d \<Rightarrow> (case iv_draft w of None \<Rightarrow> False | Some r \<Rightarrow> definition_ok i w d r)) \<and>
     (\<forall>v x. iv_versions w v = Some x \<longrightarrow>
        dv_definition_id x = i \<and> dv_version x = v \<and> dv_semantic_closed x \<and> coherent x \<and> iv_lifecycle w v \<noteq> None) \<and>
     (\<forall>v l. iv_lifecycle w v = Some l \<longrightarrow> validate_lifecycle l = Inr l)"

definition store_inv :: "definition_store \<Rightarrow> bool" where
  "store_inv s \<longleftrightarrow> (\<forall>i. view_ok i (view_of s i))"

text \<open>Confirmed versions keep their content, definitions their owner, and what is recorded of versions
  before the current one does not change at all.\<close>

definition view_keeps :: "id_view \<Rightarrow> id_view \<Rightarrow> bool" where
  "view_keeps w w' \<longleftrightarrow>
     (\<forall>v x. iv_versions w v = Some x \<longrightarrow> (\<exists>y. iv_versions w' v = Some y \<and> same_content x y)) \<and>
     (\<forall>d. iv_definition w = Some d \<longrightarrow>
        (\<exists>d'. iv_definition w' = Some d' \<and> cd_owner_user_id d' = cd_owner_user_id d \<and>
              dv_version (cd_current_version d) \<le> dv_version (cd_current_version d')) \<and>
        (\<forall>v < dv_version (cd_current_version d).
           iv_lifecycle w' v = iv_lifecycle w v \<and> iv_versions w' v = iv_versions w v))"

definition store_keeps :: "definition_store \<Rightarrow> definition_store \<Rightarrow> bool" where
  "store_keeps s t \<longleftrightarrow> (\<forall>i. view_keeps (view_of s i) (view_of t i))"

lemma view_keeps_refl [simp]: "view_keeps w w"
  by (auto simp: view_keeps_def)

lemma view_keeps_trans:
  assumes uv: "view_keeps u v" and vw: "view_keeps v w"
  shows "view_keeps u w"
  unfolding view_keeps_def
proof (intro conjI allI impI)
  show "\<exists>y. iv_versions w n = Some y \<and> same_content x y" if x: "iv_versions u n = Some x" for n x
  proof -
    obtain y where "iv_versions v n = Some y" "same_content x y" using uv x unfolding view_keeps_def by blast
    moreover from this obtain z where "iv_versions w n = Some z" "same_content y z"
      using vw unfolding view_keeps_def by blast
    ultimately show ?thesis using same_content_trans by blast
  qed
  fix d assume d: "iv_definition u = Some d"
  obtain e where e: "iv_definition v = Some e" "cd_owner_user_id e = cd_owner_user_id d"
    "dv_version (cd_current_version d) \<le> dv_version (cd_current_version e)"
    using uv d unfolding view_keeps_def by blast
  obtain f where f: "iv_definition w = Some f" "cd_owner_user_id f = cd_owner_user_id e"
    "dv_version (cd_current_version e) \<le> dv_version (cd_current_version f)"
    using vw e(1) unfolding view_keeps_def by blast
  show "\<exists>d'. iv_definition w = Some d' \<and> cd_owner_user_id d' = cd_owner_user_id d \<and>
      dv_version (cd_current_version d) \<le> dv_version (cd_current_version d')"
    using e f by auto
  fix n assume n: "n < dv_version (cd_current_version d)"
  then have "n < dv_version (cd_current_version e)" using e(3) by simp
  then show "iv_lifecycle w n = iv_lifecycle u n" "iv_versions w n = iv_versions u n"
    using uv vw d e(1) n unfolding view_keeps_def by metis+
qed

lemma view_keepsD:
  assumes "view_keeps (view_of s i) (view_of t i)"
  shows "dget (st_versions s) (i, v) = Some x \<Longrightarrow> \<exists>y. dget (st_versions t) (i, v) = Some y \<and> same_content x y"
    "dget (st_definitions s) i = Some d \<Longrightarrow>
       \<exists>d'. dget (st_definitions t) i = Some d' \<and> cd_owner_user_id d' = cd_owner_user_id d"
    "dget (st_definitions s) i = Some d \<Longrightarrow> v < dv_version (cd_current_version d) \<Longrightarrow>
       dget (st_lifecycle t) (i, v) = dget (st_lifecycle s) (i, v) \<and> dget (st_versions t) (i, v) = dget (st_versions s) (i, v)"
  using assms unfolding view_keeps_def view_of_fields by blast+

text \<open>A transition of the store that is good for one identity and leaves the others alone.\<close>

definition step_at :: "string \<Rightarrow> definition_store \<Rightarrow> definition_store \<Rightarrow> bool" where
  "step_at i s t \<longleftrightarrow> (\<forall>j. j \<noteq> i \<longrightarrow> view_of t j = view_of s j) \<and>
     (view_ok i (view_of s i) \<longrightarrow> view_ok i (view_of t i) \<and> view_keeps (view_of s i) (view_of t i))"

lemma step_at_refl [simp]: "step_at i s s"
  by (simp add: step_at_def)

lemma step_at_inv: "step_at i s t \<Longrightarrow> store_inv s \<Longrightarrow> store_inv t \<and> store_keeps s t"
  unfolding step_at_def store_inv_def store_keeps_def by (metis view_keeps_refl)

lemma ownedE:
  assumes "owned s owner i = Inr d"
  shows "dget (st_definitions s) i = Some d" "cd_owner_user_id d = owner"
  using assms by (auto simp: owned_def split: option.splits if_splits)

lemma view_ok_definition:
  assumes "view_ok i (view_of s i)" "owned s owner i = Inr d"
  obtains r where "dget (st_drafts s) i = Some r" "definition_ok i (view_of s i) d r"
  using assms ownedE(1)[OF assms(2)] by (auto simp: view_ok_def split: option.splits)

lemma mk_definition_version_ok: "mk_definition_version v = Inr w \<Longrightarrow> w = v \<and> coherent v"
  by (auto simp: mk_definition_version_def coherent_def)

lemma default_lifecycle_session [simp]: "lc_retention default_lifecycle = SESSION"
  by (simp add: default_lifecycle_def)

lemma lifecycle_values_ok:
  "validate_lifecycle default_lifecycle = Inr default_lifecycle"
  "validate_lifecycle \<lparr>lc_confirmation = CONFIRMED, lc_retention = r\<rparr> = Inr \<lparr>lc_confirmation = CONFIRMED, lc_retention = r\<rparr>"
  by (simp_all add: validate_lifecycle_def default_lifecycle_def)

section \<open>Every operation is a good step\<close>

lemma view_of_put_current:
  "view_of (put_current i d s) j = (if j = i then (view_of s i)\<lparr>iv_definition := Some d\<rparr> else view_of s j)"
  by (simp add: put_current_def)

text \<open>Changing only the definition record, keeping its identity, owner, confirmation and version.\<close>

lemma step_put_axes:
  assumes "owned s owner i = Inr d" "axes_ok a" "ax_confirmation a = ax_confirmation (cd_axes d)"
    "ax_retention (cd_axes d) = SAVED \<Longrightarrow> ax_retention a = SAVED"
  shows "step_at i s (put_current i (d\<lparr>cd_axes := a\<rparr>) s)"
  unfolding step_at_def
proof (intro conjI impI allI)
  assume ok: "view_ok i (view_of s i)"
  obtain r where r: "dget (st_drafts s) i = Some r" "definition_ok i (view_of s i) d r"
    using view_ok_definition[OF ok assms(1)] .
  show "view_ok i (view_of (put_current i (d\<lparr>cd_axes := a\<rparr>) s) i)"
    using ok r assms(2,3,4) by (auto simp: view_of_put_current view_ok_def definition_ok_def)
  show "view_keeps (view_of s i) (view_of (put_current i (d\<lparr>cd_axes := a\<rparr>) s) i)"
    using ownedE(1)[OF assms(1)] by (auto simp: view_of_put_current view_keeps_def)
qed (simp add: view_of_put_current)

lemma step_store_new:
  assumes fresh: "dget (st_drafts s) (dv_definition_id v) = None" and v: "coherent v"
  shows "step_at (dv_definition_id v) s (snd (store_new owner v s))"
proof -
  let ?i = "dv_definition_id v"
  have undefined: "view_ok ?i (view_of s ?i) \<Longrightarrow> dget (st_definitions s) ?i = None"
    using fresh by (auto simp: view_ok_def split: option.splits)
  have none: "dget (st_versions s) (?i, n) = None" if "view_ok ?i (view_of s ?i)" for n
    using that undefined[OF that] by (simp add: view_ok_def)
  have axes: "axes_ok default_axes" by (simp add: axes_ok_def default_axes_def)
  show ?thesis unfolding step_at_def
  proof (intro conjI impI allI)
    assume ok: "view_ok ?i (view_of s ?i)"
    show "view_ok ?i (view_of (snd (store_new owner v s)) ?i)"
      using ok undefined[OF ok] none[OF ok] v axes lifecycle_values_ok(1)
      by (auto simp: store_new_def Let_def view_ok_def definition_ok_def mk_custom_definition_def default_axes_def
          split: sum.splits)
    show "view_keeps (view_of s ?i) (view_of (snd (store_new owner v s)) ?i)"
      using undefined[OF ok] none[OF ok] by (simp add: view_keeps_def)
  qed (simp add: store_new_def Let_def split: sum.splits)
qed

lemma step_store_checked:
  "mk_definition_version v = Inr w \<Longrightarrow> dv_definition_id v = i \<Longrightarrow> dget (st_drafts s) i = None \<Longrightarrow>
   step_at i s (snd (store_new owner w s))"
  using step_store_new[of s w owner] mk_definition_version_ok[of v w] by auto

lemma step_create_draft:
  "dget (st_drafts s) (new_definition_id u) = None \<Longrightarrow>
   step_at (new_definition_id u) s (snd (create_draft u now owner title c pc s))"
  by (auto simp: create_draft_def split: sum.splits intro: step_store_checked)

lemma step_create_fork:
  "dget (st_drafts s) (new_definition_id u) = None \<Longrightarrow>
   step_at (new_definition_id u) s (snd (create_fork u now owner title c i v s))"
  by (auto simp: create_fork_def split: sum.splits intro: step_store_checked)

text \<open>Replacing the draft of an unconfirmed definition by another draft of the same version.\<close>

lemma step_put_draft:
  assumes d: "owned s owner i = Inr d" "ax_confirmation (cd_axes d) \<noteq> CONFIRMED"
    and r: "dget (st_drafts s) i = Some r" and r': "dv_definition_id r' = dv_definition_id r" "dv_version r' = dv_version r" "coherent r'"
  shows "step_at i s (put_current i (d\<lparr>cd_current_version := r'\<rparr>) (s\<lparr>st_drafts := dset i r' (st_drafts s)\<rparr>))"
  unfolding step_at_def
proof (intro conjI impI allI)
  let ?t = "put_current i (d\<lparr>cd_current_version := r'\<rparr>) (s\<lparr>st_drafts := dset i r' (st_drafts s)\<rparr>)"
  assume ok: "view_ok i (view_of s i)"
  have def: "definition_ok i (view_of s i) d r" using view_ok_definition[OF ok d(1)] r by auto
  have w: "view_of ?t i = (view_of s i)\<lparr>iv_draft := Some r', iv_definition := Some (d\<lparr>cd_current_version := r'\<rparr>)\<rparr>"
    by (simp add: view_of_put_current)
  show "view_ok i (view_of ?t i)"
    using ok def d(2) r' unfolding w by (auto simp: view_ok_def definition_ok_def)
  show "view_keeps (view_of s i) (view_of ?t i)"
    using ownedE(1)[OF d(1)] def r' d(2) unfolding w by (auto simp: view_keeps_def definition_ok_def)
qed (simp add: view_of_put_current)

lemma updated_draft_same:
  "dv_definition_id (updated_draft h c pc t r) = dv_definition_id r" "dv_version (updated_draft h c pc t r) = dv_version r"
  by (simp_all add: updated_draft_def Let_def)

lemma draft_ofE: "draft_of s i = Inr r \<Longrightarrow> dget (st_drafts s) i = Some r"
  by (auto simp: draft_of_def split: option.splits)

lemma step_update_draft: "step_at i s (snd (update_draft h owner i c pc t s))"
  by (auto simp: update_draft_def updated_draft_same intro!: step_put_draft
      dest: draft_ofE dest!: mk_definition_version_ok split: sum.splits)

lemma step_mark_semantic_closed: "step_at i s (snd (mark_semantic_closed g owner i s))"
  using step_put_draft[of s owner i] draft_ofE
  by (auto simp: mark_semantic_closed_def coherent_def Let_def split: sum.splits)

lemma step_project_published: "step_at i s (snd (project_published owner i v s))"
  using step_put_axes[of s owner i]
  by (auto simp: project_published_def Let_def axes_ok_def split: sum.splits)

lemma step_project_certified: "step_at i s (snd (project_certified owner i s))"
proof (cases "owned s owner i")
  case (Inr d)
  show ?thesis unfolding step_at_def
  proof (intro conjI impI)
    assume ok: "view_ok i (view_of s i)"
    obtain r where "definition_ok i (view_of s i) d r" using view_ok_definition[OF ok Inr] .
    then have "axes_ok (cd_axes d)" by (simp add: definition_ok_def)
    then have "step_at i s (snd (project_certified owner i s))"
      using Inr step_put_axes[OF Inr] by (auto simp: project_certified_def axes_ok_def)
    with ok show "view_ok i (view_of (snd (project_certified owner i s)) i)"
      "view_keeps (view_of s i) (view_of (snd (project_certified owner i s)) i)"
      by (simp_all add: step_at_def)
  qed (use Inr in \<open>simp add: project_certified_def view_of_put_current\<close>)
qed (simp add: project_certified_def)

lemma definition_okD:
  assumes "definition_ok i w d r"
  shows "cd_definition_id d = i" "axes_ok (cd_axes d)" "dv_definition_id r = i" "coherent r"
    "same_content r (cd_current_version d)" "dv_version (cd_current_version d) = dv_version r"
    "v > dv_version r \<Longrightarrow> iv_versions w v = None"
    "ax_confirmation (cd_axes d) = CONFIRMED \<Longrightarrow> dv_semantic_closed r \<and> iv_versions w (dv_version r) = Some (cd_current_version d)"
    "ax_confirmation (cd_axes d) \<noteq> CONFIRMED \<Longrightarrow> iv_versions w (dv_version r) = None"
    "iv_lifecycle w (dv_version r) = Some l \<Longrightarrow> lc_retention l = SAVED \<Longrightarrow> ax_retention (cd_axes d) = SAVED"
    "is_definition_id i"
  using assms same_content_fields(2)[of r "cd_current_version d"]
  unfolding definition_ok_def by (simp_all split: if_splits)

lemma view_ok_parts:
  assumes "view_ok i w"
  shows "iv_versions w v = Some x \<Longrightarrow> dv_definition_id x = i \<and> dv_version x = v \<and> dv_semantic_closed x \<and> coherent x \<and> iv_lifecycle w v \<noteq> None"
    "iv_lifecycle w v = Some l \<Longrightarrow> validate_lifecycle l = Inr l"
  using assms unfolding view_ok_def by blast+

lemma view_okI:
  assumes "iv_definition w = Some d" "iv_draft w = Some r" "definition_ok i w d r"
    and "\<And>v x. iv_versions w v = Some x \<Longrightarrow> dv_definition_id x = i \<and> dv_version x = v \<and> dv_semantic_closed x \<and> coherent x \<and> iv_lifecycle w v \<noteq> None"
    and "\<And>v l. iv_lifecycle w v = Some l \<Longrightarrow> validate_lifecycle l = Inr l"
  shows "view_ok i w"
  unfolding view_ok_def using assms by simp

text \<open>Proving a good step for an operation that succeeds on an owned definition.\<close>

lemma step_atI:
  assumes d: "owned s owner i = Inr d"
    and other: "\<And>j. j \<noteq> i \<Longrightarrow> view_of t j = view_of s j"
    and good: "\<And>r. dget (st_drafts s) i = Some r \<Longrightarrow> definition_ok i (view_of s i) d r \<Longrightarrow> view_ok i (view_of s i) \<Longrightarrow>
      view_ok i (view_of t i) \<and> view_keeps (view_of s i) (view_of t i)"
  shows "step_at i s t"
  unfolding step_at_def using other good view_ok_definition[OF _ d] by blast

lemma step_save: "step_at i s (snd (save owner i s))"
proof (cases "\<exists>d. owned s owner i = Inr d \<and> ax_confirmation (cd_axes d) = CONFIRMED \<and> dv_semantic_closed (cd_current_version d)")
  case True
  then obtain d where d: "owned s owner i = Inr d" "ax_confirmation (cd_axes d) = CONFIRMED"
    "dv_semantic_closed (cd_current_version d)" by blast
  let ?t = "snd (save owner i s)" and ?d = "d\<lparr>cd_axes := (cd_axes d)\<lparr>ax_retention := SAVED\<rparr>\<rparr>"
  let ?l = "\<lparr>lc_confirmation = CONFIRMED, lc_retention = SAVED\<rparr>"
  have w: "view_of ?t j = (if j = i then (view_of s i)\<lparr>iv_definition := Some ?d,
      iv_lifecycle := (iv_lifecycle (view_of s i))(dv_version (cd_current_version d) \<mapsto> ?l)\<rparr> else view_of s j)" for j
    using d by (simp add: save_def Let_def view_of_put_current) (simp add: put_current_def view_of_def)
  show ?thesis
  proof (rule step_atI[OF d(1)])
    fix r assume r: "dget (st_drafts s) i = Some r" "definition_ok i (view_of s i) d r" and ok: "view_ok i (view_of s i)"
    note D = definition_okD[OF r(2)]
    have "view_ok i (view_of ?t i)"
    proof (rule view_okI[of _ ?d r])
      show "definition_ok i (view_of ?t i) ?d r"
        using D d(2) by (simp add: w definition_ok_def axes_ok_def)
      show "\<And>v l. iv_lifecycle (view_of ?t i) v = Some l \<Longrightarrow> validate_lifecycle l = Inr l"
        using view_ok_parts(2)[OF ok] lifecycle_values_ok(2)[of SAVED] by (auto simp: w split: if_splits)
    qed (use r view_ok_parts(1)[OF ok] in \<open>simp_all add: w\<close>)
    moreover have "view_keeps (view_of s i) (view_of ?t i)"
      using ownedE(1)[OF d(1)] by (simp add: w view_keeps_def)
    ultimately show "view_ok i (view_of ?t i) \<and> view_keeps (view_of s i) (view_of ?t i)" by simp
  qed (simp add: w)
qed (auto simp: save_def split: sum.splits)

lemma step_confirm: "step_at i s (snd (confirm now owner i s))"
proof (cases "\<exists>d r. owned s owner i = Inr d \<and> draft_of s i = Inr r \<and> dv_semantic_closed r")
  case True
  then obtain d r' where d: "owned s owner i = Inr d" and r': "draft_of s i = Inr r'" "dv_semantic_closed r'" by blast
  let ?t = "snd (confirm now owner i s)" and ?v = "r'\<lparr>dv_created_at := now\<rparr>"
  let ?d = "d\<lparr>cd_axes := (cd_axes d)\<lparr>ax_confirmation := CONFIRMED\<rparr>, cd_current_version := ?v\<rparr>"
  let ?l = "\<lparr>lc_confirmation = CONFIRMED, lc_retention = SESSION\<rparr>"
  have w: "view_of ?t j = (if j = i then (view_of s i)\<lparr>iv_definition := Some ?d,
      iv_versions := (iv_versions (view_of s i))(dv_version r' \<mapsto> ?v),
      iv_lifecycle := (iv_lifecycle (view_of s i))(dv_version r' \<mapsto> ?l)\<rparr> else view_of s j)" for j
    using d r' by (simp add: confirm_def Let_def view_of_put_current)
  show ?thesis
  proof (rule step_atI[OF d])
    fix r assume r: "dget (st_drafts s) i = Some r" "definition_ok i (view_of s i) d r" and ok: "view_ok i (view_of s i)"
    note D = definition_okD[OF r(2)]
    have rr: "r' = r" using r(1) draft_ofE[OF r'(1)] by simp
    have "view_ok i (view_of ?t i)"
    proof (rule view_okI[of _ ?d r])
      show "definition_ok i (view_of ?t i) ?d r"
        using D r'(2) rr by (simp add: w definition_ok_def axes_ok_def)
      show "\<And>v x. iv_versions (view_of ?t i) v = Some x \<Longrightarrow> dv_definition_id x = i \<and> dv_version x = v \<and> dv_semantic_closed x \<and> coherent x \<and> iv_lifecycle (view_of ?t i) v \<noteq> None"
        using view_ok_parts(1)[OF ok] D(3,4) r'(2) rr by (auto simp: w coherent_def split: if_splits)
      show "\<And>v l. iv_lifecycle (view_of ?t i) v = Some l \<Longrightarrow> validate_lifecycle l = Inr l"
        using view_ok_parts(2)[OF ok] lifecycle_values_ok(2)[of SESSION] by (auto simp: w split: if_splits)
    qed (use r in \<open>simp_all add: w\<close>)
    moreover have "same_content x ?v" if "dget (st_versions s) (i, dv_version r) = Some x" for x
    proof -
      have "x = cd_current_version d" using that D(8,9) by (cases "ax_confirmation (cd_axes d) = CONFIRMED") auto
      then show ?thesis using same_content_trans[OF same_content_sym[OF D(5)]] rr by simp
    qed
    then have "view_keeps (view_of s i) (view_of ?t i)"
      using ownedE(1)[OF d] D(6) rr by (simp add: w view_keeps_def)
    ultimately show "view_ok i (view_of ?t i) \<and> view_keeps (view_of s i) (view_of ?t i)" by simp
  qed (simp add: w)
qed (auto simp: confirm_def split: sum.splits)

lemma step_create_revision: "step_at i s (snd (create_revision now owner i s))"
proof (cases "create_revision now owner i s")
  case (Pair res t)
  show ?thesis
  proof (cases "\<exists>x. res = Inr x")
    case True
    then obtain d v where d: "owned s owner i = Inr d" "ax_confirmation (cd_axes d) = CONFIRMED"
      and v: "coherent v" "dv_definition_id v = i" "dv_version v = Suc (dv_version (cd_current_version d))"
      and t: "t = put_current i (d\<lparr>cd_axes := default_axes, cd_current_version := v\<rparr>)
               (s\<lparr>st_drafts := dset i v (st_drafts s),
                  st_lifecycle := dset (i, dv_version v) default_lifecycle (st_lifecycle s)\<rparr>)"
      using Pair by (auto simp: create_revision_def Let_def split: sum.splits if_splits dest!: mk_definition_version_ok)
    let ?d = "d\<lparr>cd_axes := default_axes, cd_current_version := v\<rparr>"
    have w: "view_of t j = (if j = i then (view_of s i)\<lparr>iv_definition := Some ?d, iv_draft := Some v,
        iv_lifecycle := (iv_lifecycle (view_of s i))(dv_version v \<mapsto> default_lifecycle)\<rparr> else view_of s j)" for j
      by (simp add: t view_of_put_current)
    have axes: "axes_ok default_axes" "ax_confirmation default_axes = DRAFT" by (simp_all add: axes_ok_def default_axes_def)
    have "step_at i s t"
    proof (rule step_atI[OF d(1)])
      fix r assume r: "dget (st_drafts s) i = Some r" "definition_ok i (view_of s i) d r" and ok: "view_ok i (view_of s i)"
      note D = definition_okD[OF r(2)]
      have "view_ok i (view_of t i)"
      proof (rule view_okI[of _ ?d v])
        show "definition_ok i (view_of t i) ?d v"
          using D v axes by (simp add: w definition_ok_def)
        show "\<And>n l. iv_lifecycle (view_of t i) n = Some l \<Longrightarrow> validate_lifecycle l = Inr l"
          using view_ok_parts(2)[OF ok] lifecycle_values_ok(1) by (auto simp: w split: if_splits)
      qed (use view_ok_parts(1)[OF ok] in \<open>simp_all add: w\<close>)
      moreover have "view_keeps (view_of s i) (view_of t i)"
        using ownedE(1)[OF d(1)] v(3) by (simp add: w view_keeps_def)
      ultimately show "view_ok i (view_of t i) \<and> view_keeps (view_of s i) (view_of t i)" by simp
    qed (simp add: w)
    then show ?thesis by (simp add: Pair)
  next
    case False
    then obtain e where "res = Inl e" by (cases res) auto
    then have "t = s" using Pair by (auto simp: create_revision_def Let_def split: sum.splits if_splits)
    then show ?thesis by (simp add: Pair)
  qed
qed

section \<open>Runs of the service\<close>

text \<open>One operation of the service with any arguments.  A UUID is fresh: no draft has it yet.\<close>

inductive service_step :: "(string \<Rightarrow> string) \<Rightarrow> (string \<Rightarrow> bool) \<Rightarrow> definition_store \<Rightarrow> definition_store \<Rightarrow> bool"
  for h governed where
  "dget (st_drafts s) (new_definition_id u) = None \<Longrightarrow> service_step h governed s (snd (create_draft u now owner title c pc s))"
| "dget (st_drafts s) (new_definition_id u) = None \<Longrightarrow> service_step h governed s (snd (create_fork u now owner title c i v s))"
| "service_step h governed s (snd (update_draft h owner i c' pc t s))"
| "service_step h governed s (snd (mark_semantic_closed governed owner i s))"
| "service_step h governed s (snd (confirm now owner i s))"
| "service_step h governed s (snd (save owner i s))"
| "service_step h governed s (snd (create_revision now owner i s))"
| "service_step h governed s (snd (project_published owner i v s))"
| "service_step h governed s (snd (project_certified owner i s))"

lemma service_step_at: "service_step h g s t \<Longrightarrow> \<exists>i. step_at i s t"
  by (induction rule: service_step.induct)
    (blast intro: step_create_draft step_create_fork step_update_draft step_mark_semantic_closed step_confirm step_save
      step_create_revision step_project_published step_project_certified)+

lemma empty_store_inv: "store_inv empty_store"
  by (simp add: store_inv_def view_ok_def empty_store_def view_of_def)

lemma store_keeps_trans: "store_keeps s t \<Longrightarrow> store_keeps t u \<Longrightarrow> store_keeps s u"
  unfolding store_keeps_def using view_keeps_trans by blast

interpretation service_sys: preserved_relation "\<lambda>s. s = empty_store" "service_step h g" store_inv store_keeps
proof unfold_locales
  fix s t u assume "store_keeps s t" "store_keeps t u"
  then show "store_keeps s u" by (rule store_keeps_trans)
next
  fix s t assume "store_inv s" "service_step h g s t"
  then show "store_inv t" "store_keeps s t" using service_step_at step_at_inv by blast+
qed (simp_all add: empty_store_inv store_keeps_def)

lemmas service_reachable_inv = service_sys.reachable_inv[OF refl]

lemma store_inv_definition:
  assumes "store_inv s" "dget (st_definitions s) i = Some d"
  obtains r where "dget (st_drafts s) i = Some r" "definition_ok i (view_of s i) d r"
proof -
  have "view_ok i (view_of s i)" using assms(1) by (simp add: store_inv_def)
  then show ?thesis using that assms(2) by (auto simp: view_ok_def split: option.splits)
qed

text \<open>C16. In every state the service can reach, each definition's axes satisfy the axis implications,
  although the projections copy axes without validating them; and a confirmed definition's current
  version is stored, semantically closed and has a parameter contract equal to its calculation's
  parameters.\<close>

theorem definition_axes_always_valid:
  assumes "(service_step h g)\<^sup>*\<^sup>* empty_store s" "dget (st_definitions s) i = Some d"
  shows "validate_axes (cd_axes d) = Inr (cd_axes d) \<and>
    (ax_confirmation (cd_axes d) = CONFIRMED \<longrightarrow>
       dget (st_versions s) (i, dv_version (cd_current_version d)) = Some (cd_current_version d) \<and>
       dv_semantic_closed (cd_current_version d) \<and>
       dv_parameter_contract (cd_current_version d) = cs_parameters (dv_calculation (cd_current_version d)))"
proof -
  obtain r where "definition_ok i (view_of s i) d r"
    using store_inv_definition[OF service_reachable_inv[OF assms(1)] assms(2)] .
  note D = definition_okD[OF this] and F = same_content_fields[OF definition_okD(5)[OF this]]
  show ?thesis using D(2,4,6,8) F by (simp add: validate_axes_iff coherent_def)
qed

text \<open>C15. Confirmed versions are immutable: whatever the service does later, the version stored under an
  identity and number keeps its content and its checksum, and once a newer version is current, what is
  recorded of the older one, timestamp and lifecycle included, never changes again.\<close>

theorem confirmed_versions_immutable:
  assumes s: "(service_step h g)\<^sup>*\<^sup>* empty_store s" and t: "(service_step h g)\<^sup>*\<^sup>* s t"
    and x: "dget (st_versions s) (i, v) = Some x"
  shows "\<exists>y. dget (st_versions t) (i, v) = Some y \<and> same_content x y \<and> version_checksum h y = version_checksum h x \<and>
    (\<forall>d. dget (st_definitions s) i = Some d \<and> v < dv_version (cd_current_version d) \<longrightarrow>
       y = x \<and> dget (st_lifecycle t) (i, v) = dget (st_lifecycle s) (i, v))"
proof -
  have k: "view_keeps (view_of s i) (view_of t i)"
    using service_sys.steps_rel[OF t service_reachable_inv[OF s]] by (simp add: store_keeps_def)
  then obtain y where y: "dget (st_versions t) (i, v) = Some y" "same_content x y"
    using view_keepsD(1)[OF k x] by blast
  have "y = x \<and> dget (st_lifecycle t) (i, v) = dget (st_lifecycle s) (i, v)"
    if "dget (st_definitions s) i = Some d" "v < dv_version (cd_current_version d)" for d
    using view_keepsD(3)[OF k that] x y(1) by simp
  with y same_content_checksum[of x y h] show ?thesis by auto
qed

text \<open>C18. Execution bindings stay executable: if a binding is accepted for a confirmed version, the same
  owner's same binding is accepted in every later state and resolves to the same content.\<close>

theorem execution_binding_stays_valid:
  assumes s: "(service_step h g)\<^sup>*\<^sup>* empty_store s" and t: "(service_step h g)\<^sup>*\<^sup>* s t"
    and confirmed: "dget (st_versions s) (i, v) \<noteq> None"
    and run: "execute_version h s owner i v b = Inr x"
  shows "\<exists>y. execute_version h t owner i v b = Inr y \<and> same_content x y"
proof -
  have k: "view_keeps (view_of s i) (view_of t i)"
    using service_sys.steps_rel[OF t service_reachable_inv[OF s]] by (simp add: store_keeps_def)
  obtain d where d: "owned s owner i = Inr d" using run
    by (auto simp: execute_version_def get_exact_version_def split: sum.splits)
  have x: "dget (st_versions s) (i, v) = Some x" using run confirmed
    by (auto simp: execute_version_def get_exact_version_def split: sum.splits option.splits)
  obtain y where y: "dget (st_versions t) (i, v) = Some y" "same_content x y"
    using view_keepsD(1)[OF k x] by blast
  obtain d' where d': "dget (st_definitions t) i = Some d'" "cd_owner_user_id d' = owner"
    using view_keepsD(2)[OF k ownedE(1)[OF d]] ownedE(2)[OF d] by auto
  have "get_exact_version t owner i v = Inr y" "get_exact_version s owner i v = Inr x"
    using x y(1) d d' by (simp_all add: get_exact_version_def owned_def)
  with run y(2) same_content_fields[OF y(2)] same_content_checksum[OF y(2), of h] show ?thesis
    by (simp add: execute_version_def)
qed

section \<open>Semantic closure\<close>

definition inputs_governed :: "(string \<Rightarrow> bool) \<Rightarrow> calculation_spec \<Rightarrow> bool" where
  "inputs_governed g c \<longleftrightarrow>
     list_all (\<lambda>inp. ci_provenance inp = PublishedGold \<and> (\<exists>k. ci_metric_key inp = Some k \<and> g k)) (cs_inputs c)"

lemma closure_checks_pass:
  "\<forall>y \<in> set inps. \<forall>x \<in> set (closure_input_checks g y). case x of (b, e) \<Rightarrow> \<not> b \<Longrightarrow>
   list_all (\<lambda>inp. ci_provenance inp = PublishedGold \<and> (\<exists>k. ci_metric_key inp = Some k \<and> g k)) inps"
proof (induction inps)
  case (Cons inp inps)
  then show ?case
    by (cases "ci_provenance inp"; cases "ci_metric_key inp") (auto simp: closure_input_checks_def)
qed simp

definition closed_inv :: "(string \<Rightarrow> bool) \<Rightarrow> definition_store \<Rightarrow> bool" where
  "closed_inv g s \<longleftrightarrow>
     (\<forall>i r. dget (st_drafts s) i = Some r \<and> dv_semantic_closed r \<longrightarrow> inputs_governed g (dv_calculation r)) \<and>
     (\<forall>k x. dget (st_versions s) k = Some x \<longrightarrow> inputs_governed g (dv_calculation x))"

lemma closed_inv_draft:
  "closed_inv g s \<Longrightarrow> (dv_semantic_closed r \<Longrightarrow> inputs_governed g (dv_calculation r)) \<Longrightarrow>
   closed_inv g (s\<lparr>st_drafts := dset i r (st_drafts s)\<rparr>)"
  by (auto simp: closed_inv_def)

lemma closed_inv_ignores [simp]:
  "closed_inv g (put_current i d s) = closed_inv g s" "closed_inv g (s\<lparr>st_lifecycle := L\<rparr>) = closed_inv g s"
  "closed_inv g (s\<lparr>st_definitions := D\<rparr>) = closed_inv g s"
  by (simp_all add: closed_inv_def put_current_def)

lemma closed_inv_store_new:
  "closed_inv g s \<Longrightarrow> \<not> dv_semantic_closed v \<Longrightarrow> closed_inv g (snd (store_new owner v s))"
  by (auto simp: store_new_def Let_def closed_inv_def split: sum.splits)

text \<open>Equal calculation checksums mean equal inputs when the hash is injective.\<close>

lemma spec_checksum_inputs:
  assumes "inj h" "spec_checksum h c = spec_checksum h c'" shows "cs_inputs c = cs_inputs c'"
proof -
  have "json_text (spec_json c) = json_text (spec_json c')"
    using assms by (simp add: spec_checksum_def checksum_of_def inj_eq)
  then have "spec_json c = spec_json c'" by (rule json_text_inject[OF json_ok_spec json_ok_spec])
  note m = member_cong[OF this, of "''inputs''", unfolded spec_json_def]
  then have "map input_spec_json (cs_inputs c) = map input_spec_json (cs_inputs c')" by (simp add: member_jobj)
  then show ?thesis by (rule map_inject_on) (rule input_spec_json_inject)
qed

lemma updated_draft_governed:
  assumes "inj h" "dv_semantic_closed r \<Longrightarrow> inputs_governed g (dv_calculation r)"
    and "dv_semantic_closed (updated_draft h c pc t r)"
  shows "inputs_governed g (dv_calculation (updated_draft h c pc t r))"
proof -
  let ?c = "dv_calculation (updated_draft h c pc t r)"
  have "dv_semantic_closed r" "spec_checksum h ?c = spec_checksum h (dv_calculation r)"
    using assms(3) by (auto simp: updated_draft_def Let_def split: if_splits)
  from spec_checksum_inputs[OF assms(1) this(2)] assms(2)[OF this(1)] show ?thesis by (simp add: inputs_governed_def)
qed

lemma closed_inv_step:
  assumes "inj h" "service_step h g s t" "closed_inv g s"
  shows "closed_inv g t"
  using assms(2,3)
proof (induction rule: service_step.induct)
  case (1 s u now owner title c pc)
  then show ?case
    by (auto simp: create_draft_def split: sum.splits intro: closed_inv_store_new dest!: mk_definition_version_ok)
next
  case (2 s u now owner title c i v)
  then show ?case
    by (auto simp: create_fork_def split: sum.splits intro: closed_inv_store_new dest!: mk_definition_version_ok)
next
  case (3 s owner i c pc t)
  then show ?case using updated_draft_governed[OF assms(1)]
    by (auto simp: update_draft_def split: sum.splits dest!: mk_definition_version_ok draft_ofE
        intro!: closed_inv_draft) (simp add: closed_inv_def)
next
  case (4 s owner i)
  then show ?case
    by (simp add: mark_semantic_closed_def Let_def inputs_governed_def closed_inv_draft closure_checks_pass split: sum.splits)
next
  case (5 s now owner i)
  then show ?case
    by (auto simp: confirm_def Let_def draft_of_def split: sum.splits option.splits) (auto simp: closed_inv_def)
next
  case (7 s now owner i)
  then show ?case
    by (auto simp: create_revision_def Let_def split: sum.splits dest!: mk_definition_version_ok) (auto simp: closed_inv_def)
qed (auto simp: save_def project_published_def project_certified_def Let_def split: sum.splits)


section \<open>A sample run\<close>

definition demo_uuid :: string where "demo_uuid = replicate 32 CHR ''0''"
definition demo_id :: string where "demo_id = new_definition_id demo_uuid"
definition demo_owner :: string where "demo_owner = ''alice''"

definition demo_governed :: "string \<Rightarrow> bool" where
  "demo_governed k \<longleftrightarrow> k = ''gold.won'' \<or> k = ''gold.all''"

definition demo_calculation :: calculation_spec where
  "demo_calculation = sample_spec\<lparr>cs_inputs :=
     [\<lparr>ci_role = ''won'', ci_provenance = PublishedGold, ci_metric_key = Some ''gold.won'', ci_required = True\<rparr>,
      \<lparr>ci_role = ''all'', ci_provenance = PublishedGold, ci_metric_key = Some ''gold.all'', ci_required = True\<rparr>]\<rparr>"

definition demo_drafted :: definition_store where
  "demo_drafted = snd (create_draft demo_uuid 10 demo_owner ''Win rate'' demo_calculation None empty_store)"
definition demo_closed :: definition_store where
  "demo_closed = snd (mark_semantic_closed demo_governed demo_owner demo_id demo_drafted)"
definition demo_confirmed :: definition_store where
  "demo_confirmed = snd (confirm 20 demo_owner demo_id demo_closed)"
definition demo_saved :: definition_store where
  "demo_saved = snd (save demo_owner demo_id demo_confirmed)"
definition demo_revised :: definition_store where
  "demo_revised = snd (create_revision 30 demo_owner demo_id demo_saved)"

definition demo_version :: definition_version where
  "demo_version = \<lparr>dv_definition_id = demo_id, dv_version = 1, dv_calculation = demo_calculation,
     dv_parameter_contract = cs_parameters demo_calculation, dv_title = ''Win rate'', dv_semantic_closed = True,
     dv_derived_from_definition_id = None, dv_derived_from_version = None, dv_created_at = 20\<rparr>"

lemma demo_versions: "dget (st_versions demo_saved) (demo_id, 1) = Some demo_version"
  "dget (st_versions demo_revised) (demo_id, 1) = Some demo_version"
  by code_simp+

lemma demo_states:
  "map_option (\<lambda>d. (cd_owner_user_id d, cd_axes d)) (dget (st_definitions demo_saved) demo_id) =
     Some (demo_owner, \<lparr>ax_confirmation = CONFIRMED, ax_retention = SAVED, ax_publication = UNPUBLISHED, ax_certification = UNCERTIFIED\<rparr>)"
  "dget (st_lifecycle demo_saved) (demo_id, 1) = Some \<lparr>lc_confirmation = CONFIRMED, lc_retention = SAVED\<rparr>"
  by code_simp+

lemma demo_reachable:
  "(service_step h demo_governed)\<^sup>*\<^sup>* empty_store demo_saved" "(service_step h demo_governed)\<^sup>*\<^sup>* demo_saved demo_revised"
proof -
  have "service_step h demo_governed empty_store demo_drafted"
    unfolding demo_drafted_def by (rule service_step.intros) (simp add: empty_store_def)
  moreover have "service_step h demo_governed demo_drafted demo_closed" unfolding demo_closed_def by (rule service_step.intros)
  moreover have "service_step h demo_governed demo_closed demo_confirmed" unfolding demo_confirmed_def by (rule service_step.intros)
  moreover have "service_step h demo_governed demo_confirmed demo_saved" unfolding demo_saved_def by (rule service_step.intros)
  ultimately show "(service_step h demo_governed)\<^sup>*\<^sup>* empty_store demo_saved" by simp
  have "service_step h demo_governed demo_saved demo_revised" unfolding demo_revised_def by (rule service_step.intros)
  then show "(service_step h demo_governed)\<^sup>*\<^sup>* demo_saved demo_revised" by simp
qed

theorem definition_axes_always_valid_witness:
  "case dget (st_definitions demo_saved) demo_id of None \<Rightarrow> False
   | Some d \<Rightarrow> validate_axes (cd_axes d) = Inr (cd_axes d) \<and> dv_semantic_closed (cd_current_version d)"
proof -
  obtain d where d: "dget (st_definitions demo_saved) demo_id = Some d" "ax_confirmation (cd_axes d) = CONFIRMED"
    using demo_states(1) by auto
  with definition_axes_always_valid[OF demo_reachable(1) d(1)] show ?thesis by simp
qed

theorem confirmed_versions_immutable_witness:
  "case dget (st_versions demo_revised) (demo_id, 1) of None \<Rightarrow> False | Some y \<Rightarrow> same_content demo_version y"
  using confirmed_versions_immutable[OF demo_reachable[of "\<lambda>t. t"] demo_versions(1)] by auto

definition demo_binding :: "(string \<Rightarrow> string) \<Rightarrow> definition_execution_binding" where
  "demo_binding h = \<lparr>xb_definition_id = demo_id, xb_version = 1, xb_definition_checksum = version_checksum h demo_version,
     xb_binding = (sample_binding ''2024-02-29'')\<lparr>eb_spec_checksum := spec_checksum h demo_calculation\<rparr>\<rparr>"

theorem execution_binding_stays_valid_witness:
  "\<exists>y. execute_version (\<lambda>t. t) demo_revised demo_owner demo_id 1 (demo_binding (\<lambda>t. t)) = Inr y \<and> same_content demo_version y"
proof (rule execution_binding_stays_valid[OF demo_reachable])
  obtain d where d: "dget (st_definitions demo_saved) demo_id = Some d" "cd_owner_user_id d = demo_owner"
    using demo_states(1) by auto
  have iso: "is_iso_calendar_date ''2024-02-29''" by code_simp
  have "binding_failures (\<lambda>t. t) (xb_binding (demo_binding (\<lambda>t. t))) demo_calculation = []"
    using iso by (simp add: binding_failures_def demo_binding_def demo_calculation_def sample_spec_def sample_binding_def
        parameter_failures_def bound_value_def)
  then show "execute_version (\<lambda>t. t) demo_saved demo_owner demo_id 1 (demo_binding (\<lambda>t. t)) = Inr demo_version"
    using d demo_versions(1)
    by (simp add: execute_version_def get_exact_version_def owned_def demo_binding_def demo_version_def)
  show "dget (st_versions demo_saved) (demo_id, 1) \<noteq> None" using demo_versions(1) by simp
qed


section \<open>Confirming twice\<close>

text \<open>
  \<open>confirm\<close> does not look at the confirmation axis.  On a definition that is already saved it succeeds,
  replaces the stored version by one with a new timestamp and records the version's lifecycle as
  SESSION again, while the axes go on saying SAVED.
\<close>

lemma reconfirm_demotes_saved:
  "fst (confirm 40 demo_owner demo_id demo_saved) \<noteq> Inl DefinitionNotFound"
  "map_option (\<lambda>d. ax_retention (cd_axes d)) (dget (st_definitions (snd (confirm 40 demo_owner demo_id demo_saved))) demo_id) = Some SAVED"
  "dget (st_lifecycle (snd (confirm 40 demo_owner demo_id demo_saved))) (demo_id, 1) =
     Some \<lparr>lc_confirmation = CONFIRMED, lc_retention = SESSION\<rparr>"
  "map_option dv_created_at (dget (st_versions (snd (confirm 40 demo_owner demo_id demo_saved))) (demo_id, 1)) = Some 40"
  by code_simp+

end
