(* ===== verification/Publication.thy ===== *)
theory Publication
  imports Custom_Definition
begin

text \<open>
  The publication catalogue (\<open>artifacts/publication.py\<close>): immutable published versions with their
  semantic package, the explicit current pointer, and certification and withdrawal as separate axes.
  What its clients rely on is the locale \<open>version_catalogue\<close>, interpreted on this catalogue.
\<close>

section \<open>Published versions\<close>

record semantic_package =
  sp_calculation :: calculation_spec
  sp_parameter_contract :: parameter_contract
  sp_source_definition_id :: string
  sp_source_definition_version :: nat
  sp_source_definition_checksum :: string

definition mk_semantic_package :: "semantic_package \<Rightarrow> semantic_package result" where
  "mk_semantic_package p =
     validated
       [(sp_parameter_contract p \<noteq> cs_parameters (sp_calculation p),
         ValueError ''published package requires a parameter contract matching the calculation parameters'')]
       p"

record published_version =
  pv_identity_id :: string
  pv_version :: nat
  pv_title :: string
  pv_owner_user_id :: string
  pv_owner_label :: string
  pv_source_label :: string
  pv_definition_checksum :: string
  pv_published_at :: timestamp
  pv_unit :: string
  pv_value :: "string option"
  pv_derived_from_identity :: "string option"
  pv_derived_from_version :: "nat option"
  pv_semantic :: "semantic_package option"

definition forkable :: "published_version \<Rightarrow> bool" where
  "forkable p \<longleftrightarrow> pv_semantic p \<noteq> None"

section \<open>The catalogue\<close>

record catalogue =
  ct_versions :: "(string \<times> nat, published_version) dict"
  ct_current :: "(string, nat) dict"
  ct_titles :: "(string, string) dict"
  ct_certification :: "(string \<times> nat, string) dict"
  ct_certified_by :: "(string \<times> nat, string) dict"
  ct_withdrawn :: "(string \<times> nat, bool) dict"

definition empty_catalogue :: catalogue where
  "empty_catalogue = \<lparr>ct_versions = [], ct_current = [], ct_titles = [], ct_certification = [],
     ct_certified_by = [], ct_withdrawn = []\<rparr>"

type_synonym 'a cat_operation = "catalogue \<Rightarrow> 'a result \<times> catalogue"

definition cat_get :: "catalogue \<Rightarrow> string \<Rightarrow> nat \<Rightarrow> published_version option" where
  "cat_get c i v = dget (ct_versions c) (i, v)"

definition versions :: "catalogue \<Rightarrow> string \<Rightarrow> published_version list" where
  "versions c i = sort_key pv_version (map snd (filter (\<lambda>((j, _), _). j = i) (ct_versions c)))"

definition identities :: "catalogue \<Rightarrow> string list" where
  "identities c = sort (nub (map (fst \<circ> fst) (ct_versions c)))"

definition current_version :: "catalogue \<Rightarrow> string \<Rightarrow> nat result" where
  "current_version c i =
     (if versions c i = [] then Inl (LookupError ''publication_identity_not_found'')
      else case dget (ct_current c) i of
             None \<Rightarrow> Inl (LookupError ''publication_current_version_unbound'')
           | Some v \<Rightarrow> if cat_get c i v = None then Inl (LookupError ''publication_current_version_invalid'') else Inr v)"

definition title :: "catalogue \<Rightarrow> string \<Rightarrow> string" where
  "title c i = dget_or i (ct_titles c) i"

definition certification_state :: "catalogue \<Rightarrow> string \<Rightarrow> nat \<Rightarrow> string" where
  "certification_state c i v = dget_or ''uncertified'' (ct_certification c) (i, v)"

definition certified_by :: "catalogue \<Rightarrow> string \<Rightarrow> nat \<Rightarrow> string option" where
  "certified_by c i v = dget (ct_certified_by c) (i, v)"

definition is_withdrawn :: "catalogue \<Rightarrow> string \<Rightarrow> nat \<Rightarrow> bool" where
  "is_withdrawn c i v = dget_or False (ct_withdrawn c) (i, v)"

text \<open>Storing an item: its version entry and, for a new identity, its title.\<close>

definition put_item :: "published_version \<Rightarrow> catalogue \<Rightarrow> catalogue" where
  "put_item p c = c\<lparr>ct_versions := dset (pv_identity_id p, pv_version p) p (ct_versions c),
     ct_titles := dsetdefault (pv_identity_id p) (pv_title p) (ct_titles c)\<rparr>"

definition set_current :: "string \<Rightarrow> nat \<Rightarrow> catalogue \<Rightarrow> catalogue" where
  "set_current i v c = c\<lparr>ct_current := dset i v (ct_current c)\<rparr>"

definition seed :: "published_version \<Rightarrow> bool \<Rightarrow> published_version cat_operation" where
  "seed p current c =
     (let i = pv_identity_id p; v = pv_version p; existing = dget (ct_versions c) (i, v) in
      if existing \<noteq> None \<and> existing \<noteq> Some p
      then (Inl (ValueError ''seed refuses to overwrite an existing publication''), c)
      else if \<not> current then (Inr p, put_item p c)
      else if versions c i = [] then
        (if dget (ct_current c) i \<noteq> None then (Inl (ValueError ''publication_current_version_invalid''), c)
         else (Inr p, put_item p (set_current i v c)))
      else case current_version c i of
             Inl e \<Rightarrow> (Inl e, c)
           | Inr cur \<Rightarrow>
               if v < cur then (Inl (ValueError ''publication_current_version_regression''), c)
               else (Inr p, put_item p (if v > cur then set_current i v c else c)))"

definition publish_item :: "published_version \<Rightarrow> published_version cat_operation" where
  "publish_item p c =
     (let i = pv_identity_id p; v = pv_version p in
      if dget (ct_versions c) (i, v) \<noteq> None then (Inl (ValueError ''published version is immutable''), c)
      else if pv_semantic p = None then (Inl (ValueError ''publication requires a semantic package''), c)
      else case (if versions c i = [] then Inr None else map_sum id Some (current_version c i)) of
             Inl e \<Rightarrow> (Inl e, c)
           | Inr cur \<Rightarrow>
               let c1 = put_item p c;
                   c2 = (case cur of None \<Rightarrow> set_current i v c1 | Some w \<Rightarrow> if v > w then set_current i v c1 else c1)
               in (Inr p, c2\<lparr>ct_certification := dpop (i, v) (ct_certification c2),
                             ct_certified_by := dpop (i, v) (ct_certified_by c2),
                             ct_withdrawn := dpop (i, v) (ct_withdrawn c2)\<rparr>))"

definition certify_local_demo :: "string \<Rightarrow> nat \<Rightarrow> string \<Rightarrow> unit cat_operation" where
  "certify_local_demo i v by_user c =
     (if cat_get c i v = None then (Inl (LookupError ''publication_version_not_found''), c)
      else (Inr (), c\<lparr>ct_certification := dset (i, v) ''certified'' (ct_certification c),
                      ct_certified_by := dset (i, v) by_user (ct_certified_by c)\<rparr>))"

definition withdraw :: "string \<Rightarrow> nat \<Rightarrow> unit cat_operation" where
  "withdraw i v c =
     (if cat_get c i v = None then (Inl (LookupError ''publication_version_not_found''), c)
      else (Inr (), c\<lparr>ct_withdrawn := dset (i, v) True (ct_withdrawn c)\<rparr>))"

section \<open>The interface\<close>

text \<open>
  What the services rely on: reads by exact version, the current pointer, the two state axes, and for
  every step of the catalogue that versions persist unchanged, the pointer of an identity never moves
  back, and certification and withdrawal are never undone.
\<close>

definition grown ::
  "('c \<Rightarrow> string \<Rightarrow> nat \<Rightarrow> 'p option) \<Rightarrow> ('c \<Rightarrow> string \<Rightarrow> nat result) \<Rightarrow> ('c \<Rightarrow> string \<Rightarrow> nat \<Rightarrow> bool) \<Rightarrow>
   ('c \<Rightarrow> string \<Rightarrow> nat \<Rightarrow> bool) \<Rightarrow> 'c \<Rightarrow> 'c \<Rightarrow> bool" where
  "grown get pointer withdrawn certified c d \<longleftrightarrow>
     (\<forall>i v p. get c i v = Some p \<longrightarrow> get d i v = Some p) \<and>
     (\<forall>i v. pointer c i = Inr v \<longrightarrow> (\<exists>w \<ge> v. pointer d i = Inr w)) \<and>
     (\<forall>i v. withdrawn c i v \<longrightarrow> withdrawn d i v) \<and> (\<forall>i v. certified c i v \<longrightarrow> certified d i v)"

lemma grownD:
  assumes "grown get pointer withdrawn certified c d"
  shows "get c i v = Some p \<Longrightarrow> get d i v = Some p" "pointer c i = Inr v \<Longrightarrow> \<exists>w \<ge> v. pointer d i = Inr w"
    "withdrawn c i v \<Longrightarrow> withdrawn d i v" "certified c i v \<Longrightarrow> certified d i v"
  using assms unfolding grown_def by blast+

lemma grown_trans:
  assumes cd: "grown get pointer withdrawn certified c d" and de: "grown get pointer withdrawn certified d e"
  shows "grown get pointer withdrawn certified c e"
  unfolding grown_def
proof (intro conjI allI impI)
  fix i v assume "pointer c i = Inr v"
  from grownD(2)[OF cd this] obtain w where w: "v \<le> w" "pointer d i = Inr w" by blast
  from grownD(2)[OF de w(2)] w(1) show "\<exists>w \<ge> v. pointer e i = Inr w" by (auto intro: le_trans)
qed (auto intro: grownD(1,3,4)[OF de] dest: grownD(1,3,4)[OF cd])

locale version_catalogue =
  fixes step :: "'c \<Rightarrow> 'c \<Rightarrow> bool"
    and wf :: "'c \<Rightarrow> bool"
    and get :: "'c \<Rightarrow> string \<Rightarrow> nat \<Rightarrow> 'p option"
    and pointer :: "'c \<Rightarrow> string \<Rightarrow> nat result"
    and withdrawn :: "'c \<Rightarrow> string \<Rightarrow> nat \<Rightarrow> bool"
    and certified :: "'c \<Rightarrow> string \<Rightarrow> nat \<Rightarrow> bool"
  assumes step_wf: "wf c \<Longrightarrow> step c d \<Longrightarrow> wf d"
    and pointer_get: "wf c \<Longrightarrow> pointer c i = Inr v \<Longrightarrow> get c i v \<noteq> None"
    and step_grown: "wf c \<Longrightarrow> step c d \<Longrightarrow> grown get pointer withdrawn certified c d"
begin

lemma run_grown: "step\<^sup>*\<^sup>* c d \<Longrightarrow> wf c \<Longrightarrow> wf d \<and> grown get pointer withdrawn certified c d"
proof (induction rule: rtranclp_induct)
  case base
  then show ?case by (auto simp: grown_def)
next
  case (step d e)
  then have d: "wf d" "grown get pointer withdrawn certified c d" by simp_all
  show ?case using step_wf[OF d(1) step.hyps(2)] grown_trans[OF d(2) step_grown[OF d(1) step.hyps(2)]] by simp
qed

text \<open>A client that recorded a version can resolve it for ever, and the pointer it saw is never taken
  back and always resolves.\<close>

lemma recorded_version_resolves: "step\<^sup>*\<^sup>* c d \<Longrightarrow> wf c \<Longrightarrow> get c i v = Some p \<Longrightarrow> get d i v = Some p"
  by (rule grownD(1)[OF conjunct2[OF run_grown]])

lemma pointer_monotone:
  assumes "step\<^sup>*\<^sup>* c d" "wf c" "pointer c i = Inr v"
  shows "\<exists>w \<ge> v. pointer d i = Inr w \<and> get d i w \<noteq> None"
proof -
  note r = run_grown[OF assms(1,2)]
  obtain w where w: "v \<le> w" "pointer d i = Inr w" using grownD(2)[OF conjunct2[OF r] assms(3)] by auto
  show ?thesis using w pointer_get[OF conjunct1[OF r] w(2)] by auto
qed

lemma axes_sticky:
  "step\<^sup>*\<^sup>* c d \<Longrightarrow> wf c \<Longrightarrow> (withdrawn c i v \<longrightarrow> withdrawn d i v) \<and> (certified c i v \<longrightarrow> certified d i v)"
  by (auto intro: grownD(3,4)[OF conjunct2[OF run_grown]])

end

section \<open>The catalogue provides it\<close>

inductive cat_step :: "catalogue \<Rightarrow> catalogue \<Rightarrow> bool" where
  "cat_step c (snd (seed p cur c))"
| "cat_step c (snd (publish_item p c))"
| "cat_step c (snd (certify_local_demo i v u c))"
| "cat_step c (snd (withdraw i v c))"

text \<open>Entries are stored under their own identity and version; the pointer and the state axes only
  speak of stored versions.\<close>

definition cat_inv :: "catalogue \<Rightarrow> bool" where
  "cat_inv c \<longleftrightarrow>
     (\<forall>i v p. cat_get c i v = Some p \<longrightarrow> pv_identity_id p = i \<and> pv_version p = v) \<and>
     (\<forall>i v. dget (ct_current c) i = Some v \<longrightarrow> cat_get c i v \<noteq> None) \<and>
     (\<forall>i v. dget (ct_certification c) (i, v) \<noteq> None \<or> dget (ct_withdrawn c) (i, v) \<noteq> None \<longrightarrow> cat_get c i v \<noteq> None)"

lemma versions_Nil: "versions c i = [] \<longleftrightarrow> (\<forall>v. cat_get c i v = None)"
proof -
  have "versions c i = [] \<longleftrightarrow> filter (\<lambda>((j, _), _). j = i) (ct_versions c) = []"
    unfolding versions_def length_0_conv[symmetric] by simp
  also have "\<dots> \<longleftrightarrow> (\<forall>v. (i, v) \<notin> fst ` set (ct_versions c))"
    by (force simp: filter_empty_conv)
  also have "\<dots> \<longleftrightarrow> (\<forall>v. cat_get c i v = None)"
    by (simp add: cat_get_def map_of_eq_None_iff)
  finally show ?thesis .
qed

lemma cat_invD:
  assumes "cat_inv c"
  shows "cat_get c i v = Some p \<Longrightarrow> pv_identity_id p = i \<and> pv_version p = v"
    "dget (ct_current c) i = Some v \<Longrightarrow> cat_get c i v \<noteq> None"
    "dget (ct_certification c) (i, v) \<noteq> None \<Longrightarrow> cat_get c i v \<noteq> None"
    "dget (ct_withdrawn c) (i, v) \<noteq> None \<Longrightarrow> cat_get c i v \<noteq> None"
  using assms unfolding cat_inv_def by blast+

lemma cat_invI:
  assumes "\<And>i v p. cat_get c i v = Some p \<Longrightarrow> pv_identity_id p = i \<and> pv_version p = v"
    "\<And>i v. dget (ct_current c) i = Some v \<Longrightarrow> cat_get c i v \<noteq> None"
    "\<And>i v. dget (ct_certification c) (i, v) \<noteq> None \<Longrightarrow> cat_get c i v \<noteq> None"
    "\<And>i v. dget (ct_withdrawn c) (i, v) \<noteq> None \<Longrightarrow> cat_get c i v \<noteq> None"
  shows "cat_inv c"
  using assms unfolding cat_inv_def by blast

lemma current_version_iff:
  assumes "cat_inv c" shows "current_version c i = Inr v \<longleftrightarrow> dget (ct_current c) i = Some v"
proof
  assume "current_version c i = Inr v"
  then show "dget (ct_current c) i = Some v" by (auto simp: current_version_def split: if_splits option.splits)
next
  assume cur: "dget (ct_current c) i = Some v"
  note g = cat_invD(2)[OF assms cur]
  then have "versions c i \<noteq> []" unfolding versions_Nil by auto
  with cur g show "current_version c i = Inr v" by (simp add: current_version_def)
qed

lemma cat_get_put_item [simp]:
  "cat_get (put_item p c) i v = (if i = pv_identity_id p \<and> v = pv_version p then Some p else cat_get c i v)"
  by (auto simp: put_item_def cat_get_def)

lemma cat_get_updates [simp]:
  "cat_get (set_current i v c) j w = cat_get c j w"
  "cat_get (c\<lparr>ct_certification := A\<rparr>) j w = cat_get c j w" "cat_get (c\<lparr>ct_certified_by := B\<rparr>) j w = cat_get c j w"
  "cat_get (c\<lparr>ct_withdrawn := W\<rparr>) j w = cat_get c j w"
  by (simp_all add: cat_get_def set_current_def)

lemma cat_fields [simp]:
  "ct_current (put_item p c) = ct_current c" "ct_certification (put_item p c) = ct_certification c"
  "ct_withdrawn (put_item p c) = ct_withdrawn c" "ct_current (set_current i v c) = dset i v (ct_current c)"
  "ct_certification (set_current i v c) = ct_certification c" "ct_withdrawn (set_current i v c) = ct_withdrawn c"
  "ct_certified_by (put_item p c) = ct_certified_by c" "ct_certified_by (set_current i v c) = ct_certified_by c"
  by (simp_all add: put_item_def set_current_def)

abbreviation cat_grown :: "catalogue \<Rightarrow> catalogue \<Rightarrow> bool" where
  "cat_grown \<equiv> grown cat_get current_version is_withdrawn (\<lambda>c i v. certification_state c i v = ''certified'')"

text \<open>The shape of every change of the catalogue: an item at a key that is absent or already equal, a
  pointer that is kept or advanced to it, and axes changed at stored keys only.\<close>

lemma cat_step_growI:
  assumes inv: "cat_inv c"
    and item: "\<And>i v p. cat_get c i v = Some p \<Longrightarrow> cat_get d i v = Some p"
    and own: "\<And>i v p. cat_get d i v = Some p \<Longrightarrow> pv_identity_id p = i \<and> pv_version p = v"
    and cur: "\<And>i v. dget (ct_current c) i = Some v \<Longrightarrow> \<exists>w \<ge> v. dget (ct_current d) i = Some w"
      "\<And>i v. dget (ct_current d) i = Some v \<Longrightarrow> cat_get d i v \<noteq> None"
    and cert: "\<And>i v x. dget (ct_certification d) (i, v) = Some x \<Longrightarrow> cat_get d i v \<noteq> None"
      "\<And>i v. cat_get c i v \<noteq> None \<Longrightarrow> dget (ct_certification d) (i, v) = dget (ct_certification c) (i, v) \<or>
         dget (ct_certification d) (i, v) = Some ''certified''"
    and wd: "\<And>i v x. dget (ct_withdrawn d) (i, v) = Some x \<Longrightarrow> cat_get d i v \<noteq> None"
      "\<And>i v. cat_get c i v \<noteq> None \<Longrightarrow> dget (ct_withdrawn d) (i, v) = dget (ct_withdrawn c) (i, v) \<or>
         dget (ct_withdrawn d) (i, v) = Some True"
  shows "cat_inv d \<and> cat_grown c d"
proof
  show d: "cat_inv d" by (rule cat_invI) (use own cur(2) cert(1) wd(1) in blast)+
  have "is_withdrawn d i v" if "is_withdrawn c i v" for i v
  proof -
    have "dget (ct_withdrawn c) (i, v) = Some True" using that by (auto simp: is_withdrawn_def dget_or_def split: option.splits)
    moreover from this have "cat_get c i v \<noteq> None" by (intro cat_invD(4)[OF inv]) simp
    ultimately show ?thesis using wd(2)[of i v] by (auto simp: is_withdrawn_def dget_or_def)
  qed
  moreover have "certification_state d i v = ''certified''" if "certification_state c i v = ''certified''" for i v
  proof -
    have "dget (ct_certification c) (i, v) = Some ''certified''"
      using that by (auto simp: certification_state_def dget_or_def split: option.splits)
    moreover from this have "cat_get c i v \<noteq> None" by (intro cat_invD(3)[OF inv]) simp
    ultimately show ?thesis using cert(2)[of i v] by (auto simp: certification_state_def dget_or_def)
  qed
  ultimately show "cat_grown c d"
    unfolding grown_def current_version_iff[OF inv] current_version_iff[OF d] using item cur(1) by blast
qed

lemma cat_put_grow:
  assumes inv: "cat_inv c" and new: "cat_get c (pv_identity_id p) (pv_version p) \<in> {None, Some p}"
    and c': "c' = c \<or> c' = set_current (pv_identity_id p) (pv_version p) c"
    and up: "\<And>v. c' \<noteq> c \<Longrightarrow> dget (ct_current c) (pv_identity_id p) = Some v \<Longrightarrow> v \<le> pv_version p"
    and d: "ct_versions d = ct_versions (put_item p c')" "ct_current d = ct_current c'"
      "\<And>k. dget (ct_certification d) k = (if drop_axes \<and> k = (pv_identity_id p, pv_version p) then None else dget (ct_certification c) k)"
      "\<And>k. dget (ct_withdrawn d) k = (if drop_axes \<and> k = (pv_identity_id p, pv_version p) then None else dget (ct_withdrawn c) k)"
    and drop: "drop_axes \<Longrightarrow> cat_get c (pv_identity_id p) (pv_version p) = None"
  shows "cat_inv d \<and> cat_grown c d"
proof -
  have c'v: "cat_get c' i v = cat_get c i v" for i v using c' by auto
  have get: "cat_get d i v = (if i = pv_identity_id p \<and> v = pv_version p then Some p else cat_get c i v)" for i v
    using d(1) cat_get_put_item[of p c' i v] c'v by (simp add: cat_get_def)
  show ?thesis
  proof (rule cat_step_growI[OF inv])
    fix i v
    show "cat_get c i v = Some q \<Longrightarrow> cat_get d i v = Some q" for q using new by (auto simp: get)
    show "cat_get d i v = Some q \<Longrightarrow> pv_identity_id q = i \<and> pv_version q = v" for q
      using cat_invD(1)[OF inv] by (auto simp: get split: if_splits)
    show "dget (ct_current c) i = Some v \<Longrightarrow> \<exists>w \<ge> v. dget (ct_current d) i = Some w"
      using c' up[of v] by (cases "c' = c") (auto simp: d(2))
    show "dget (ct_current d) i = Some v \<Longrightarrow> cat_get d i v \<noteq> None"
      using c' cat_invD(2)[OF inv, of i v] by (cases "c' = c") (auto simp: d(2) get split: if_splits)
    show "dget (ct_certification d) (i, v) = Some x \<Longrightarrow> cat_get d i v \<noteq> None" for x
      using cat_invD(3)[OF inv, of i v] by (auto simp: d(3) get split: if_splits)
    show "dget (ct_withdrawn d) (i, v) = Some x \<Longrightarrow> cat_get d i v \<noteq> None" for x
      using cat_invD(4)[OF inv, of i v] by (auto simp: d(4) get split: if_splits)
    show "cat_get c i v \<noteq> None \<Longrightarrow> dget (ct_certification d) (i, v) = dget (ct_certification c) (i, v) \<or>
         dget (ct_certification d) (i, v) = Some ''certified''"
      using drop by (auto simp: d(3))
    show "cat_get c i v \<noteq> None \<Longrightarrow> dget (ct_withdrawn d) (i, v) = dget (ct_withdrawn c) (i, v) \<or>
         dget (ct_withdrawn d) (i, v) = Some True"
      using drop by (auto simp: d(4))
  qed
qed

lemma grown_refl: "grown get pointer withdrawn certified c c"
  by (auto simp: grown_def)

lemma seed_grow:
  assumes inv: "cat_inv c" shows "cat_inv (snd (seed p cur c)) \<and> cat_grown c (snd (seed p cur c))"
proof (cases "fst (seed p cur c)")
  case (Inl e)
  then have "snd (seed p cur c) = c" by (auto simp: seed_def Let_def split: if_splits sum.splits)
  then show ?thesis using inv grown_refl by simp
next
  case (Inr q)
  let ?i = "pv_identity_id p" and ?v = "pv_version p"
  have new: "cat_get c ?i ?v \<in> {None, Some p}"
    using Inr by (auto simp: seed_def Let_def cat_get_def split: if_splits)
  obtain c' where c': "c' = c \<or> c' = set_current ?i ?v c" "snd (seed p cur c) = put_item p c'"
    "\<And>v. c' \<noteq> c \<Longrightarrow> dget (ct_current c) ?i = Some v \<Longrightarrow> v \<le> ?v"
  proof -
    consider "\<not> cur" | "cur" "versions c ?i = []" | "cur" "versions c ?i \<noteq> []" by blast
    then show thesis
    proof cases
      case 1
      with Inr that[of c] show ?thesis by (auto simp: seed_def Let_def split: if_splits)
    next
      case 2
      with Inr that[of "set_current ?i ?v c"] show ?thesis by (auto simp: seed_def Let_def split: if_splits)
    next
      case 3
      with Inr obtain w where w: "current_version c ?i = Inr w" "\<not> ?v < w"
        by (auto simp: seed_def Let_def split: if_splits sum.splits)
      have "snd (seed p cur c) = put_item p (if ?v > w then set_current ?i ?v c else c)"
        using 3 Inr w by (auto simp: seed_def Let_def split: if_splits)
      with w current_version_iff[OF inv, of ?i w] that[of "if ?v > w then set_current ?i ?v c else c"] show ?thesis
        by (auto split: if_splits)
    qed
  qed
  show ?thesis unfolding c'(2)
    by (rule cat_put_grow[OF inv new c'(1,3), where drop_axes = False]) (use c'(1) in auto)
qed

lemma publish_item_grow:
  assumes inv: "cat_inv c" shows "cat_inv (snd (publish_item p c)) \<and> cat_grown c (snd (publish_item p c))"
proof (cases "fst (publish_item p c)")
  case (Inl e)
  then have "snd (publish_item p c) = c" by (auto simp: publish_item_def Let_def split: if_splits sum.splits)
  then show ?thesis using inv grown_refl by simp
next
  case (Inr q)
  let ?i = "pv_identity_id p" and ?v = "pv_version p"
  have new: "cat_get c ?i ?v = None" using Inr by (auto simp: publish_item_def Let_def cat_get_def split: if_splits)
  define c' where "c' = (case dget (ct_current c) ?i of None \<Rightarrow> set_current ?i ?v c
      | Some w \<Rightarrow> if ?v > w then set_current ?i ?v c else c)"
  have cur: "versions c ?i = [] \<Longrightarrow> dget (ct_current c) ?i = None" using cat_invD(2)[OF inv, of ?i] versions_Nil by force
  have swap: "set_current ?i ?v (put_item p c) = put_item p (set_current ?i ?v c)" by (simp add: set_current_def put_item_def)
  have d: "snd (publish_item p c) = (put_item p c')\<lparr>ct_certification := dpop (?i, ?v) (ct_certification c),
      ct_certified_by := dpop (?i, ?v) (ct_certified_by c), ct_withdrawn := dpop (?i, ?v) (ct_withdrawn c)\<rparr>"
  proof (cases "versions c ?i = []")
    case True
    with Inr cur swap show ?thesis by (auto simp: publish_item_def Let_def c'_def split: if_splits)
  next
    case False
    with Inr obtain w where w: "current_version c ?i = Inr w"
      by (cases "current_version c ?i") (auto simp: publish_item_def Let_def split: if_splits)
    then have "dget (ct_current c) ?i = Some w" by (simp add: current_version_iff[OF inv])
    with Inr False swap w show ?thesis by (auto simp: publish_item_def Let_def c'_def split: if_splits)
  qed
  show ?thesis
    by (rule cat_put_grow[OF inv, of p c', where drop_axes = True])
      (use new in \<open>auto simp: d c'_def split: option.splits if_splits\<close>)
qed

lemma certify_grow:
  assumes inv: "cat_inv c"
  shows "cat_inv (snd (certify_local_demo i v u c)) \<and> cat_grown c (snd (certify_local_demo i v u c))"
proof (cases "cat_get c i v = None")
  case False
  show ?thesis
    by (rule cat_step_growI[OF inv])
      (use False cat_invD[OF inv] in \<open>auto simp: certify_local_demo_def split: if_splits\<close>)
qed (use inv grown_refl in \<open>simp add: certify_local_demo_def\<close>)

lemma withdraw_grow:
  assumes inv: "cat_inv c"
  shows "cat_inv (snd (withdraw i v c)) \<and> cat_grown c (snd (withdraw i v c))"
proof (cases "cat_get c i v = None")
  case False
  show ?thesis
    by (rule cat_step_growI[OF inv])
      (use False cat_invD[OF inv] in \<open>auto simp: withdraw_def split: if_splits\<close>)
qed (use inv grown_refl in \<open>simp add: withdraw_def\<close>)

lemma cat_step_grow: "cat_step c d \<Longrightarrow> cat_inv c \<Longrightarrow> cat_inv d \<and> cat_grown c d"
  by (induction rule: cat_step.induct) (rule seed_grow publish_item_grow certify_grow withdraw_grow, assumption)+

lemma empty_catalogue_inv: "cat_inv empty_catalogue"
  by (simp add: cat_inv_def empty_catalogue_def cat_get_def)

interpretation local_catalogue: version_catalogue cat_step cat_inv cat_get current_version is_withdrawn
  "\<lambda>c i v. certification_state c i v = ''certified''"
proof unfold_locales
  fix c i v assume "cat_inv c" "current_version c i = Inr v"
  then show "cat_get c i v \<noteq> None" using cat_invD(2) current_version_iff by blast
qed (use cat_step_grow in blast)+

lemma cat_reachable_inv: "cat_step\<^sup>*\<^sup>* empty_catalogue c \<Longrightarrow> cat_inv c"
  using local_catalogue.run_grown[OF _ empty_catalogue_inv] by blast

text \<open>C24. The catalogue only grows: in every run from the empty catalogue a stored version is never replaced
  or removed, the explicit current pointer of an identity never moves to an older version and always
  names a stored version, and withdrawal and certification of a version are never undone, by seeding
  and publishing included.\<close>

theorem catalogue_only_grows:
  assumes c: "cat_step\<^sup>*\<^sup>* empty_catalogue c" and d: "cat_step\<^sup>*\<^sup>* c d"
  shows "(cat_get c i v = Some p \<longrightarrow> cat_get d i v = Some p) \<and>
    (current_version c i = Inr w \<longrightarrow> (\<exists>w'. current_version d i = Inr w' \<and> w \<le> w' \<and> cat_get d i w' \<noteq> None)) \<and>
    (is_withdrawn c i v \<longrightarrow> is_withdrawn d i v) \<and>
    (certification_state c i v = ''certified'' \<longrightarrow> certification_state d i v = ''certified'')"
proof (intro conjI impI)
  note inv = cat_reachable_inv[OF c]
  show "cat_get d i v = Some p" if "cat_get c i v = Some p"
    by (rule local_catalogue.recorded_version_resolves[OF d inv that])
  show "\<exists>w'. current_version d i = Inr w' \<and> w \<le> w' \<and> cat_get d i w' \<noteq> None" if "current_version c i = Inr w"
    using local_catalogue.pointer_monotone[OF d inv that] by auto
  show "is_withdrawn d i v" if "is_withdrawn c i v"
    using local_catalogue.axes_sticky[OF d inv] that by simp
  show "certification_state d i v = ''certified''" if "certification_state c i v = ''certified''"
    using local_catalogue.axes_sticky[OF d inv] that by simp
qed

section \<open>A sample\<close>

definition sample_package :: semantic_package where
  "sample_package = \<lparr>sp_calculation = sample_spec, sp_parameter_contract = cs_parameters sample_spec,
     sp_source_definition_id = ''m'', sp_source_definition_version = 2, sp_source_definition_checksum = ''c''\<rparr>"

definition sample_publication :: "nat \<Rightarrow> published_version" where
  "sample_publication v = \<lparr>pv_identity_id = ''m'', pv_version = v, pv_title = ''M'', pv_owner_user_id = ''alice'',
     pv_owner_label = ''alice'', pv_source_label = ''alice'', pv_definition_checksum = ''c'', pv_published_at = 1,
     pv_unit = ''ratio'', pv_value = None, pv_derived_from_identity = None, pv_derived_from_version = None,
     pv_semantic = Some sample_package\<rparr>"

definition sample_catalogue :: catalogue where
  "sample_catalogue = snd (withdraw ''m'' 2 (snd (publish_item (sample_publication 2) empty_catalogue)))"

lemma sample_catalogue_reachable: "cat_step\<^sup>*\<^sup>* empty_catalogue sample_catalogue"
proof -
  have "cat_step empty_catalogue (snd (publish_item (sample_publication 2) empty_catalogue))" by (rule cat_step.intros)
  moreover have "cat_step (snd (publish_item (sample_publication 2) empty_catalogue)) sample_catalogue"
    unfolding sample_catalogue_def by (rule cat_step.intros)
  ultimately show ?thesis by simp
qed

theorem catalogue_only_grows_witness:
  "\<exists>w. current_version (snd (publish_item (sample_publication 1) sample_catalogue)) ''m'' = Inr w \<and> 2 \<le> w"
proof -
  have "cat_step\<^sup>*\<^sup>* sample_catalogue (snd (publish_item (sample_publication 1) sample_catalogue))"
    by (rule r_into_rtranclp) (rule cat_step.intros)
  moreover have "current_version sample_catalogue ''m'' = Inr 2" by code_simp
  ultimately show ?thesis using catalogue_only_grows[OF sample_catalogue_reachable, of _ "''m''"] by blast
qed

end
