(* ===== verification/Publication_Service.thy ===== *)
theory Publication_Service
  imports Definition_Service Publication
begin

text \<open>
  The publication service (\<open>artifacts/publication_service.py\<close>): an exact, eligible definition version
  becomes an immutable catalogue entry.  The service works on the definition store and the catalogue
  together; an operation returns what it leaves of both, so that a failure after the catalogue was
  written would show.
\<close>

type_synonym publication_state = "definition_store \<times> catalogue"

definition package_of :: "(string \<Rightarrow> string) \<Rightarrow> definition_version \<Rightarrow> semantic_package" where
  "package_of h x = \<lparr>sp_calculation = dv_calculation x, sp_parameter_contract = dv_parameter_contract x,
     sp_source_definition_id = dv_definition_id x, sp_source_definition_version = dv_version x,
     sp_source_definition_checksum = version_checksum h x\<rparr>"

definition published_of ::
  "(string \<Rightarrow> string) \<Rightarrow> timestamp \<Rightarrow> string \<Rightarrow> string \<Rightarrow> nat \<Rightarrow> definition_version \<Rightarrow> published_version" where
  "published_of h now owner i v x =
     \<lparr>pv_identity_id = i, pv_version = v, pv_title = dv_title x, pv_owner_user_id = owner, pv_owner_label = owner,
      pv_source_label = owner, pv_definition_checksum = version_checksum h x, pv_published_at = now,
      pv_unit = unit_text (cs_unit (dv_calculation x)), pv_value = None,
      pv_derived_from_identity = dv_derived_from_definition_id x, pv_derived_from_version = dv_derived_from_version x,
      pv_semantic = Some (package_of h x)\<rparr>"

text \<open>Everything \<open>publish\<close> checks before it writes: the exact version, or the exception.\<close>

definition eligible_version :: "definition_store \<Rightarrow> catalogue \<Rightarrow> string \<Rightarrow> string \<Rightarrow> nat \<Rightarrow> definition_version result" where
  "eligible_version s c owner i v =
     (case get_owned_definition s owner i of Inl e \<Rightarrow> Inl e | Inr _ \<Rightarrow>
      case get_exact_version s owner i v of Inl e \<Rightarrow> Inl e | Inr exact \<Rightarrow>
      if cat_get c i v \<noteq> None then Inl (PublicationConflict ''publication_already_exists'') else
      case get_version_lifecycle s owner i v of Inl e \<Rightarrow> Inl e | Inr lifecycle \<Rightarrow>
      validated
        [(lc_confirmation lifecycle \<noteq> CONFIRMED, PublicationNotEligible ''publication_requires_confirmed''),
         (lc_retention lifecycle \<noteq> SAVED, PublicationNotEligible ''publication_requires_saved''),
         (\<not> dv_semantic_closed exact, PublicationNotEligible ''publication_requires_semantic_closure'')]
        exact)"

definition publish ::
  "(string \<Rightarrow> string) \<Rightarrow> timestamp \<Rightarrow> string \<Rightarrow> string \<Rightarrow> nat \<Rightarrow> publication_state \<Rightarrow> published_version result \<times> publication_state" where
  "publish h now owner i v = (\<lambda>(s, c).
     case eligible_version s c owner i v of Inl e \<Rightarrow> (Inl e, (s, c)) | Inr exact \<Rightarrow>
     case mk_semantic_package (package_of h exact) of Inl e \<Rightarrow> (Inl e, (s, c)) | Inr _ \<Rightarrow>
     let published = published_of h now owner i v exact in
     case publish_item published c of
       (Inl e, c') \<Rightarrow> (Inl e, (s, c'))
     | (Inr _, c') \<Rightarrow>
         (case project_published owner i v s of
            (Inl e, s') \<Rightarrow> (Inl e, (s', c'))
          | (Inr _, s') \<Rightarrow> (Inr published, (s', c'))))"

text \<open>\<open>PublicationService.project_certified\<close>: silent for an unknown definition and for a historical version.\<close>

definition project_certified_current :: "string \<Rightarrow> nat \<Rightarrow> string \<Rightarrow> unit operation" where
  "project_certified_current i v owner s =
     (case get_owned_definition s owner i of
        Inl e \<Rightarrow> if e = DefinitionNotFound then (Inr (), s) else (Inl e, s)
      | Inr current \<Rightarrow>
          if dv_version (cd_current_version current) \<noteq> v then (Inr (), s) else project_certified owner i s)"

section \<open>Eligibility\<close>

text \<open>In a state of the service, an eligible version is a stored, confirmed version of the owner, saved
  and closed; if it is the current one, the axes say so.\<close>

lemma eligible_versionD:
  assumes inv: "store_inv s" and el: "eligible_version s c owner i v = Inr x"
  obtains d where "owned s owner i = Inr d" "cat_get c i v = None" "dget (st_versions s) (i, v) = Some x"
    "dget (st_lifecycle s) (i, v) = Some \<lparr>lc_confirmation = CONFIRMED, lc_retention = SAVED\<rparr>" "coherent x"
    "dv_definition_id x = i" "dv_version x = v" "dv_semantic_closed x"
    "dv_version (cd_current_version d) = v \<Longrightarrow> ax_confirmation (cd_axes d) = CONFIRMED \<and> ax_retention (cd_axes d) = SAVED"
proof -
  obtain d l where d: "owned s owner i = Inr d" and x: "get_exact_version s owner i v = Inr x"
    and c: "cat_get c i v = None" and l: "get_version_lifecycle s owner i v = Inr l"
      "lc_confirmation l = CONFIRMED" "lc_retention l = SAVED"
    using el by (auto simp: eligible_version_def get_owned_definition_def split: sum.splits if_splits)
  have ok: "view_ok i (view_of s i)" using inv by (simp add: store_inv_def)
  obtain r where r: "dget (st_drafts s) i = Some r" "definition_ok i (view_of s i) d r"
    using view_ok_definition[OF ok d] .
  note D = definition_okD[OF r(2)]
  have stored: "dget (st_versions s) (i, v) = Some x"
  proof (cases "dget (st_versions s) (i, v)")
    case None
    with x d r(1) D(6) have "dv_version r = v" by (auto simp: get_exact_version_def split: if_splits)
    with None D(8) have "ax_confirmation (cd_axes d) \<noteq> CONFIRMED" by auto
    with r(2) \<open>dv_version r = v\<close> have "dget (st_lifecycle s) (i, v) = Some default_lifecycle" by (simp add: definition_ok_def)
    with l x show ?thesis by (simp add: get_version_lifecycle_def default_lifecycle_def) (auto simp: default_lifecycle_def)
  next
    case (Some y)
    with x d show ?thesis by (simp add: get_exact_version_def)
  qed
  have parts: "dv_definition_id x = i \<and> dv_version x = v \<and> dv_semantic_closed x \<and> coherent x \<and> dget (st_lifecycle s) (i, v) \<noteq> None"
    using view_ok_parts(1)[OF ok, of v x] stored by simp
  then have lc: "dget (st_lifecycle s) (i, v) = Some l" using l(1) x by (auto simp: get_version_lifecycle_def)
  moreover have "l = \<lparr>lc_confirmation = CONFIRMED, lc_retention = SAVED\<rparr>" using l(2,3) by simp
  moreover have "ax_confirmation (cd_axes d) = CONFIRMED \<and> ax_retention (cd_axes d) = SAVED"
    if "dv_version (cd_current_version d) = v"
    using that D(2,6) D(10)[of l] lc l(3) by (auto simp: axes_ok_def)
  ultimately show ?thesis using that d c stored parts by blast
qed

text \<open>The axes a publication leaves on the definition.\<close>

definition published_axes :: "definition_store \<Rightarrow> string \<Rightarrow> nat \<Rightarrow> definition_store" where
  "published_axes s i v =
     (case dget (st_definitions s) i of
        None \<Rightarrow> s
      | Some d \<Rightarrow> if dv_version (cd_current_version d) \<noteq> v then s
          else put_current i (d\<lparr>cd_axes := (cd_axes d)\<lparr>ax_publication := PUBLISHED, ax_certification := UNCERTIFIED\<rparr>\<rparr>) s)"

lemma publish_cases:
  assumes inv: "store_inv s"
  obtains (fails) e where "publish h now owner i v (s, c) = (Inl e, (s, c))"
  | (succeeds) x d c' where "eligible_version s c owner i v = Inr x" "owned s owner i = Inr d"
      "publish_item (published_of h now owner i v x) c = (Inr (published_of h now owner i v x), c')"
      "publish h now owner i v (s, c) = (Inr (published_of h now owner i v x), (published_axes s i v, c'))"
proof (cases "eligible_version s c owner i v")
  case (Inl e)
  then show ?thesis using fails by (simp add: publish_def)
next
  case (Inr x)
  obtain d where d: "owned s owner i = Inr d" "coherent x"
    "dv_version (cd_current_version d) = v \<Longrightarrow> ax_confirmation (cd_axes d) = CONFIRMED \<and> ax_retention (cd_axes d) = SAVED"
    using eligible_versionD[OF inv Inr] by metis
  have pkg: "mk_semantic_package (package_of h x) = Inr (package_of h x)"
    using d(2) by (simp add: mk_semantic_package_def package_of_def coherent_def)
  have proj: "project_published owner i v s = (Inr (), published_axes s i v)"
    using d(1,3) ownedE(1)[OF d(1)] by (auto simp: project_published_def published_axes_def Let_def)
  let ?p = "published_of h now owner i v x"
  obtain r c' where r: "publish_item ?p c = (r, c')" by fastforce
  show ?thesis
  proof (cases r)
    case (Inl e)
    then have "c' = c" using r by (auto simp: publish_item_def Let_def split: if_splits sum.splits)
    then show ?thesis using Inl r Inr pkg fails by (simp add: publish_def)
  next
    case (Inr q)
    then have "q = ?p" using r by (auto simp: publish_item_def Let_def split: if_splits sum.splits)
    then show ?thesis using Inr r \<open>eligible_version s c owner i v = Inr x\<close> pkg proj d(1) succeeds
      by (simp add: publish_def Let_def)
  qed
qed

lemma publish_item_get: "publish_item p c = (Inr q, c') \<Longrightarrow>
   cat_get c' i v = (if i = pv_identity_id p \<and> v = pv_version p then Some p else cat_get c i v)"
  by (auto simp: publish_item_def Let_def split: if_splits sum.splits option.splits)

text \<open>C23. Publishing is atomic and exact: in every state the definition service reaches, a publication
  that fails leaves the catalogue and the definitions as they were; one that succeeds was of a
  confirmed, saved and closed version of the caller's own definition, adds exactly one catalogue entry
  that carries that version's calculation, parameter contract and checksum, and changes no other.\<close>

theorem publish_atomic_and_exact:
  assumes "(service_step h g)\<^sup>*\<^sup>* empty_store s" "publish h now owner i v (s, c) = (r, (s', c'))"
  shows "case r of
      Inl e \<Rightarrow> s' = s \<and> c' = c
    | Inr p \<Rightarrow> (\<exists>x. get_exact_version s owner i v = Inr x \<and> dget (st_versions s) (i, v) = Some x \<and>
          dget (st_lifecycle s) (i, v) = Some \<lparr>lc_confirmation = CONFIRMED, lc_retention = SAVED\<rparr> \<and>
          dv_semantic_closed x \<and> pv_semantic p = Some (package_of h x) \<and> pv_owner_user_id p = owner) \<and>
        cat_get c i v = None \<and>
        (\<forall>j w. cat_get c' j w = (if j = i \<and> w = v then Some p else cat_get c j w)) \<and>
        s' = published_axes s i v"
proof -
  note inv = service_reachable_inv[OF assms(1)]
  show ?thesis
  proof (cases rule: publish_cases[OF inv, of h now owner i v c])
    case (1 e)
    then show ?thesis using assms(2) by simp
  next
    case (2 x d c'')
    obtain d' where "cat_get c i v = None" "dget (st_versions s) (i, v) = Some x"
      "dget (st_lifecycle s) (i, v) = Some \<lparr>lc_confirmation = CONFIRMED, lc_retention = SAVED\<rparr>" "dv_semantic_closed x"
      using eligible_versionD[OF inv 2(1)] by metis
    moreover from this have "get_exact_version s owner i v = Inr x" using 2(2) by (simp add: get_exact_version_def)
    ultimately show ?thesis using assms(2) 2(4) publish_item_get[OF 2(3)] by (auto simp: published_of_def)
  qed
qed

definition demo_published :: "published_version result \<times> publication_state" where
  "demo_published = publish (\<lambda>t. t) 50 demo_owner demo_id 1 (demo_saved, empty_catalogue)"

lemma demo_eligible: "eligible_version demo_saved empty_catalogue demo_owner demo_id 1 = Inr demo_version"
  by code_simp

definition demo_entry :: published_version where
  "demo_entry = published_of (\<lambda>t. t) 50 demo_owner demo_id 1 demo_version"

lemma demo_publish_run:
  obtains c where "publish (\<lambda>t. t) 50 demo_owner demo_id 1 (demo_saved, empty_catalogue) =
    (Inr demo_entry, (published_axes demo_saved demo_id 1, c))" "cat_get c demo_id 1 = Some demo_entry"
proof (cases rule: publish_cases[OF service_reachable_inv[OF demo_reachable(1)], of "\<lambda>t. t" 50 demo_owner demo_id 1 empty_catalogue])
  case (1 e)
  have "mk_semantic_package (package_of (\<lambda>t. t) demo_version) = Inr (package_of (\<lambda>t. t) demo_version)"
    by (simp add: mk_semantic_package_def package_of_def demo_version_def)
  moreover have "project_published demo_owner demo_id 1 demo_saved = (Inr (), published_axes demo_saved demo_id 1)" by code_simp
  ultimately show ?thesis using 1 demo_eligible
    by (simp add: publish_def publish_item_def published_of_def empty_catalogue_def versions_def Let_def)
next
  case (2 x d c')
  from publish_item_get[OF 2(3), of demo_id 1] have "cat_get c' demo_id 1 = Some demo_entry"
    using 2(1) demo_eligible by (simp add: demo_entry_def published_of_def)
  then show ?thesis using that[of c'] 2 demo_eligible by (simp add: demo_entry_def)
qed

theorem publish_atomic_and_exact_witness:
  "cat_get (snd (snd demo_published)) demo_id 1 = Some demo_entry"
proof -
  obtain c where run: "publish (\<lambda>t. t) 50 demo_owner demo_id 1 (demo_saved, empty_catalogue) =
    (Inr demo_entry, (published_axes demo_saved demo_id 1, c))"
    by (rule demo_publish_run)
  show ?thesis using publish_atomic_and_exact[OF demo_reachable(1)[of "\<lambda>t. t"] run] run
    by (simp add: demo_published_def)
qed

end
