(* ===== verification/Library.thy ===== *)
theory Library
  imports Publication "HOL-Library.Product_Lexorder"
begin

text \<open>
  The personal library (\<open>artifacts/library.py\<close>): installs, stars and withdrawal acknowledgements over
  the shared catalogue, which the operations read and only certification and withdrawal write.  A
  Python set is a list without repetitions.
\<close>

section \<open>State\<close>

record installed_metric_binding =
  ib_identity_id :: string
  ib_version :: nat
  ib_pinned :: bool

record library =
  lb_stars :: "(string \<times> string) list"
  lb_installs :: "(string \<times> string, installed_metric_binding) dict"
  lb_acknowledged :: "(string \<times> string \<times> nat) list"

definition empty_library :: library where
  "empty_library = \<lparr>lb_stars = [], lb_installs = [], lb_acknowledged = []\<rparr>"

definition publication_withdrawn :: string where
  "publication_withdrawn = ''publication_withdrawn''"

definition upgrade_requires_newer_version :: string where
  "upgrade_requires_newer_version = ''upgrade_requires_newer_version''"

definition local_demo_certification_provenance :: string where
  "local_demo_certification_provenance = ''local_demo_certification''"

definition not_connected :: string where
  "not_connected = ''NOT_CONNECTED''"

section \<open>Catalogue reads\<close>

definition lib_current_version :: "catalogue \<Rightarrow> string \<Rightarrow> nat result" where
  "lib_current_version c i =
     (case current_version c i of
        Inr v \<Rightarrow> Inr v
      | Inl (LookupError m) \<Rightarrow> Inl (LibraryIdentityNotFound m)
      | Inl e \<Rightarrow> Inl e)"

definition published_versions :: "catalogue \<Rightarrow> string \<Rightarrow> nat list" where
  "published_versions c i = map pv_version (versions c i)"

definition lib_forkable :: "catalogue \<Rightarrow> string \<Rightarrow> nat \<Rightarrow> bool" where
  "lib_forkable c i v = (case cat_get c i v of None \<Rightarrow> False | Some p \<Rightarrow> forkable p)"

section \<open>Installs\<close>

definition lib_install :: "catalogue \<Rightarrow> string \<Rightarrow> string \<Rightarrow> nat \<Rightarrow> library \<Rightarrow> installed_metric_binding result \<times> library" where
  "lib_install c u i v l =
     (if cat_get c i v = None then (Inl (LibraryIdentityNotFound ''library_version_not_found''), l)
      else if is_withdrawn c i v then (Inl (LibraryIdentityNotFound publication_withdrawn), l)
      else let b = \<lparr>ib_identity_id = i, ib_version = v, ib_pinned = True\<rparr>
           in (Inr b, l\<lparr>lb_installs := dset (u, i) b (lb_installs l)\<rparr>))"

definition uninstall :: "string \<Rightarrow> string \<Rightarrow> library \<Rightarrow> library" where
  "uninstall u i l = l\<lparr>lb_installs := dpop (u, i) (lb_installs l)\<rparr>"

definition get_install :: "library \<Rightarrow> string \<Rightarrow> string \<Rightarrow> installed_metric_binding option" where
  "get_install l u i = dget (lb_installs l) (u, i)"

definition installs_of :: "library \<Rightarrow> string \<Rightarrow> installed_metric_binding list" where
  "installs_of l u = map snd (filter (\<lambda>((owner, _), _). owner = u) (sort_key fst (lb_installs l)))"

definition update_available :: "catalogue \<Rightarrow> library \<Rightarrow> string \<Rightarrow> string \<Rightarrow> bool" where
  "update_available c l u i =
     (case dget (lb_installs l) (u, i) of
        None \<Rightarrow> False
      | Some b \<Rightarrow>
          (case current_version c i of
             Inl _ \<Rightarrow> False
           | Inr cur \<Rightarrow> if cat_get c i cur = None \<or> is_withdrawn c i cur then False else cur > ib_version b))"

definition lib_upgrade :: "catalogue \<Rightarrow> string \<Rightarrow> string \<Rightarrow> nat \<Rightarrow> library \<Rightarrow> installed_metric_binding result \<times> library" where
  "lib_upgrade c u i to l =
     (case get_install l u i of
        None \<Rightarrow> (Inl (LibraryIdentityNotFound ''library_install_required''), l)
      | Some b \<Rightarrow>
          if cat_get c i to = None then (Inl (LibraryIdentityNotFound ''library_version_not_found''), l)
          else if is_withdrawn c i to then (Inl (LibraryIdentityNotFound publication_withdrawn), l)
          else if to \<le> ib_version b then (Inl (LibraryIdentityNotFound upgrade_requires_newer_version), l)
          else lib_install c u i to l)"

section \<open>Stars and acknowledgements\<close>

definition star_count :: "library \<Rightarrow> string \<Rightarrow> nat" where
  "star_count l i = length (filter (\<lambda>(_, starred). starred = i) (lb_stars l))"

definition lib_star :: "catalogue \<Rightarrow> string \<Rightarrow> string \<Rightarrow> library \<Rightarrow> nat result \<times> library" where
  "lib_star c u i l =
     (if versions c i = [] then (Inl (LibraryIdentityNotFound ''library_identity_not_found''), l)
      else let l' = l\<lparr>lb_stars := List.insert (u, i) (lb_stars l)\<rparr> in (Inr (star_count l' i), l'))"

definition lib_unstar :: "string \<Rightarrow> string \<Rightarrow> library \<Rightarrow> nat \<times> library" where
  "lib_unstar u i l = (let l' = l\<lparr>lb_stars := removeAll (u, i) (lb_stars l)\<rparr> in (star_count l' i, l'))"

definition starred_of :: "library \<Rightarrow> string \<Rightarrow> string list" where
  "starred_of l u = sort (map snd (filter (\<lambda>(owner, _). owner = u) (lb_stars l)))"

definition is_starred :: "library \<Rightarrow> string \<Rightarrow> string \<Rightarrow> bool" where
  "is_starred l u i \<longleftrightarrow> (u, i) \<in> set (lb_stars l)"

definition lib_acknowledge_withdrawal :: "string \<Rightarrow> string \<Rightarrow> nat \<Rightarrow> library \<Rightarrow> unit result \<times> library" where
  "lib_acknowledge_withdrawal u i v l =
     (case dget (lb_installs l) (u, i) of
        None \<Rightarrow> (Inl (LibraryIdentityNotFound ''library_install_required''), l)
      | Some b \<Rightarrow>
          if ib_version b \<noteq> v then (Inl (LibraryIdentityNotFound ''library_acknowledgement_version_mismatch''), l)
          else (Inr (), l\<lparr>lb_acknowledged := List.insert (u, i, v) (lb_acknowledged l)\<rparr>))"

definition is_acknowledged :: "library \<Rightarrow> string \<Rightarrow> string \<Rightarrow> nat \<Rightarrow> bool" where
  "is_acknowledged l u i v \<longleftrightarrow> (u, i, v) \<in> set (lb_acknowledged l)"

definition lib_certify_local_demo :: "string \<Rightarrow> nat \<Rightarrow> string \<Rightarrow> catalogue \<Rightarrow> string result \<times> catalogue" where
  "lib_certify_local_demo i v by_user c =
     (case certify_local_demo i v by_user c of
        (Inl e, c') \<Rightarrow> (Inl e, c')
      | (Inr _, c') \<Rightarrow> (Inr local_demo_certification_provenance, c'))"

definition lib_withdraw :: "string \<Rightarrow> nat \<Rightarrow> catalogue \<Rightarrow> unit result \<times> catalogue" where
  "lib_withdraw i v c = withdraw i v c"

section \<open>Personal steps\<close>

text \<open>What one user can do to the library; the catalogue is read only.\<close>

inductive personal_step :: "catalogue \<Rightarrow> string \<Rightarrow> library \<Rightarrow> library \<Rightarrow> bool" for c u where
  install: "personal_step c u l (snd (lib_install c u i v l))"
| uninstall: "personal_step c u l (uninstall u i l)"
| upgrade: "personal_step c u l (snd (lib_upgrade c u i v l))"
| star: "personal_step c u l (snd (lib_star c u i l))"
| unstar: "personal_step c u l (snd (lib_unstar u i l))"
| acknowledge: "personal_step c u l (snd (lib_acknowledge_withdrawal u i v l))"

inductive library_step :: "catalogue \<times> library \<Rightarrow> catalogue \<times> library \<Rightarrow> bool" where
  personal: "personal_step c u l l' \<Longrightarrow> library_step (c, l) (c, l')"
| shared: "cat_step c c' \<Longrightarrow> library_step (c, l) (c', l)"

text \<open>Installs are pinned, of stored versions, under their own identity; stars are of known identities
  and counted once per user.\<close>

definition library_inv :: "catalogue \<times> library \<Rightarrow> bool" where
  "library_inv = (\<lambda>(c, l). cat_inv c \<and> distinct (lb_stars l) \<and>
     (\<forall>u i. (u, i) \<in> set (lb_stars l) \<longrightarrow> versions c i \<noteq> []) \<and>
     (\<forall>u i b. dget (lb_installs l) (u, i) = Some b \<longrightarrow>
        ib_identity_id b = i \<and> ib_pinned b \<and> cat_get c i (ib_version b) \<noteq> None))"

lemma lib_install_cases:
  "snd (lib_install c u i v l) = l \<or>
   cat_get c i v \<noteq> None \<and> \<not> is_withdrawn c i v \<and>
   snd (lib_install c u i v l) = l\<lparr>lb_installs := dset (u, i) \<lparr>ib_identity_id = i, ib_version = v, ib_pinned = True\<rparr> (lb_installs l)\<rparr>"
  by (simp add: lib_install_def Let_def)

lemma lib_upgrade_cases:
  "snd (lib_upgrade c u i v l) = l \<or> (\<exists>b. get_install l u i = Some b \<and> ib_version b < v \<and> snd (lib_upgrade c u i v l) = snd (lib_install c u i v l))"
  by (auto simp: lib_upgrade_def split: option.splits)

lemma library_inv_install:
  assumes "library_inv (c, l)" shows "library_inv (c, snd (lib_install c u i v l))"
  using lib_install_cases[of c u i v l] assms
  by (auto simp: library_inv_def split: if_splits)

lemma library_inv_personal:
  assumes "personal_step c u l l'" "library_inv (c, l)" shows "library_inv (c, l')"
  using assms
proof (induction rule: personal_step.induct)
  case (install l i v)
  then show ?case by (rule library_inv_install)
next
  case (upgrade l i v)
  then show ?case using lib_upgrade_cases[of c u i v l] library_inv_install by auto
next
  case (uninstall l i)
  then show ?case by (auto simp: library_inv_def uninstall_def)
next
  case (star l i)
  then show ?case by (auto simp: library_inv_def lib_star_def Let_def)
next
  case (unstar l i)
  then show ?case by (auto simp: library_inv_def lib_unstar_def Let_def distinct_removeAll)
next
  case (acknowledge l i v)
  then show ?case by (auto simp: library_inv_def lib_acknowledge_withdrawal_def split: option.splits)
qed

lemma library_inv_step: "library_step x y \<Longrightarrow> library_inv x \<Longrightarrow> library_inv y"
proof (induction rule: library_step.induct)
  case (personal c u l l')
  then show ?case using library_inv_personal by blast
next
  case (shared c c' l)
  then have g: "cat_inv c'" "cat_grown c c'" using cat_step_grow[of c c'] by (auto simp: library_inv_def)
  have "versions c i \<noteq> [] \<Longrightarrow> versions c' i \<noteq> []" for i
    using grownD(1)[OF g(2)] unfolding versions_Nil by (metis option.exhaust)
  moreover have "cat_get c i v \<noteq> None \<Longrightarrow> cat_get c' i v \<noteq> None" for i v
    using grownD(1)[OF g(2)] by (metis option.exhaust option.discI)
  ultimately show ?case using shared.prems g(1) unfolding library_inv_def by auto
qed

interpretation library_sys: invariant_system "\<lambda>x. x = (empty_catalogue, empty_library)" library_step library_inv
proof unfold_locales
  fix x assume "x = (empty_catalogue, empty_library)"
  then show "library_inv x" using empty_catalogue_inv by (simp add: library_inv_def empty_library_def)
qed (rule library_inv_step)


text \<open>One user's actions never touch another user's installs, stars or acknowledgements; nothing but an
  explicit install, uninstall or upgrade of the same identity changes an install; and an upgrade never
  lowers the version nor moves to a withdrawn one.\<close>

theorem personal_state_isolated:
  assumes "personal_step c u l l'" "w \<noteq> u"
  shows "get_install l' w i = get_install l w i \<and> (is_starred l' w i \<longleftrightarrow> is_starred l w i) \<and>
    (is_acknowledged l' w i v \<longleftrightarrow> is_acknowledged l w i v) \<and>
    (fst (lib_upgrade c u i v l) = Inr b \<longrightarrow>
       (\<exists>b0. get_install l u i = Some b0 \<and> ib_version b0 < v) \<and> ib_version b = v \<and> \<not> is_withdrawn c i v \<and>
       get_install (snd (lib_upgrade c u i v l)) u i = Some b)"
proof -
  have "get_install l' w i = get_install l w i \<and> (is_starred l' w i \<longleftrightarrow> is_starred l w i) \<and>
      (is_acknowledged l' w i v \<longleftrightarrow> is_acknowledged l w i v)"
    using assms
    by (induction rule: personal_step.induct)
      (auto simp: lib_install_def uninstall_def lib_upgrade_def lib_star_def lib_unstar_def lib_acknowledge_withdrawal_def
        get_install_def is_starred_def is_acknowledged_def Let_def split: option.splits)
  moreover have "fst (lib_upgrade c u i v l) = Inr b \<longrightarrow>
       (\<exists>b0. get_install l u i = Some b0 \<and> ib_version b0 < v) \<and> ib_version b = v \<and> \<not> is_withdrawn c i v \<and>
       get_install (snd (lib_upgrade c u i v l)) u i = Some b"
    by (auto simp: lib_upgrade_def lib_install_def get_install_def Let_def split: option.splits if_splits)
  ultimately show ?thesis by simp
qed

definition sample_shelf :: library where
  "sample_shelf = snd (lib_install (snd (publish_item (sample_publication 2) empty_catalogue)) ''bob'' ''m'' 2 empty_library)"

lemma sample_shelf_install:
  "get_install sample_shelf ''bob'' ''m'' = Some \<lparr>ib_identity_id = ''m'', ib_version = 2, ib_pinned = True\<rparr>"
  by code_simp


theorem personal_state_isolated_witness:
  "get_install (uninstall ''eve'' ''m'' sample_shelf) ''bob'' ''m'' = get_install sample_shelf ''bob'' ''m''"
  using personal_state_isolated[OF personal_step.uninstall[of sample_catalogue "''eve''" sample_shelf "''m''"], of "''bob''" "''m''"]
  by simp

end
