(* ===== verification/Product_Library.thy ===== *)
theory Product_Library
  imports Publication_Service Library
begin

text \<open>
  The product library service (\<open>artifacts/product_library_service.py\<close>): every authority decision over the
  catalogue, the personal library and the definitions.  Its state is the three stores; the deployment
  facts that decide who may certify are an argument.
\<close>

section \<open>State and authority\<close>

record product =
  pr_definitions :: definition_store
  pr_catalogue :: catalogue
  pr_library :: library

record certification_authority =
  au_service_mode :: string
  au_typed_runtime_activation :: string
  au_admin_user_id :: "string option"

definition authority_available :: "certification_authority \<Rightarrow> bool" where
  "authority_available a \<longleftrightarrow> au_service_mode a = ''infra-dev'' \<and>
     au_typed_runtime_activation a = ''local_real_data_demo'' \<and>
     (case au_admin_user_id a of None \<Rightarrow> False | Some u \<Rightarrow> u \<noteq> [])"

definition authority_allows :: "certification_authority \<Rightarrow> string \<Rightarrow> bool" where
  "authority_allows a u \<longleftrightarrow> authority_available a \<and> au_admin_user_id a = Some u"

section \<open>Views\<close>

record version_view =
  vv_version :: nat
  vv_title :: string
  vv_published_at :: timestamp
  vv_unit :: string
  vv_certification_state :: string
  vv_withdrawn :: bool
  vv_forkable :: bool
  vv_derived_from_identity :: "string option"
  vv_derived_from_version :: "nat option"

definition version_view_of :: "catalogue \<Rightarrow> string \<Rightarrow> published_version \<Rightarrow> version_view" where
  "version_view_of c i p =
     \<lparr>vv_version = pv_version p, vv_title = pv_title p, vv_published_at = pv_published_at p, vv_unit = pv_unit p,
      vv_certification_state = certification_state c i (pv_version p), vv_withdrawn = is_withdrawn c i (pv_version p),
      vv_forkable = forkable p, vv_derived_from_identity = pv_derived_from_identity p,
      vv_derived_from_version = pv_derived_from_version p\<rparr>"

record catalogue_entry =
  en_identity_id :: string
  en_title :: string
  en_owner_label :: string
  en_source_label :: string
  en_current_version :: nat
  en_star_count :: nat
  en_versions :: "version_view list"

text \<open>One iteration of \<open>catalogue_entries\<close>: \<^const>\<open>None\<close> is a \<open>continue\<close>.\<close>

definition catalogue_entry_of :: "catalogue \<Rightarrow> library \<Rightarrow> string \<Rightarrow> catalogue_entry option" where
  "catalogue_entry_of c l i =
     (if versions c i = [] then None
      else case current_version c i of
        Inl _ \<Rightarrow> None
      | Inr current \<Rightarrow>
          (case cat_get c i current of
             None \<Rightarrow> None
           | Some p \<Rightarrow>
               if is_withdrawn c i current then None
               else Some \<lparr>en_identity_id = i, en_title = title c i, en_owner_label = pv_owner_label p,
                          en_source_label = pv_source_label p, en_current_version = current,
                          en_star_count = star_count l i,
                          en_versions = map (version_view_of c i) (versions c i)\<rparr>))"

definition catalogue_entries :: "catalogue \<Rightarrow> library \<Rightarrow> catalogue_entry list" where
  "catalogue_entries c l = List.map_filter (catalogue_entry_of c l) (identities c)"

record library_entry =
  le_identity_id :: string
  le_installed_version :: nat
  le_pinned :: bool
  le_current_version :: nat
  le_update_available :: bool
  le_starred :: bool
  le_star_count :: nat
  le_certification_state :: string
  le_withdrawn :: bool
  le_withdrawal_acknowledged :: bool
  le_forkable :: bool
  le_title :: string
  le_unit :: string
  le_derived_from_identity :: "string option"
  le_derived_from_version :: "nat option"

definition library_entry_of :: "catalogue \<Rightarrow> library \<Rightarrow> string \<Rightarrow> installed_metric_binding \<Rightarrow> library_entry option" where
  "library_entry_of c l u b =
     (let i = ib_identity_id b; v = ib_version b in
      case cat_get c i v of
        None \<Rightarrow> None
      | Some p \<Rightarrow>
          (case current_version c i of
             Inl _ \<Rightarrow> None
           | Inr current \<Rightarrow>
               Some \<lparr>le_identity_id = i, le_installed_version = v, le_pinned = ib_pinned b, le_current_version = current,
                     le_update_available = update_available c l u i, le_starred = is_starred l u i,
                     le_star_count = star_count l i, le_certification_state = certification_state c i v,
                     le_withdrawn = is_withdrawn c i v, le_withdrawal_acknowledged = is_acknowledged l u i v,
                     le_forkable = forkable p, le_title = pv_title p, le_unit = pv_unit p,
                     le_derived_from_identity = pv_derived_from_identity p,
                     le_derived_from_version = pv_derived_from_version p\<rparr>))"

definition library_entries :: "catalogue \<Rightarrow> library \<Rightarrow> string \<Rightarrow> library_entry list" where
  "library_entries c l u = List.map_filter (library_entry_of c l u) (installs_of l u)"

section \<open>Operations\<close>

type_synonym 'a product_operation = "product \<Rightarrow> 'a result \<times> product"

text \<open>An operation on the library alone, lifted to the product.\<close>

definition on_library :: "(library \<Rightarrow> 'a result \<times> library) \<Rightarrow> 'a product_operation" where
  "on_library f x = (let (r, l) = f (pr_library x) in (r, x\<lparr>pr_library := l\<rparr>))"

record install_result =
  ir_identity_id :: string
  ir_installed_version :: nat

definition install_result_of :: "string \<Rightarrow> installed_metric_binding result \<times> product \<Rightarrow> install_result result \<times> product" where
  "install_result_of i rx = (map_sum id (\<lambda>b. \<lparr>ir_identity_id = i, ir_installed_version = ib_version b\<rparr>) (fst rx), snd rx)"

definition install :: "string \<Rightarrow> string \<Rightarrow> nat \<Rightarrow> install_result product_operation" where
  "install u i v x = install_result_of i (on_library (lib_install (pr_catalogue x) u i v) x)"

definition product_uninstall :: "string \<Rightarrow> string \<Rightarrow> product \<Rightarrow> product" where
  "product_uninstall u i x = x\<lparr>pr_library := uninstall u i (pr_library x)\<rparr>"

definition star :: "string \<Rightarrow> string \<Rightarrow> nat product_operation" where
  "star u i x = on_library (lib_star (pr_catalogue x) u i) x"

definition unstar :: "string \<Rightarrow> string \<Rightarrow> nat product_operation" where
  "unstar u i x = on_library (\<lambda>l. let (n, l') = lib_unstar u i l in (Inr n, l')) x"

definition upgrade :: "string \<Rightarrow> string \<Rightarrow> nat \<Rightarrow> install_result product_operation" where
  "upgrade u i to x =
     (if cat_get (pr_catalogue x) i to = None then (Inl (LibraryVersionNotFound ''library_version_not_found''), x)
      else install_result_of i (on_library (lib_upgrade (pr_catalogue x) u i to) x))"

record acknowledgement_result =
  ar_identity_id :: string
  ar_version :: nat
  ar_withdrawn :: bool
  ar_withdrawal_acknowledged :: bool

definition acknowledge_withdrawal :: "string \<Rightarrow> string \<Rightarrow> nat \<Rightarrow> acknowledgement_result product_operation" where
  "acknowledge_withdrawal u i v x =
     (if cat_get (pr_catalogue x) i v = None then (Inl (LibraryVersionNotFound ''library_version_not_found''), x)
      else case lib_acknowledge_withdrawal u i v (pr_library x) of
        (Inl (LibraryIdentityNotFound m), l) \<Rightarrow> (Inl (LibraryVersionNotFound m), x\<lparr>pr_library := l\<rparr>)
      | (Inl e, l) \<Rightarrow> (Inl e, x\<lparr>pr_library := l\<rparr>)
      | (Inr _, l) \<Rightarrow>
          (Inr \<lparr>ar_identity_id = i, ar_version = v, ar_withdrawn = is_withdrawn (pr_catalogue x) i v, ar_withdrawal_acknowledged = True\<rparr>,
           x\<lparr>pr_library := l\<rparr>))"

definition fork :: "string \<Rightarrow> timestamp \<Rightarrow> string \<Rightarrow> string \<Rightarrow> nat \<Rightarrow> string \<Rightarrow> definition_version product_operation" where
  "fork uuid now u i v ttl x =
     (case cat_get (pr_catalogue x) i v of
        None \<Rightarrow> (Inl (LibraryVersionNotFound ''library_version_not_found''), x)
      | Some p \<Rightarrow>
          if (case get_install (pr_library x) u i of None \<Rightarrow> True | Some b \<Rightarrow> ib_version b \<noteq> v)
          then (Inl (LibraryVersionNotFound ''library_install_required''), x)
          else (case pv_semantic p of
                  None \<Rightarrow> (Inl PublicationNotForkable, x)
                | Some sp \<Rightarrow>
                    let (r, s) = create_fork uuid now u ttl (sp_calculation sp) i v (pr_definitions x)
                    in (r, x\<lparr>pr_definitions := s\<rparr>)))"

record certification_result =
  cr_identity_id :: string
  cr_version :: nat
  cr_certification_state :: string
  cr_authority_provenance :: string
  cr_production_certification :: string

definition certify :: "certification_authority \<Rightarrow> string \<Rightarrow> string \<Rightarrow> nat \<Rightarrow> certification_result product_operation" where
  "certify a u i v x =
     (if \<not> authority_allows a u then (Inl (CertificationForbidden ''local_demo_certification_forbidden''), x)
      else if cat_get (pr_catalogue x) i v = None then (Inl (LibraryVersionNotFound ''library_version_not_found''), x)
      else case lib_certify_local_demo i v u (pr_catalogue x) of
        (Inl e, c) \<Rightarrow> (Inl e, x\<lparr>pr_catalogue := c\<rparr>)
      | (Inr _, c) \<Rightarrow>
          (case (case cat_get c i v of
                   None \<Rightarrow> (Inr (), pr_definitions x)
                 | Some p \<Rightarrow> project_certified_current i v (pv_owner_user_id p) (pr_definitions x)) of
             (Inl e, s) \<Rightarrow> (Inl e, x\<lparr>pr_catalogue := c, pr_definitions := s\<rparr>)
           | (Inr _, s) \<Rightarrow>
               (Inr \<lparr>cr_identity_id = i, cr_version = v, cr_certification_state = certification_state c i v,
                     cr_authority_provenance = local_demo_certification_provenance,
                     cr_production_certification = not_connected\<rparr>,
                x\<lparr>pr_catalogue := c, pr_definitions := s\<rparr>)))"

record withdrawal_result =
  wr_identity_id :: string
  wr_version :: nat
  wr_withdrawn :: bool

definition product_withdraw :: "string \<Rightarrow> string \<Rightarrow> nat \<Rightarrow> withdrawal_result product_operation" where
  "product_withdraw u i v x =
     (case cat_get (pr_catalogue x) i v of
        None \<Rightarrow> (Inl (LibraryVersionNotFound ''library_version_not_found''), x)
      | Some p \<Rightarrow>
          if pv_owner_user_id p \<noteq> u then (Inl (WithdrawalForbidden ''withdrawal_owner_required''), x)
          else (case lib_withdraw i v (pr_catalogue x) of
                  (Inl e, c) \<Rightarrow> (Inl e, x\<lparr>pr_catalogue := c\<rparr>)
                | (Inr _, c) \<Rightarrow>
                    (Inr \<lparr>wr_identity_id = i, wr_version = v, wr_withdrawn = is_withdrawn c i v\<rparr>, x\<lparr>pr_catalogue := c\<rparr>)))"

text \<open>The publication service on the product.\<close>

definition product_publish ::
  "(string \<Rightarrow> string) \<Rightarrow> timestamp \<Rightarrow> string \<Rightarrow> string \<Rightarrow> nat \<Rightarrow> published_version product_operation" where
  "product_publish h now owner i v x =
     (let (r, s, c) = publish h now owner i v (pr_definitions x, pr_catalogue x)
      in (r, x\<lparr>pr_definitions := s, pr_catalogue := c\<rparr>))"

section \<open>Runs of the product\<close>

text \<open>One action of one user.  Authoring is any operation of the definition service.\<close>

inductive product_step ::
  "(string \<Rightarrow> string) \<Rightarrow> (string \<Rightarrow> bool) \<Rightarrow> certification_authority \<Rightarrow> string \<Rightarrow> product \<Rightarrow> product \<Rightarrow> bool"
  for h g a where
  authoring: "service_step h g (pr_definitions x) s \<Longrightarrow> product_step h g a u x (x\<lparr>pr_definitions := s\<rparr>)"
| publishing: "product_step h g a u x (snd (product_publish h now u i v x))"
| personal: "personal_step (pr_catalogue x) u (pr_library x) l \<Longrightarrow> product_step h g a u x (x\<lparr>pr_library := l\<rparr>)"
| forking: "dget (st_drafts (pr_definitions x)) (new_definition_id uuid) = None \<Longrightarrow>
    product_step h g a u x (snd (fork uuid now u i v ttl x))"
| certifying: "product_step h g a u x (snd (certify a u i v x))"
| withdrawing: "product_step h g a u x (snd (product_withdraw u i v x))"

definition any_product_step ::
  "(string \<Rightarrow> string) \<Rightarrow> (string \<Rightarrow> bool) \<Rightarrow> certification_authority \<Rightarrow> product \<Rightarrow> product \<Rightarrow> bool" where
  "any_product_step h g a x y \<longleftrightarrow> (\<exists>u. product_step h g a u x y)"

text \<open>The personal operations of the service are the personal steps of the library.\<close>

lemma on_library_snd [simp]: "snd (on_library f x) = x\<lparr>pr_library := snd (f (pr_library x))\<rparr>"
  by (simp add: on_library_def split: prod.splits)

lemma acknowledge_snd:
  "snd (acknowledge_withdrawal u i v x) = x \<or>
   snd (acknowledge_withdrawal u i v x) = x\<lparr>pr_library := snd (lib_acknowledge_withdrawal u i v (pr_library x))\<rparr>"
  by (cases "lib_acknowledge_withdrawal u i v (pr_library x)")
    (auto simp: acknowledge_withdrawal_def split: sum.splits exn.splits)

lemma product_personal_operations:
  "product_step h g a u x (snd (install u i v x))" "product_step h g a u x (product_uninstall u i x)"
  "product_step h g a u x (snd (star u i x))" "product_step h g a u x (snd (unstar u i x))"
  "snd (upgrade u i v x) = x \<or> product_step h g a u x (snd (upgrade u i v x))"
  "snd (acknowledge_withdrawal u i v x) = x \<or> product_step h g a u x (snd (acknowledge_withdrawal u i v x))"
proof -
  note P = product_step.personal
  show "product_step h g a u x (snd (install u i v x))"
    using P[OF personal_step.install] by (simp add: install_def install_result_of_def)
  show "product_step h g a u x (product_uninstall u i x)"
    using P[OF personal_step.uninstall] by (simp add: product_uninstall_def)
  show "product_step h g a u x (snd (star u i x))" using P[OF personal_step.star] by (simp add: star_def)
  show "product_step h g a u x (snd (unstar u i x))"
    using P[OF personal_step.unstar, of h g a u x i] by (simp add: unstar_def Let_def case_prod_beta)
  show "snd (upgrade u i v x) = x \<or> product_step h g a u x (snd (upgrade u i v x))"
    using P[OF personal_step.upgrade] by (simp add: upgrade_def install_result_of_def)
  show "snd (acknowledge_withdrawal u i v x) = x \<or> product_step h g a u x (snd (acknowledge_withdrawal u i v x))"
    using acknowledge_snd[of u i v x] P[OF personal_step.acknowledge] by auto
qed

text \<open>A fresh deployment: no definitions, no personal state, and a catalogue seeded with identities that
  are not definitions.\<close>

definition product_init :: "product \<Rightarrow> bool" where
  "product_init x \<longleftrightarrow> pr_definitions x = empty_store \<and> pr_library x = empty_library \<and> cat_inv (pr_catalogue x) \<and>
     (\<forall>i v. is_definition_id i \<longrightarrow> cat_get (pr_catalogue x) i v = None)"

text \<open>An entry of a definition and the definition agree.\<close>

definition entry_backed :: "(string \<Rightarrow> string) \<Rightarrow> definition_store \<Rightarrow> string \<Rightarrow> nat \<Rightarrow> published_version \<Rightarrow> bool" where
  "entry_backed h s i v p \<longleftrightarrow>
     (\<exists>d y. dget (st_definitions s) i = Some d \<and> cd_owner_user_id d = pv_owner_user_id p \<and>
        dget (st_versions s) (i, v) = Some y \<and> pv_semantic p = Some (package_of h y) \<and>
        (dv_version (cd_current_version d) = v \<longrightarrow> ax_publication (cd_axes d) = PUBLISHED))"

definition product_inv :: "(string \<Rightarrow> string) \<Rightarrow> product \<Rightarrow> bool" where
  "product_inv h x \<longleftrightarrow> store_inv (pr_definitions x) \<and> library_inv (pr_catalogue x, pr_library x) \<and>
     (\<forall>i v p. is_definition_id i \<and> cat_get (pr_catalogue x) i v = Some p \<longrightarrow> entry_backed h (pr_definitions x) i v p)"

lemma product_invD:
  assumes "product_inv h x"
  shows "store_inv (pr_definitions x)" "library_inv (pr_catalogue x, pr_library x)" "cat_inv (pr_catalogue x)"
    "is_definition_id i \<Longrightarrow> cat_get (pr_catalogue x) i v = Some p \<Longrightarrow> entry_backed h (pr_definitions x) i v p"
  using assms by (auto simp: product_inv_def library_inv_def)

subsection \<open>Definitions change under the entries\<close>

lemma package_of_content: "same_content y z \<Longrightarrow> package_of h y = package_of h z"
  by (simp add: package_of_def same_content_fields same_content_checksum)

text \<open>No operation of the definition service takes PUBLISHED off the current version.\<close>

definition keeps_published :: "definition_store \<Rightarrow> definition_store \<Rightarrow> bool" where
  "keeps_published s t \<longleftrightarrow>
     (\<forall>i d d'. dget (st_definitions s) i = Some d \<and> dget (st_definitions t) i = Some d' \<and>
        dv_version (cd_current_version d') = dv_version (cd_current_version d) \<and> ax_publication (cd_axes d) = PUBLISHED \<longrightarrow>
        ax_publication (cd_axes d') = PUBLISHED)"

lemma keeps_published_refl [simp]: "keeps_published s s"
  by (auto simp: keeps_published_def)

lemma keeps_published_put:
  assumes "owned s owner i = Inr d" "st_definitions t = dset i d' (st_definitions s)"
    and "dv_version (cd_current_version d') = dv_version (cd_current_version d) \<Longrightarrow>
      ax_publication (cd_axes d) = PUBLISHED \<Longrightarrow> ax_publication (cd_axes d') = PUBLISHED"
  shows "keeps_published s t"
  using assms(2,3) ownedE(1)[OF assms(1)] by (auto simp: keeps_published_def)

lemma store_new_definitions:
  assumes "store_inv s" "dget (st_drafts s) (dv_definition_id v) = None"
  shows "keeps_published s (snd (store_new owner v s))"
proof -
  have "dget (st_definitions s) (dv_definition_id v) = None"
  proof (cases "dget (st_definitions s) (dv_definition_id v)")
    case (Some d)
    then show ?thesis using store_inv_definition[OF assms(1) Some] assms(2) by auto
  qed
  then show ?thesis by (auto simp: keeps_published_def store_new_def Let_def split: sum.splits)
qed

lemma service_keeps_published:
  assumes "service_step h g s t" "store_inv s"
  shows "keeps_published s t"
  using assms
proof (induction rule: service_step.induct)
  case (1 s u now owner title c pc)
  then show ?case using store_new_definitions
    by (auto simp: create_draft_def split: sum.splits dest!: mk_definition_version_ok)
next
  case (2 s u now owner title c i v)
  then show ?case using store_new_definitions
    by (auto simp: create_fork_def split: sum.splits dest!: mk_definition_version_ok)
next
  case (3 s owner i c pc t)
  then show ?case by (auto simp: update_draft_def put_current_def split: sum.splits intro: keeps_published_put)
next
  case (4 s owner i)
  then show ?case by (auto simp: mark_semantic_closed_def put_current_def Let_def split: sum.splits intro: keeps_published_put)
next
  case (5 s now owner i)
  then show ?case by (auto simp: confirm_def put_current_def Let_def split: sum.splits intro: keeps_published_put)
next
  case (6 s owner i)
  then show ?case by (auto simp: save_def put_current_def Let_def split: sum.splits intro: keeps_published_put)
next
  case (7 s now owner i)
  then show ?case
    by (auto simp: create_revision_def put_current_def Let_def split: sum.splits intro!: keeps_published_put
        dest!: mk_definition_version_ok)
next
  case (8 s owner i v)
  then show ?case by (auto simp: project_published_def put_current_def Let_def split: sum.splits intro: keeps_published_put)
next
  case (9 s owner i)
  then show ?case by (auto simp: project_certified_def put_current_def split: sum.splits intro: keeps_published_put)
qed

lemma entry_backed_kept:
  assumes k: "store_keeps s t" "keeps_published s t" and inv: "store_inv s" and e: "entry_backed h s i v p"
  shows "entry_backed h t i v p"
proof -
  obtain d y where d: "dget (st_definitions s) i = Some d" "cd_owner_user_id d = pv_owner_user_id p"
    "dget (st_versions s) (i, v) = Some y" "pv_semantic p = Some (package_of h y)"
    "dv_version (cd_current_version d) = v \<longrightarrow> ax_publication (cd_axes d) = PUBLISHED"
    using e by (auto simp: entry_backed_def)
  have vk: "view_keeps (view_of s i) (view_of t i)" using k(1) by (simp add: store_keeps_def)
  obtain z where z: "dget (st_versions t) (i, v) = Some z" "same_content y z" using view_keepsD(1)[OF vk d(3)] by blast
  obtain d' where d': "dget (st_definitions t) i = Some d'" "cd_owner_user_id d' = cd_owner_user_id d"
    "dv_version (cd_current_version d) \<le> dv_version (cd_current_version d')"
    using vk d(1) unfolding view_keeps_def view_of_fields by blast
  obtain r where "definition_ok i (view_of s i) d r" using store_inv_definition[OF inv d(1)] .
  note D = definition_okD(6,7)[OF this]
  have "v \<le> dv_version (cd_current_version d)" using D(1) D(2)[of v] d(3) by (cases "dv_version r < v") auto
  then have "dv_version (cd_current_version d') = v \<Longrightarrow> ax_publication (cd_axes d') = PUBLISHED"
    using d'(1,3) d(1,5) k(2) unfolding keeps_published_def by fastforce
  with z d d' package_of_content[OF z(2)] show ?thesis by (auto simp: entry_backed_def)
qed

subsection \<open>Every action keeps the invariant\<close>

lemma cat_library_inv:
  assumes "library_inv (c, l)" "cat_inv d" "cat_grown c d" shows "library_inv (d, l)"
proof -
  have "versions c i \<noteq> [] \<Longrightarrow> versions d i \<noteq> []" for i
    using grownD(1)[OF assms(3)] unfolding versions_Nil by (metis option.exhaust)
  moreover have "cat_get c i v \<noteq> None \<Longrightarrow> cat_get d i v \<noteq> None" for i v
    using grownD(1)[OF assms(3)] by (metis option.exhaust option.discI)
  ultimately show ?thesis using assms(1,2) unfolding library_inv_def by auto
qed

lemma product_inv_definitions:
  assumes inv: "product_inv h x" and "store_inv s" "store_keeps (pr_definitions x) s" "keeps_published (pr_definitions x) s"
  shows "product_inv h (x\<lparr>pr_definitions := s\<rparr>)"
  using assms entry_backed_kept[OF assms(3,4) product_invD(1)[OF inv]] by (auto simp: product_inv_def)

lemma product_inv_catalogue:
  assumes inv: "product_inv h x" and c: "cat_inv c" "cat_grown (pr_catalogue x) c"
    and same: "\<And>i v. cat_get c i v = cat_get (pr_catalogue x) i v"
  shows "product_inv h (x\<lparr>pr_catalogue := c\<rparr>)"
  using inv cat_library_inv[OF product_invD(2)[OF inv] c] same by (auto simp: product_inv_def)

lemma service_product_inv:
  "product_inv h x \<Longrightarrow> service_step h g (pr_definitions x) s \<Longrightarrow> product_inv h (x\<lparr>pr_definitions := s\<rparr>)"
proof -
  assume inv: "product_inv h x" and st: "service_step h g (pr_definitions x) s"
  obtain i where "step_at i (pr_definitions x) s" using service_step_at[OF st] by blast
  from step_at_inv[OF this product_invD(1)[OF inv]] service_keeps_published[OF st product_invD(1)[OF inv]]
  show ?thesis by (intro product_inv_definitions[OF inv]) auto
qed

lemma published_axes_step:
  assumes "store_inv s" "owned s owner i = Inr d"
    "dv_version (cd_current_version d) = v \<Longrightarrow> ax_confirmation (cd_axes d) = CONFIRMED \<and> ax_retention (cd_axes d) = SAVED"
  shows "published_axes s i v = snd (project_published owner i v s)"
  using assms(2,3) ownedE(1)[OF assms(2)] by (auto simp: published_axes_def project_published_def Let_def)

lemma publish_product_inv:
  assumes inv: "product_inv h x"
  shows "product_inv h (snd (product_publish h now u i v x))"
proof -
  let ?s = "pr_definitions x" and ?c = "pr_catalogue x"
  note sinv = product_invD(1)[OF inv]
  show ?thesis
  proof (cases rule: publish_cases[OF sinv, of h now u i v ?c])
    case (1 e)
    then show ?thesis using inv by (simp add: product_publish_def)
  next
    case (2 y d c')
    let ?p = "published_of h now u i v y" and ?t = "published_axes ?s i v"
    obtain d' where el: "owned ?s u i = Inr d'" "dget (st_versions ?s) (i, v) = Some y"
      "dv_version (cd_current_version d') = v \<Longrightarrow> ax_confirmation (cd_axes d') = CONFIRMED \<and> ax_retention (cd_axes d') = SAVED"
      using eligible_versionD[OF sinv 2(1)] by metis
    have t: "?t = snd (project_published u i v ?s)" by (rule published_axes_step[OF sinv el(1,3)])
    have "product_inv h (x\<lparr>pr_definitions := ?t\<rparr>)"
      unfolding t by (rule service_product_inv[OF inv, where g = g]) (rule service_step.intros)
    note inv' = product_invD[OF this]
    have c: "cat_inv c'" "cat_grown ?c c'"
      using publish_item_grow[OF product_invD(3)[OF inv], of ?p] 2(3) by auto
    have get: "cat_get c' j w = (if j = i \<and> w = v then Some ?p else cat_get ?c j w)" for j w
      using publish_item_get[OF 2(3), of j w] by (simp add: published_of_def)
    have "entry_backed h ?t i v ?p"
      using el ownedE[OF el(1)] by (auto simp: entry_backed_def published_axes_def put_current_def published_of_def)
    then have "entry_backed h ?t j w q" if "is_definition_id j" "cat_get c' j w = Some q" for j w q
      using inv'(4)[of j w q] that by (auto simp: get split: if_splits)
    then show ?thesis
      using 2(4) inv'(1) cat_library_inv[OF product_invD(2)[OF inv] c]
      by (simp add: product_publish_def product_inv_def)
  qed
qed

lemma fork_product_inv:
  assumes inv: "product_inv h x" and fresh: "dget (st_drafts (pr_definitions x)) (new_definition_id uuid) = None"
  shows "product_inv h (snd (fork uuid now u i v ttl x))"
proof -
  have "product_inv h (x\<lparr>pr_definitions := snd (create_fork uuid now u ttl c i v (pr_definitions x))\<rparr>)" for c
    by (rule service_product_inv[OF inv, where g = g]) (rule service_step.intros(2)[OF fresh])
  then show ?thesis using inv
    by (auto simp: fork_def Let_def split: option.splits prod.splits) (metis snd_conv)+
qed

lemma personal_product_inv:
  assumes inv: "product_inv h x" and l: "personal_step (pr_catalogue x) u (pr_library x) l"
  shows "product_inv h (x\<lparr>pr_library := l\<rparr>)"
  using inv library_inv_personal[OF l] by (simp add: product_inv_def)

lemma withdraw_product_inv:
  assumes inv: "product_inv h x" shows "product_inv h (snd (product_withdraw u i v x))"
proof -
  have "product_inv h (x\<lparr>pr_catalogue := snd (withdraw i v (pr_catalogue x))\<rparr>)"
    using withdraw_grow[OF product_invD(3)[OF inv]]
    by (intro product_inv_catalogue[OF inv]) (auto simp: withdraw_def)
  then show ?thesis using inv
    by (auto simp: product_withdraw_def lib_withdraw_def split: option.splits prod.splits sum.splits) 
qed

lemma certify_cases:
  assumes inv: "product_inv h x"
  obtains (refused) e where "\<not> authority_allows a u \<or> cat_get (pr_catalogue x) i v = None" "certify a u i v x = (Inl e, x)"
  | (granted) p s where "authority_allows a u" "cat_get (pr_catalogue x) i v = Some p"
      "s = pr_definitions x \<or> s = snd (project_certified (pv_owner_user_id p) i (pr_definitions x))"
      "certify a u i v x =
         (Inr \<lparr>cr_identity_id = i, cr_version = v, cr_certification_state = ''certified'',
               cr_authority_provenance = local_demo_certification_provenance, cr_production_certification = not_connected\<rparr>,
          x\<lparr>pr_catalogue := snd (certify_local_demo i v u (pr_catalogue x)), pr_definitions := s\<rparr>)"
proof (cases "authority_allows a u \<and> cat_get (pr_catalogue x) i v \<noteq> None")
  case False
  then have "\<exists>e. certify a u i v x = (Inl e, x)" by (auto simp: certify_def)
  then show ?thesis using refused False by auto
next
  case True
  then obtain p where p: "cat_get (pr_catalogue x) i v = Some p" by blast
  let ?c = "snd (certify_local_demo i v u (pr_catalogue x))" and ?o = "pv_owner_user_id p" and ?s = "pr_definitions x"
  have "project_certified_current i v ?o ?s = (Inr (), ?s) \<or>
      project_certified_current i v ?o ?s = (Inr (), snd (project_certified ?o i ?s))"
  proof (cases "\<exists>d. owned ?s ?o i = Inr d \<and> dv_version (cd_current_version d) = v")
    case True
    then obtain d where d: "owned ?s ?o i = Inr d" "dv_version (cd_current_version d) = v" by blast
    obtain r where "definition_ok i (view_of ?s i) d r"
      using store_inv_definition[OF product_invD(1)[OF inv] ownedE(1)[OF d(1)]] .
    then have "entry_backed h ?s i v p" using definition_okD(11) product_invD(4)[OF inv _ p] by blast
    then have "ax_publication (cd_axes d) = PUBLISHED" using ownedE(1)[OF d(1)] d(2) by (auto simp: entry_backed_def)
    then show ?thesis using d by (simp add: project_certified_current_def get_owned_definition_def project_certified_def)
  next
    case False
    then show ?thesis
      by (auto simp: project_certified_current_def get_owned_definition_def owned_def split: option.splits if_splits)
  qed
  then obtain s where s: "project_certified_current i v ?o ?s = (Inr (), s)"
    "s = ?s \<or> s = snd (project_certified ?o i ?s)" by blast
  have "certify a u i v x =
         (Inr \<lparr>cr_identity_id = i, cr_version = v, cr_certification_state = ''certified'',
               cr_authority_provenance = local_demo_certification_provenance, cr_production_certification = not_connected\<rparr>,
          x\<lparr>pr_catalogue := ?c, pr_definitions := s\<rparr>)"
    using True p s(1) by (simp add: certify_def lib_certify_local_demo_def certify_local_demo_def certification_state_def)
  then show ?thesis using granted True p s(2) by blast
qed

lemma certify_product_inv:
  assumes inv: "product_inv h x" shows "product_inv h (snd (certify a u i v x))"
proof (cases rule: certify_cases[OF inv, of a u i v])
  case (1 e)
  then show ?thesis using inv by simp
next
  case (2 p s)
  have c: "product_inv h (x\<lparr>pr_catalogue := snd (certify_local_demo i v u (pr_catalogue x))\<rparr>)"
    using certify_grow[OF product_invD(3)[OF inv]]
    by (intro product_inv_catalogue[OF inv]) (auto simp: certify_local_demo_def)
  moreover have "product_inv h ((x\<lparr>pr_catalogue := snd (certify_local_demo i v u (pr_catalogue x))\<rparr>)
      \<lparr>pr_definitions := snd (project_certified (pv_owner_user_id p) i (pr_definitions x))\<rparr>)"
    by (rule service_product_inv[OF c, where g = "\<lambda>_. True"]) (simp, rule service_step.intros)
  ultimately show ?thesis using 2(3,4) by auto
qed

lemma product_step_inv: "product_step h g a u x y \<Longrightarrow> product_inv h x \<Longrightarrow> product_inv h y"
proof (induction rule: product_step.induct)
  case (authoring x s u)
  then show ?case by (blast intro: service_product_inv)
next
  case (publishing u x now i v)
  then show ?case by (rule publish_product_inv)
next
  case (personal x u l)
  then show ?case by (blast intro: personal_product_inv)
next
  case (forking x uuid u now i v ttl)
  then show ?case by (blast intro: fork_product_inv)
next
  case (certifying u x i v)
  then show ?case by (rule certify_product_inv)
next
  case (withdrawing u x i v)
  then show ?case by (rule withdraw_product_inv)
qed

lemma product_init_inv: "product_init x \<Longrightarrow> product_inv h x"
  by (auto simp: product_init_def product_inv_def empty_store_inv library_inv_def empty_library_def)

interpretation product_sys: invariant_system product_init "any_product_step h g a" "product_inv h"
  by unfold_locales (auto simp: any_product_step_def product_init_inv dest: product_step_inv)

text \<open>C20. What is published is what was confirmed: in every reachable state of the product, a catalogue entry
  of a definition carries exactly the calculation, parameter contract and checksum of the stored
  version with the same number, is owned by the definition's owner, and while that version is current
  the definition's axes say PUBLISHED.\<close>

theorem published_entry_matches_definition:
  assumes "product_init x0" "(any_product_step h g a)\<^sup>*\<^sup>* x0 x"
    and "is_definition_id i" "cat_get (pr_catalogue x) i v = Some p"
  shows "\<exists>d y. dget (st_definitions (pr_definitions x)) i = Some d \<and> cd_owner_user_id d = pv_owner_user_id p \<and>
    dget (st_versions (pr_definitions x)) (i, v) = Some y \<and>
    pv_semantic p = Some \<lparr>sp_calculation = dv_calculation y, sp_parameter_contract = dv_parameter_contract y,
      sp_source_definition_id = i, sp_source_definition_version = v, sp_source_definition_checksum = version_checksum h y\<rparr> \<and>
    (dv_version (cd_current_version d) = v \<longrightarrow> ax_publication (cd_axes d) = PUBLISHED)"
proof -
  have inv: "product_inv h x" by (rule product_sys.reachable_inv[OF assms(1,2)])
  obtain d y where d: "dget (st_definitions (pr_definitions x)) i = Some d" "cd_owner_user_id d = pv_owner_user_id p"
    "dget (st_versions (pr_definitions x)) (i, v) = Some y" "pv_semantic p = Some (package_of h y)"
    "dv_version (cd_current_version d) = v \<longrightarrow> ax_publication (cd_axes d) = PUBLISHED"
    using product_invD(4)[OF inv assms(3,4)] by (auto simp: entry_backed_def)
  have "dv_definition_id y = i \<and> dv_version y = v"
    using view_ok_parts(1)[of i "view_of (pr_definitions x) i" v y] product_invD(1)[OF inv] d(3) by (simp add: store_inv_def)
  with d show ?thesis by (auto simp: package_of_def)
qed

text \<open>C21. Certification is atomic and never half done: in every reachable state it either changes nothing, or
  the caller is the configured administrator, exactly that version becomes certified, every other
  entry and every definition's content stay as they were, and the result never claims a production
  certification.\<close>

theorem certify_atomic:
  assumes "product_init x0" "(any_product_step h g a)\<^sup>*\<^sup>* x0 x" "certify a u i v x = (r, y)"
  shows "case r of Inl e \<Rightarrow> y = x
    | Inr res \<Rightarrow> authority_allows a u \<and> cr_certification_state res = ''certified'' \<and>
        cr_production_certification res = ''NOT_CONNECTED'' \<and>
        certification_state (pr_catalogue y) i v = ''certified'' \<and> certified_by (pr_catalogue y) i v = Some u \<and>
        (\<forall>j w. cat_get (pr_catalogue y) j w = cat_get (pr_catalogue x) j w \<and>
           ((j, w) \<noteq> (i, v) \<longrightarrow> certification_state (pr_catalogue y) j w = certification_state (pr_catalogue x) j w)) \<and>
        st_versions (pr_definitions y) = st_versions (pr_definitions x) \<and> pr_library y = pr_library x"
proof -
  have inv: "product_inv h x" by (rule product_sys.reachable_inv[OF assms(1,2)])
  show ?thesis
  proof (cases rule: certify_cases[OF inv, of a u i v])
    case (1 e)
    then show ?thesis using assms(3) by simp
  next
    case (2 p s)
    have "st_versions s = st_versions (pr_definitions x)"
      using 2(3) by (auto simp: project_certified_def put_current_def split: sum.splits)
    then show ?thesis using 2 assms(3)
      by (auto simp: certify_local_demo_def certification_state_def certified_by_def not_connected_def)
  qed
qed

text \<open>C22. Authority over the catalogue: one user's action changes the certification of a version only if the
  user is the configured administrator, withdraws a version only if the user owns that publication,
  and adds an entry only under the user's own name.  Installing, starring or forking confers nothing.\<close>

theorem catalogue_authority:
  assumes "product_init x0" "(any_product_step h g a)\<^sup>*\<^sup>* x0 x" "product_step h g a u x y"
  shows "(certification_state (pr_catalogue y) i v \<noteq> certification_state (pr_catalogue x) i v \<longrightarrow> authority_allows a u) \<and>
    (is_withdrawn (pr_catalogue y) i v \<noteq> is_withdrawn (pr_catalogue x) i v \<longrightarrow>
       (\<exists>p. cat_get (pr_catalogue x) i v = Some p \<and> pv_owner_user_id p = u)) \<and>
    (cat_get (pr_catalogue y) i v \<noteq> cat_get (pr_catalogue x) i v \<longrightarrow>
       (\<exists>p. cat_get (pr_catalogue y) i v = Some p \<and> pv_owner_user_id p = u \<and> cat_get (pr_catalogue x) i v = None))"
proof -
  have inv: "product_inv h x" by (rule product_sys.reachable_inv[OF assms(1,2)])
  from assms(3) inv show ?thesis
  proof (induction rule: product_step.induct)
    case (publishing u x now j w)
    note cinv = product_invD(3)[OF publishing]
    show ?case
    proof (cases rule: publish_cases[OF product_invD(1)[OF publishing], of h now u j w "pr_catalogue x"])
      case (2 z d c')
      let ?p = "published_of h now u j w z"
      have new: "cat_get (pr_catalogue x) j w = None"
        using eligible_versionD[OF product_invD(1)[OF publishing] 2(1)] by metis
      have c': "\<And>k. dget (ct_certification c') k = (if k = (j, w) then None else dget (ct_certification (pr_catalogue x)) k)"
        "\<And>k. dget (ct_withdrawn c') k = (if k = (j, w) then None else dget (ct_withdrawn (pr_catalogue x)) k)"
        using 2(3) by (auto simp: publish_item_def Let_def published_of_def split: if_splits sum.splits option.splits)
      have none: "dget (ct_certification (pr_catalogue x)) (j, w) = None" "dget (ct_withdrawn (pr_catalogue x)) (j, w) = None"
        using new cat_invD(3,4)[OF cinv, of j w]
        by (cases "dget (ct_certification (pr_catalogue x)) (j, w)"; cases "dget (ct_withdrawn (pr_catalogue x)) (j, w)"; auto)+
      show ?thesis using 2(4) c' none publish_item_get[OF 2(3), of i v] new
        by (auto simp: product_publish_def certification_state_def is_withdrawn_def dget_or_def published_of_def split: if_splits)
    qed (simp add: product_publish_def)
  next
    case (certifying u x j w)
    show ?case
    proof (cases rule: certify_cases[OF certifying, of a u j w])
      case (2 p s)
      then show ?thesis by (auto simp: certify_local_demo_def certification_state_def is_withdrawn_def)
    qed simp
  next
    case (withdrawing u x j w)
    show ?case
      by (auto simp: product_withdraw_def lib_withdraw_def withdraw_def certification_state_def is_withdrawn_def split: option.splits)
  next
    case (forking x uuid u now j w ttl)
    show ?case by (auto simp: fork_def Let_def split: option.splits prod.splits)
  qed simp_all
qed

section \<open>A run of the product\<close>

definition demo_authority :: certification_authority where
  "demo_authority = \<lparr>au_service_mode = ''infra-dev'', au_typed_runtime_activation = ''local_real_data_demo'',
     au_admin_user_id = Some ''root''\<rparr>"

definition demo_product :: "definition_store \<Rightarrow> product" where
  "demo_product s = \<lparr>pr_definitions = s, pr_catalogue = empty_catalogue, pr_library = empty_library\<rparr>"

definition demo_listed :: product where
  "demo_listed = snd (product_publish (\<lambda>t. t) 50 demo_owner demo_id 1 (demo_product demo_saved))"

lemma demo_product_init: "product_init (demo_product empty_store)"
  by (simp add: product_init_def demo_product_def empty_catalogue_inv) (simp add: cat_get_def empty_catalogue_def)

lemma authoring_run:
  assumes "(service_step h g)\<^sup>*\<^sup>* s t"
  shows "(any_product_step h g a)\<^sup>*\<^sup>* (demo_product s) (demo_product t)"
  using assms
proof (induction rule: rtranclp_induct)
  case (step t t')
  have "product_step h g a [] (demo_product t) ((demo_product t)\<lparr>pr_definitions := t'\<rparr>)"
    using step(2) by (intro product_step.authoring) (simp add: demo_product_def)
  then have "any_product_step h g a (demo_product t) (demo_product t')"
    by (auto simp: any_product_step_def demo_product_def)
  with step(3) show ?case by simp
qed simp

lemma demo_listed_reachable: "(any_product_step (\<lambda>t. t) demo_governed a)\<^sup>*\<^sup>* (demo_product empty_store) demo_listed"
proof -
  have "any_product_step (\<lambda>t. t) demo_governed a (demo_product demo_saved) demo_listed"
    unfolding any_product_step_def demo_listed_def by (blast intro: product_step.publishing)
  with authoring_run[OF demo_reachable(1)] show ?thesis by (rule rtranclp.rtrancl_into_rtrancl)
qed

lemma demo_listed_entry: "cat_get (pr_catalogue demo_listed) demo_id 1 = Some demo_entry"
  by (rule demo_publish_run) (simp add: demo_listed_def product_publish_def demo_product_def)

theorem published_entry_matches_definition_witness:
  "is_definition_id demo_id \<and> (\<exists>d. dget (st_definitions (pr_definitions demo_listed)) demo_id = Some d \<and>
     cd_owner_user_id d = demo_owner)"
proof -
  have "is_definition_id demo_id" by code_simp
  with published_entry_matches_definition[OF demo_product_init demo_listed_reachable this demo_listed_entry]
  show ?thesis by (auto simp: demo_entry_def published_of_def)
qed

theorem certify_atomic_witness:
  "certification_state (pr_catalogue (snd (certify demo_authority ''root'' demo_id 1 demo_listed))) demo_id 1 = ''certified'' \<and>
   snd (certify demo_authority ''eve'' demo_id 1 demo_listed) = demo_listed"
proof
  obtain r y where run: "certify demo_authority ''root'' demo_id 1 demo_listed = (r, y)" by (rule prod.exhaust)
  have inv: "product_inv (\<lambda>t. t) demo_listed" by (rule product_sys.reachable_inv[OF demo_product_init demo_listed_reachable])
  have ok: "\<exists>z. r = Inr z"
  proof (cases rule: certify_cases[OF inv, of demo_authority "''root''" demo_id 1])
    case (1 e)
    then show ?thesis using demo_listed_entry
      by (simp add: demo_authority_def authority_allows_def authority_available_def)
  next
    case (2 p s)
    then show ?thesis using run by auto
  qed
  show "certification_state (pr_catalogue (snd (certify demo_authority ''root'' demo_id 1 demo_listed))) demo_id 1 = ''certified''"
    using certify_atomic[OF demo_product_init demo_listed_reachable run] run ok by auto
  show "snd (certify demo_authority ''eve'' demo_id 1 demo_listed) = demo_listed"
    by (simp add: certify_def demo_authority_def authority_allows_def)
qed

theorem catalogue_authority_witness:
  "cat_get (pr_catalogue demo_listed) demo_id 1 \<noteq> cat_get (pr_catalogue (demo_product demo_saved)) demo_id 1 \<and>
   pv_owner_user_id demo_entry = demo_owner"
proof -
  have new: "cat_get (pr_catalogue demo_listed) demo_id 1 \<noteq> cat_get (pr_catalogue (demo_product demo_saved)) demo_id 1"
    using demo_listed_entry by (simp add: demo_product_def cat_get_def empty_catalogue_def)
  have "product_step (\<lambda>t. t) demo_governed demo_authority demo_owner (demo_product demo_saved) demo_listed"
    unfolding demo_listed_def by (rule product_step.publishing)
  from catalogue_authority[OF demo_product_init authoring_run[OF demo_reachable(1)] this, of demo_id 1] new demo_listed_entry
  show ?thesis by auto
qed

end
