(* ===== verification/Personal_Conflict.thy ===== *)
theory Personal_Conflict
  imports Product_Library
begin

text \<open>
  The personal semantic-conflict contract (\<open>semantic/personal_conflict_contract.py\<close>): candidates with
  their stable identity, material differences, the comparison presented to the user, the explicit
  selection, exact deduplication and the resolver that never chooses.
\<close>

section \<open>Candidates\<close>

datatype candidate_kind =
  SavedCustomDefinition | InstalledPublishedMetric | InstalledDerivative | IndependentlyPublishedMetric

fun candidate_kind_text :: "candidate_kind \<Rightarrow> string" where
  "candidate_kind_text SavedCustomDefinition = ''saved_custom_definition''"
| "candidate_kind_text InstalledPublishedMetric = ''installed_published_metric''"
| "candidate_kind_text InstalledDerivative = ''installed_derivative''"
| "candidate_kind_text IndependentlyPublishedMetric = ''independently_published_metric''"

datatype candidate_origin = Own | Installed

fun candidate_origin_text :: "candidate_origin \<Rightarrow> string" where
  "candidate_origin_text Own = ''own''"
| "candidate_origin_text Installed = ''installed''"

datatype candidate_certification_state = CertificationUnknown | NotCertified | Certified

fun certification_text :: "candidate_certification_state \<Rightarrow> string" where
  "certification_text CertificationUnknown = ''unknown''"
| "certification_text NotCertified = ''uncertified''"
| "certification_text Certified = ''certified''"

record personal_candidate_ref =
  cr_candidate_id :: string
  cr_kind :: candidate_kind
  cr_origin :: candidate_origin
  cr_definition_id :: string
  cr_definition_version :: nat
  cr_display_name :: string
  cr_owner_label :: "string option"
  cr_source_label :: "string option"
  cr_certification_state :: candidate_certification_state
  cr_star_count :: nat

definition mk_personal_candidate_ref :: "personal_candidate_ref \<Rightarrow> personal_candidate_ref result" where
  "mk_personal_candidate_ref c = validated
     [(\<not> length_in 1 128 (cr_candidate_id c), FieldError ''candidate_id''),
      (\<not> length_in 1 128 (cr_definition_id c), FieldError ''definition_id''),
      (cr_definition_version c < 1, FieldError ''definition_version''),
      (\<not> length_in 1 256 (cr_display_name c), FieldError ''display_name''),
      (opt_bad (length_in 0 128) (cr_owner_label c), FieldError ''owner_label''),
      (opt_bad (length_in 0 256) (cr_source_label c), FieldError ''source_label'')] c"

definition cr_identity :: "personal_candidate_ref \<Rightarrow> string \<times> nat" where
  "cr_identity c = (cr_definition_id c, cr_definition_version c)"

definition identity_checksum_json :: "personal_candidate_ref \<Rightarrow> json" where
  "identity_checksum_json c =
     jobj [(''definition_id'', JStr (cr_definition_id c)), (''definition_version'', JInt (int (cr_definition_version c))),
           (''kind'', JStr (candidate_kind_text (cr_kind c)))]"

definition identity_checksum :: "(string \<Rightarrow> string) \<Rightarrow> personal_candidate_ref \<Rightarrow> string" where
  "identity_checksum sha256 c = checksum_of sha256 (identity_checksum_json c)"

definition candidate_ref_json :: "personal_candidate_ref \<Rightarrow> json" where
  "candidate_ref_json c =
     jobj [(''candidate_id'', JStr (cr_candidate_id c)), (''kind'', JStr (candidate_kind_text (cr_kind c))),
           (''origin'', JStr (candidate_origin_text (cr_origin c))), (''definition_id'', JStr (cr_definition_id c)),
           (''definition_version'', JInt (int (cr_definition_version c))), (''display_name'', JStr (cr_display_name c)),
           (''owner_label'', jopt JStr (cr_owner_label c)), (''source_label'', jopt JStr (cr_source_label c)),
           (''certification_state'', JStr (certification_text (cr_certification_state c))),
           (''star_count'', JInt (int (cr_star_count c)))]"

section \<open>Differences and the comparison\<close>

datatype material_difference_kind =
  DiffUnit | DiffNullSemantics | DiffPopulation | DiffGrain | DiffScope | DiffTimeSemantics | DiffDimension
  | DiffNumeratorDenominator | DiffDeduplication | DiffFormulaVersionLineage | DiffParameterContract | DiffProvenance

fun difference_kind_text :: "material_difference_kind \<Rightarrow> string" where
  "difference_kind_text DiffUnit = ''unit''"
| "difference_kind_text DiffNullSemantics = ''null_semantics''"
| "difference_kind_text DiffPopulation = ''population''"
| "difference_kind_text DiffGrain = ''grain''"
| "difference_kind_text DiffScope = ''scope''"
| "difference_kind_text DiffTimeSemantics = ''time_semantics''"
| "difference_kind_text DiffDimension = ''dimension''"
| "difference_kind_text DiffNumeratorDenominator = ''numerator_denominator''"
| "difference_kind_text DiffDeduplication = ''deduplication''"
| "difference_kind_text DiffFormulaVersionLineage = ''formula_version_lineage''"
| "difference_kind_text DiffParameterContract = ''parameter_contract''"
| "difference_kind_text DiffProvenance = ''provenance''"

record material_difference =
  md_kind :: material_difference_kind
  md_summary :: string
  md_risk_note :: "string option"
  md_candidate_ids :: "string list"

definition mk_material_difference :: "material_difference \<Rightarrow> material_difference result" where
  "mk_material_difference d = validated
     [(\<not> length_in 1 512 (md_summary d), FieldError ''summary''),
      (opt_bad (length_in 0 512) (md_risk_note d), FieldError ''risk_note''),
      (\<not> length_in 1 8 (md_candidate_ids d), FieldError ''candidate_ids'')] d"

record semantic_conflict =
  sc_conflict_id :: string
  sc_required_slot :: string
  sc_candidates :: "personal_candidate_ref list"
  sc_differences :: "material_difference list"

definition mk_semantic_conflict :: "semantic_conflict \<Rightarrow> semantic_conflict result" where
  "mk_semantic_conflict c =
     (let ids = map cr_candidate_id (sc_candidates c) in validated
     [(\<not> length_in 1 128 (sc_conflict_id c), FieldError ''conflict_id''),
      (\<not> length_in 1 64 (sc_required_slot c), FieldError ''required_slot''),
      (\<not> length_in 2 16 (sc_candidates c), FieldError ''candidates''),
      (\<not> length_in 0 16 (sc_differences c), FieldError ''differences''),
      (\<not> distinct ids, ValueError ''conflict candidates must be unique''),
      (\<not> distinct (map cr_identity (sc_candidates c)), ValueError ''identical identity+version must be deduplicated''),
      (list_ex (\<lambda>d. \<not> set (md_candidate_ids d) \<subseteq> set ids) (sc_differences c),
       ValueError ''difference must reference presented candidates'')] c)"

definition difference_json :: "material_difference \<Rightarrow> json" where
  "difference_json d =
     jobj [(''kind'', JStr (difference_kind_text (md_kind d))), (''summary'', JStr (md_summary d)),
           (''risk_note'', jopt JStr (md_risk_note d)), (''candidate_ids'', JList (map JStr (md_candidate_ids d)))]"

definition semantic_conflict_checksum :: "(string \<Rightarrow> string) \<Rightarrow> semantic_conflict \<Rightarrow> string" where
  "semantic_conflict_checksum sha256 c = checksum_of sha256
     (jobj [(''schema_version'', JStr ''1.0''), (''conflict_id'', JStr (sc_conflict_id c)),
            (''required_slot'', JStr (sc_required_slot c)), (''candidates'', JList (map candidate_ref_json (sc_candidates c))),
            (''differences'', JList (map difference_json (sc_differences c)))])"

section \<open>The user's selection\<close>

datatype selection_scope = RunScoped | Persisted

record personal_selection =
  ps_conflict_id :: string
  ps_required_slot :: string
  ps_selected_candidate_id :: string
  ps_selection_scope :: selection_scope
  ps_explicit_user_request :: bool

definition mk_personal_selection :: "personal_selection \<Rightarrow> personal_selection result" where
  "mk_personal_selection s = validated
     [(\<not> length_in 1 128 (ps_conflict_id s), FieldError ''conflict_id''),
      (\<not> length_in 1 64 (ps_required_slot s), FieldError ''required_slot''),
      (\<not> length_in 1 128 (ps_selected_candidate_id s), FieldError ''selected_candidate_id''),
      (ps_selection_scope s = Persisted \<and> \<not> ps_explicit_user_request s,
       ValueError ''a persisted preference requires an explicit user request'')] s"

section \<open>Deduplication and resolution\<close>

fun dedupe_loop :: "(string \<times> nat) list \<Rightarrow> personal_candidate_ref list \<Rightarrow> personal_candidate_ref list" where
  "dedupe_loop seen [] = []"
| "dedupe_loop seen (c # cs) =
     (if cr_identity c \<in> set seen then dedupe_loop seen cs else c # dedupe_loop (cr_identity c # seen) cs)"

definition deduplicate_candidates :: "personal_candidate_ref list \<Rightarrow> personal_candidate_ref list" where
  "deduplicate_candidates cs = dedupe_loop [] cs"

definition conflict_id_of :: "(string \<Rightarrow> string) \<Rightarrow> personal_candidate_ref list \<Rightarrow> string" where
  "conflict_id_of sha256 cs =
     ''conflict-'' @ take 32 (checksum_of sha256 (JList (map (\<lambda>c. JStr (identity_checksum sha256 c)) cs)))"

definition resolve_personal_conflict ::
  "(string \<Rightarrow> string) \<Rightarrow> personal_candidate_ref list \<Rightarrow> string \<Rightarrow> material_difference list \<Rightarrow>
   (semantic_resolution \<times> semantic_conflict option) result" where
  "resolve_personal_conflict sha256 candidates required_slot differences =
     (let deduped = deduplicate_candidates candidates in
      if deduped = [] then map_sum id (\<lambda>r. (r, None)) (mk_semantic_resolution NoAuthoritativeDefinition [])
      else if length deduped = 1 then map_sum id (\<lambda>r. (r, None)) (mk_semantic_resolution Resolved [])
      else
        (case mk_semantic_conflict
                \<lparr>sc_conflict_id = conflict_id_of sha256 deduped, sc_required_slot = required_slot,
                 sc_candidates = deduped, sc_differences = differences\<rparr> of
           Inl e \<Rightarrow> Inl e
         | Inr conflict \<Rightarrow>
             map_sum id (\<lambda>r. (r, Some conflict)) (mk_semantic_resolution ClarificationRequired [required_slot])))"

end
