(* ===== verification/Conflict_Service.thy ===== *)
theory Conflict_Service
  imports Personal_Conflict
begin

text \<open>
  The personal-library conflict projection (\<open>semantic/personal_conflict_service.py\<close>): candidates
  projected from saved definitions and installed publications with their semantic package, the material
  differences between packages, and the comparison built from the non-selecting resolver.
\<close>

section \<open>Contracts\<close>

record candidate_lineage =
  cl_identity_id :: string
  cl_version :: nat
  cl_derived_from_identity :: "string option"
  cl_derived_from_version :: "nat option"
  cl_source_definition_id :: string
  cl_source_definition_version :: nat
  cl_source_definition_checksum :: string

definition mk_candidate_lineage :: "candidate_lineage \<Rightarrow> candidate_lineage result" where
  "mk_candidate_lineage l = validated
     [(\<not> length_in 1 128 (cl_identity_id l), FieldError ''identity_id''),
      (cl_version l < 1, FieldError ''version''),
      (opt_bad (length_in 0 128) (cl_derived_from_identity l), FieldError ''derived_from_identity''),
      (opt_bad (\<lambda>n. 1 \<le> n) (cl_derived_from_version l), FieldError ''derived_from_version''),
      (\<not> length_in 1 128 (cl_source_definition_id l), FieldError ''source_definition_id''),
      (cl_source_definition_version l < 1, FieldError ''source_definition_version''),
      (\<not> is_hex64 (cl_source_definition_checksum l), FieldError ''source_definition_checksum''),
      ((cl_derived_from_identity l = None) \<noteq> (cl_derived_from_version l = None),
       ValueError ''derived lineage identity and version must appear together'')] l"

definition lineage_json :: "candidate_lineage \<Rightarrow> json" where
  "lineage_json l =
     jobj [(''identity_id'', JStr (cl_identity_id l)), (''version'', JInt (int (cl_version l))),
           (''derived_from_identity'', jopt JStr (cl_derived_from_identity l)),
           (''derived_from_version'', jopt (\<lambda>n. JInt (int n)) (cl_derived_from_version l)),
           (''source_definition_id'', JStr (cl_source_definition_id l)),
           (''source_definition_version'', JInt (int (cl_source_definition_version l))),
           (''source_definition_checksum'', JStr (cl_source_definition_checksum l))]"

record projected_personal_candidate =
  pc_reference :: personal_candidate_ref
  pc_lineage :: candidate_lineage
  pc_semantic_checksum :: string
  pc_calculation :: calculation_spec
  pc_parameter_contract :: parameter_contract

definition semantic_checksum :: "(string \<Rightarrow> string) \<Rightarrow> calculation_spec \<Rightarrow> parameter_contract \<Rightarrow> string" where
  "semantic_checksum sha256 calculation contract = checksum_of sha256
     (jobj [(''calculation'', spec_json calculation), (''parameter_contract'', parameter_contract_json contract)])"

definition mk_projected_personal_candidate ::
  "(string \<Rightarrow> string) \<Rightarrow> projected_personal_candidate \<Rightarrow> projected_personal_candidate result" where
  "mk_projected_personal_candidate sha256 c =
     (let r = pc_reference c in validated
     [(\<not> is_hex64 (pc_semantic_checksum c), FieldError ''semantic_checksum''),
      (cr_definition_id r \<noteq> cl_identity_id (pc_lineage c) \<or> cr_definition_version r \<noteq> cl_version (pc_lineage c),
       ValueError ''candidate reference identity must match its lineage''),
      (cr_origin r = Own \<and> cr_kind r \<noteq> SavedCustomDefinition, ValueError ''own candidate must be a saved custom definition''),
      (cr_origin r = Installed \<and> cr_kind r \<notin> {InstalledPublishedMetric, InstalledDerivative, IndependentlyPublishedMetric},
       ValueError ''installed candidate must use an installed identity kind''),
      (pc_parameter_contract c \<noteq> cs_parameters (pc_calculation c),
       ValueError ''candidate parameter contract must match its calculation''),
      (pc_semantic_checksum c \<noteq> semantic_checksum sha256 (pc_calculation c) (pc_parameter_contract c),
       ValueError ''candidate semantic checksum does not match its package'')] c)"

record conflict_comparison_candidate =
  cc_candidate_id :: string
  cc_display_name :: string
  cc_origin :: candidate_origin
  cc_owner_label :: "string option"
  cc_source_label :: "string option"
  cc_certification_state :: candidate_certification_state
  cc_star_count :: nat
  cc_lineage :: candidate_lineage
  cc_semantic_checksum :: string
  cc_material_difference_kinds :: "material_difference_kind list"

definition mk_conflict_comparison_candidate :: "conflict_comparison_candidate \<Rightarrow> conflict_comparison_candidate result" where
  "mk_conflict_comparison_candidate c = validated
     [(\<not> length_in 1 128 (cc_candidate_id c), FieldError ''candidate_id''),
      (\<not> length_in 1 256 (cc_display_name c), FieldError ''display_name''),
      (opt_bad (length_in 0 128) (cc_owner_label c), FieldError ''owner_label''),
      (opt_bad (length_in 0 256) (cc_source_label c), FieldError ''source_label''),
      (\<not> is_hex64 (cc_semantic_checksum c), FieldError ''semantic_checksum''),
      (\<not> length_in 0 16 (cc_material_difference_kinds c), FieldError ''material_difference_kinds'')] c"

record conflict_comparison =
  cm_conflict_id :: string
  cm_required_slot :: string
  cm_candidates :: "conflict_comparison_candidate list"

definition mk_conflict_comparison :: "conflict_comparison \<Rightarrow> conflict_comparison result" where
  "mk_conflict_comparison c = validated
     [(\<not> length_in 1 128 (cm_conflict_id c), FieldError ''conflict_id''),
      (\<not> length_in 1 64 (cm_required_slot c), FieldError ''required_slot''),
      (\<not> length_in 2 16 (cm_candidates c), FieldError ''candidates''),
      (\<not> distinct (map cc_candidate_id (cm_candidates c)), ValueError ''conflict comparison candidates must be unique'')] c"

record personal_conflict_projection =
  pp_resolution :: semantic_resolution
  pp_semantic_conflict :: "semantic_conflict option"
  pp_conflict_comparison :: "conflict_comparison option"
  pp_selected_candidate_id :: "string option"
  pp_selected_definition_id :: "string option"
  pp_selected_version :: "nat option"

definition mk_personal_conflict_projection :: "personal_conflict_projection \<Rightarrow> personal_conflict_projection result" where
  "mk_personal_conflict_projection p =
     (let requires_choice = (sr_outcome (pp_resolution p) = ClarificationRequired) in validated
     [(opt_bad (length_in 0 128) (pp_selected_candidate_id p), FieldError ''selected_candidate_id''),
      (opt_bad (length_in 0 128) (pp_selected_definition_id p), FieldError ''selected_definition_id''),
      (opt_bad (\<lambda>n. 1 \<le> n) (pp_selected_version p), FieldError ''selected_version''),
      (requires_choice \<noteq> (pp_semantic_conflict p \<noteq> None), ValueError ''clarification outcome must carry a semantic conflict''),
      (requires_choice \<noteq> (pp_conflict_comparison p \<noteq> None), ValueError ''clarification outcome must carry a conflict comparison'')] p)"

section \<open>Projection of candidates\<close>

definition candidate_id_of :: "(string \<Rightarrow> string) \<Rightarrow> string \<Rightarrow> string \<Rightarrow> nat \<Rightarrow> string" where
  "candidate_id_of sha256 prefix identity version =
     ''candidate-'' @ prefix @ ''-'' @ take 32 (checksum_of sha256 (JList [JStr identity, JInt (int version)]))"

definition candidate_of ::
  "(string \<Rightarrow> string) \<Rightarrow> personal_candidate_ref \<Rightarrow> candidate_lineage \<Rightarrow> calculation_spec \<Rightarrow> parameter_contract \<Rightarrow>
   projected_personal_candidate result" where
  "candidate_of sha256 reference lineage calculation contract =
     (case mk_personal_candidate_ref reference of Inl e \<Rightarrow> Inl e | Inr r \<Rightarrow>
        mk_projected_personal_candidate sha256
          \<lparr>pc_reference = r, pc_lineage = lineage, pc_semantic_checksum = semantic_checksum sha256 calculation contract,
           pc_calculation = calculation, pc_parameter_contract = contract\<rparr>)"

definition own_lineage :: "(string \<Rightarrow> string) \<Rightarrow> definition_version \<Rightarrow> candidate_lineage" where
  "own_lineage sha256 v =
     \<lparr>cl_identity_id = dv_definition_id v, cl_version = dv_version v,
      cl_derived_from_identity = dv_derived_from_definition_id v, cl_derived_from_version = dv_derived_from_version v,
      cl_source_definition_id = dv_definition_id v, cl_source_definition_version = dv_version v,
      cl_source_definition_checksum = version_checksum sha256 v\<rparr>"

text \<open>\<open>owner_label or owner_user_id\<close>: a missing or empty label falls back to the user id.\<close>

definition label_or :: "string option \<Rightarrow> string \<Rightarrow> string" where
  "label_or label fallback = (case label of None \<Rightarrow> fallback | Some l \<Rightarrow> if l = [] then fallback else l)"

definition project_own_saved_candidate ::
  "(string \<Rightarrow> string) \<Rightarrow> definition_version \<Rightarrow> version_lifecycle \<Rightarrow> string \<Rightarrow> string option \<Rightarrow> string \<Rightarrow>
   candidate_certification_state \<Rightarrow> nat \<Rightarrow> projected_personal_candidate result" where
  "project_own_saved_candidate sha256 v lifecycle owner_user_id owner_label source_label certification stars =
     (if lc_retention lifecycle \<noteq> SAVED \<or> lc_confirmation lifecycle \<noteq> CONFIRMED
      then Inl (PersonalConflictServiceError ''personal_candidate_not_saved_confirmed'')
      else if blank owner_user_id then Inl (PersonalConflictServiceError ''personal_candidate_owner_missing'')
      else case mk_candidate_lineage (own_lineage sha256 v) of Inl e \<Rightarrow> Inl e | Inr lineage \<Rightarrow>
        candidate_of sha256
          \<lparr>cr_candidate_id = candidate_id_of sha256 ''own'' (dv_definition_id v) (dv_version v),
           cr_kind = SavedCustomDefinition, cr_origin = Own, cr_definition_id = dv_definition_id v,
           cr_definition_version = dv_version v, cr_display_name = dv_title v,
           cr_owner_label = Some (label_or owner_label owner_user_id), cr_source_label = Some source_label,
           cr_certification_state = certification, cr_star_count = stars\<rparr>
          lineage (dv_calculation v) (dv_parameter_contract v))"

definition installed_lineage :: "published_version \<Rightarrow> semantic_package \<Rightarrow> candidate_lineage" where
  "installed_lineage p semantic =
     \<lparr>cl_identity_id = pv_identity_id p, cl_version = pv_version p,
      cl_derived_from_identity = pv_derived_from_identity p, cl_derived_from_version = pv_derived_from_version p,
      cl_source_definition_id = sp_source_definition_id semantic,
      cl_source_definition_version = sp_source_definition_version semantic,
      cl_source_definition_checksum = sp_source_definition_checksum semantic\<rparr>"

definition project_installed_published_candidate ::
  "(string \<Rightarrow> string) \<Rightarrow> published_version \<Rightarrow> candidate_certification_state \<Rightarrow> nat \<Rightarrow> projected_personal_candidate result" where
  "project_installed_published_candidate sha256 p certification stars =
     (case pv_semantic p of
        None \<Rightarrow> Inl (PersonalConflictServiceError ''personal_candidate_semantics_unavailable'')
      | Some semantic \<Rightarrow>
          (case mk_candidate_lineage (installed_lineage p semantic) of Inl e \<Rightarrow> Inl e | Inr lineage \<Rightarrow>
             candidate_of sha256
               \<lparr>cr_candidate_id = candidate_id_of sha256 ''installed'' (pv_identity_id p) (pv_version p),
                cr_kind = (if pv_derived_from_identity p \<noteq> None then InstalledDerivative else InstalledPublishedMetric),
                cr_origin = Installed, cr_definition_id = pv_identity_id p, cr_definition_version = pv_version p,
                cr_display_name = pv_title p, cr_owner_label = Some (pv_owner_label p),
                cr_source_label = Some (pv_source_label p),
                cr_certification_state = certification, cr_star_count = stars\<rparr>
               lineage (sp_calculation semantic) (sp_parameter_contract semantic)))"

section \<open>Material differences\<close>

text \<open>\<open>len({...}) > 1\<close>.\<close>

definition several :: "'a list \<Rightarrow> bool" where
  "several xs \<longleftrightarrow> 1 < length (nub xs)"

definition formula_json :: "calculation_spec \<Rightarrow> json" where
  "formula_json c =
     jobj [(''expression'', expression_json (cs_expression c)), (''precision'', jopt (\<lambda>n. JInt (int n)) (cs_precision c)),
           (''rounding'', jopt (\<lambda>r. JStr (rounding_text r)) (cs_rounding c))]"

definition difference_units :: "projected_personal_candidate list \<Rightarrow> bool" where
  "difference_units cs = several (map (\<lambda>c. (cs_unit (pc_calculation c), cs_custom_unit_id (pc_calculation c))) cs)"

definition difference_parameters :: "(string \<Rightarrow> string) \<Rightarrow> projected_personal_candidate list \<Rightarrow> bool" where
  "difference_parameters sha256 cs = several (map (\<lambda>c. parameter_contract_checksum sha256 (pc_parameter_contract c)) cs)"

definition difference_inputs :: "projected_personal_candidate list \<Rightarrow> bool" where
  "difference_inputs cs = several (map (\<lambda>c. json_text (JList (map input_spec_json (cs_inputs (pc_calculation c))))) cs)"

definition difference_formula :: "projected_personal_candidate list \<Rightarrow> bool" where
  "difference_formula cs \<longleftrightarrow> several (map (\<lambda>c. json_text (formula_json (pc_calculation c))) cs) \<or>
     several (map (\<lambda>c. json_text (lineage_json (pc_lineage c))) cs)"

definition candidate_difference :: "material_difference_kind \<Rightarrow> string \<Rightarrow> string \<Rightarrow> string list \<Rightarrow> material_difference" where
  "candidate_difference k summary risk ids = \<lparr>md_kind = k, md_summary = summary, md_risk_note = Some risk, md_candidate_ids = ids\<rparr>"

definition difference_list :: "(string \<Rightarrow> string) \<Rightarrow> projected_personal_candidate list \<Rightarrow> material_difference list" where
  "difference_list sha256 cs =
     (let ids = map (cr_candidate_id \<circ> pc_reference) cs in concat
        [if difference_units cs then [candidate_difference DiffUnit ''Candidates declare different result units.''
            ''Values with different units are not interchangeable.'' ids] else [],
         if difference_parameters sha256 cs then [candidate_difference DiffParameterContract
            ''Candidates declare different parameter contracts.''
            ''A run binding valid for one candidate may be invalid for another.'' ids] else [],
         if difference_inputs cs then [candidate_difference DiffProvenance
            ''Candidates require different metric identities or provenance.''
            ''The candidates are bound to different governed inputs.'' ids] else [],
         if difference_formula cs then [candidate_difference DiffFormulaVersionLineage
            ''Candidates have different formula semantics or version lineage.''
            ''The user must choose the intended reusable definition.'' ids] else []])"

definition material_differences ::
  "(string \<Rightarrow> string) \<Rightarrow> projected_personal_candidate list \<Rightarrow> material_difference list result" where
  "material_differences sha256 cs =
     (if length cs < 2 then Inr [] else all_results (map mk_material_difference (difference_list sha256 cs)))"

section \<open>Resolution\<close>

text \<open>The loop over \<open>semantic_by_identity\<close>: one identity has one semantic package.\<close>

fun semantic_mismatch :: "(string \<times> nat, string) dict \<Rightarrow> projected_personal_candidate list \<Rightarrow> bool" where
  "semantic_mismatch seen [] = False"
| "semantic_mismatch seen (c # cs) =
     (let identity = cr_identity (pc_reference c);
          seen' = dsetdefault identity (pc_semantic_checksum c) seen
      in dget seen' identity \<noteq> Some (pc_semantic_checksum c) \<or> semantic_mismatch seen' cs)"

definition comparison_row ::
  "projected_personal_candidate list \<Rightarrow> semantic_conflict \<Rightarrow> personal_candidate_ref \<Rightarrow> conflict_comparison_candidate result" where
  "comparison_row candidates conflict r =
     (let by_id = fold (\<lambda>c. dset (cr_candidate_id (pc_reference c)) c) candidates [] in
      case dget by_id (cr_candidate_id r) of
        None \<Rightarrow> Inl (KeyError (cr_candidate_id r))
      | Some c \<Rightarrow> mk_conflict_comparison_candidate
          \<lparr>cc_candidate_id = cr_candidate_id r, cc_display_name = cr_display_name r, cc_origin = cr_origin r,
           cc_owner_label = cr_owner_label r, cc_source_label = cr_source_label r,
           cc_certification_state = cr_certification_state r, cc_star_count = cr_star_count r,
           cc_lineage = pc_lineage c, cc_semantic_checksum = pc_semantic_checksum c,
           cc_material_difference_kinds =
             nub (map md_kind (filter (\<lambda>d. cr_candidate_id r \<in> set (md_candidate_ids d)) (sc_differences conflict)))\<rparr>)"

definition unselected :: "semantic_resolution \<Rightarrow> semantic_conflict option \<Rightarrow> conflict_comparison option \<Rightarrow> personal_conflict_projection" where
  "unselected r c m = \<lparr>pp_resolution = r, pp_semantic_conflict = c, pp_conflict_comparison = m,
     pp_selected_candidate_id = None, pp_selected_definition_id = None, pp_selected_version = None\<rparr>"

definition present_conflict ::
  "projected_personal_candidate list \<Rightarrow> semantic_resolution \<Rightarrow> semantic_conflict option \<Rightarrow> personal_conflict_projection result" where
  "present_conflict candidates resolution conflict =
     (case conflict of
        None \<Rightarrow> mk_personal_conflict_projection (unselected resolution None None)
      | Some k \<Rightarrow>
          (case all_results (map (comparison_row candidates k) (sc_candidates k)) of
             Inl e \<Rightarrow> Inl e
           | Inr rows \<Rightarrow>
               (case mk_conflict_comparison \<lparr>cm_conflict_id = sc_conflict_id k,
                       cm_required_slot = sc_required_slot k, cm_candidates = rows\<rparr> of
                  Inl e \<Rightarrow> Inl e
                | Inr comparison \<Rightarrow>
                    mk_personal_conflict_projection (unselected resolution (Some k) (Some comparison)))))"

definition resolve_personal_candidate_conflict ::
  "(string \<Rightarrow> string) \<Rightarrow> projected_personal_candidate list \<Rightarrow> string \<Rightarrow> personal_conflict_projection result" where
  "resolve_personal_candidate_conflict sha256 candidates required_slot =
     (if 16 < length candidates then Inl (PersonalConflictServiceError ''personal_candidate_limit_exceeded'')
      else if semantic_mismatch [] candidates
        then Inl (PersonalConflictServiceError ''personal_candidate_identity_semantic_mismatch'')
      else if \<not> distinct (map (cr_candidate_id \<circ> pc_reference) candidates)
        then Inl (PersonalConflictServiceError ''personal_candidate_id_duplicate'')
      else case material_differences sha256 candidates of Inl e \<Rightarrow> Inl e | Inr differences \<Rightarrow>
        (case resolve_personal_conflict sha256 (map pc_reference candidates) required_slot differences of
           Inl e \<Rightarrow> Inl e
         | Inr (resolution, conflict) \<Rightarrow> present_conflict candidates resolution conflict))"

definition validate_personal_selection ::
  "personal_selection \<Rightarrow> personal_conflict_projection \<Rightarrow> personal_selection result" where
  "validate_personal_selection selection projection =
     (case pp_semantic_conflict projection of
        None \<Rightarrow> Inl (PersonalConflictServiceError ''personal_selection_conflict_missing'')
      | Some conflict \<Rightarrow> validated
          [(ps_conflict_id selection \<noteq> sc_conflict_id conflict, PersonalConflictServiceError ''personal_selection_conflict_mismatch''),
           (ps_required_slot selection \<noteq> sc_required_slot conflict, PersonalConflictServiceError ''personal_selection_slot_mismatch''),
           (ps_selected_candidate_id selection \<notin> cr_candidate_id ` set (sc_candidates conflict),
            PersonalConflictServiceError ''personal_selection_candidate_mismatch'')] selection)"

section \<open>Every branch of the resolution\<close>

lemma dedupe_loop_identities:
  "map cr_identity (dedupe_loop seen cs) = filter (\<lambda>i. i \<notin> set seen) (nub (map cr_identity cs))"
  by (induction seen cs rule: dedupe_loop.induct) (auto simp: filter_filter conj_commute intro!: filter_cong)

lemma dedupe_identities: "map cr_identity (deduplicate_candidates cs) = nub (map cr_identity cs)"
  by (simp add: deduplicate_candidates_def dedupe_loop_identities)

lemma dedupe_subset: "set (dedupe_loop seen cs) \<subseteq> set cs"
  by (induction seen cs rule: dedupe_loop.induct) auto

lemma nub_distinct [simp]: "distinct xs \<Longrightarrow> nub xs = xs"
  by (induction xs) (auto intro!: filter_True)

lemma length_nub: "length (nub xs) = card (set xs)"
  by (metis distinct_card distinct_nub set_nub)

lemma length_nub_le: "length (nub xs) \<le> length xs"
  by (simp add: length_nub card_length)

lemma several_iff: "several xs \<longleftrightarrow> (\<exists>x \<in> set xs. \<exists>y \<in> set xs. x \<noteq> y)"
proof -
  have "several xs \<longleftrightarrow> \<not> card (set xs) \<le> 1" by (auto simp: several_def length_nub)
  then show ?thesis by (auto simp: card_le_Suc0_iff_eq)
qed

lemma dedupe_distinct:
  "distinct (map cr_identity cs) \<Longrightarrow> (\<And>c. c \<in> set cs \<Longrightarrow> cr_identity c \<notin> set seen) \<Longrightarrow> dedupe_loop seen cs = cs"
  by (induction seen cs rule: dedupe_loop.induct) (auto simp: image_iff, metis)

lemma agrees_dsetdefault:
  assumes "dget (dsetdefault k v d) k = Some v"
  shows "(\<forall>i s. dget (dsetdefault k v d) i = Some s \<longrightarrow> f i = s) \<longleftrightarrow> (\<forall>i s. dget d i = Some s \<longrightarrow> f i = s) \<and> f k = v"
  using assms by (auto split: if_splits)

lemma semantic_mismatch_iff:
  "semantic_mismatch seen cs \<longleftrightarrow>
     \<not> (\<exists>f. (\<forall>i s. dget seen i = Some s \<longrightarrow> f i = s) \<and>
         (\<forall>c \<in> set cs. f (cr_identity (pc_reference c)) = pc_semantic_checksum c))"
proof (induction seen cs rule: semantic_mismatch.induct)
  case (1 seen)
  have "\<exists>f. \<forall>i s. dget seen i = Some s \<longrightarrow> f i = s" by (intro exI[of _ "\<lambda>i. the (dget seen i)"]) simp
  then show ?case by simp
next
  case (2 seen c cs)
  let ?i = "cr_identity (pc_reference c)" and ?s = "pc_semantic_checksum c"
  let ?new = "dsetdefault ?i ?s seen"
  show ?case
  proof (cases "dget ?new ?i = Some ?s")
    case True
    note agrees = agrees_dsetdefault[OF True]
    from True 2[OF refl refl] show ?thesis
      by (simp only: semantic_mismatch.simps Let_def agrees list.set ball_simps) blast
  next
    case False
    then obtain s where "dget seen ?i = Some s" "s \<noteq> ?s" by (cases "dget seen ?i") auto
    with False show ?thesis by (auto simp: Let_def simp del: split_paired_All split_paired_Ex)
  qed
qed

text \<open>A candidate as the projections build it.\<close>

definition candidate_ok :: "(string \<Rightarrow> string) \<Rightarrow> projected_personal_candidate \<Rightarrow> bool" where
  "candidate_ok sha256 c \<longleftrightarrow> mk_personal_candidate_ref (pc_reference c) = Inr (pc_reference c) \<and>
     mk_candidate_lineage (pc_lineage c) = Inr (pc_lineage c) \<and> mk_projected_personal_candidate sha256 c = Inr c"

lemma candidate_okD:
  assumes "candidate_ok h c"
  shows "length_in 1 128 (cr_candidate_id (pc_reference c))" "length_in 1 256 (cr_display_name (pc_reference c))"
    "\<not> opt_bad (length_in 0 128) (cr_owner_label (pc_reference c))"
    "\<not> opt_bad (length_in 0 256) (cr_source_label (pc_reference c))" "is_hex64 (pc_semantic_checksum c)"
    "cr_identity (pc_reference c) = (cl_identity_id (pc_lineage c), cl_version (pc_lineage c))"
    "length_in 1 128 (cr_definition_id (pc_reference c))" "1 \<le> cr_definition_version (pc_reference c)"
    "pc_semantic_checksum c = semantic_checksum h (pc_calculation c) (pc_parameter_contract c)"
  using assms by (auto simp: candidate_ok_def mk_personal_candidate_ref_def mk_projected_personal_candidate_def Let_def cr_identity_def)

lemma candidate_of_ok:
  assumes "candidate_of h r l calc pc = Inr c" "mk_candidate_lineage l = Inr l"
  shows "candidate_ok h c" "pc_reference c = r" "pc_lineage c = l" "pc_calculation c = calc" "pc_parameter_contract c = pc"
    "pc_semantic_checksum c = semantic_checksum h calc pc"
  using assms by (auto simp: candidate_of_def candidate_ok_def mk_projected_personal_candidate_def
      mk_personal_candidate_ref_def Let_def split: sum.splits)

lemma lineage_json_identity:
  "json_text (lineage_json l) = json_text (lineage_json m) \<Longrightarrow> cl_identity_id l = cl_identity_id m \<and> cl_version l = cl_version m"
proof -
  assume eq: "json_text (lineage_json l) = json_text (lineage_json m)"
  have "json_ok (lineage_json l)" for l by (auto simp: lineage_json_def json_ok_jopt)
  with eq have "lineage_json l = lineage_json m" by (intro json_text_inject) auto
  then have "member (lineage_json l) k = member (lineage_json m) k" for k by simp
  from this[of "''identity_id''"] this[of "''version''"] show ?thesis by (simp add: lineage_json_def member_jobj)
qed

lemma difference_list_shape:
  "length (difference_list h cs) \<le> 4" "difference_formula cs \<Longrightarrow> difference_list h cs \<noteq> []"
  "d \<in> set (difference_list h cs) \<Longrightarrow> md_candidate_ids d = map (cr_candidate_id \<circ> pc_reference) cs"
  "d \<in> set (difference_list h cs) \<Longrightarrow> mk_material_difference d =
     (if length_in 1 8 cs then Inr d else Inl (FieldError ''candidate_ids''))"
  by (auto simp: difference_list_def Let_def candidate_difference_def mk_material_difference_def length_in_def
      opt_bad_def validated_eval split: if_splits)

lemma several_identities_differ:
  assumes "several (map (cr_identity \<circ> pc_reference) cs)" "\<And>c. c \<in> set cs \<Longrightarrow> candidate_ok h c"
  shows "difference_formula cs"
proof -
  have lineage: "cr_identity (pc_reference c) = (cl_identity_id (pc_lineage c), cl_version (pc_lineage c))" if "c \<in> set cs" for c
    by (rule candidate_okD(6)[OF assms(2)[OF that]])
  from assms(1) obtain c d where cd: "c \<in> set cs" "d \<in> set cs" "cr_identity (pc_reference c) \<noteq> cr_identity (pc_reference d)"
    by (auto simp: several_iff)
  then have "json_text (lineage_json (pc_lineage c)) \<noteq> json_text (lineage_json (pc_lineage d))"
    using lineage_json_identity[of "pc_lineage c" "pc_lineage d"] by (auto simp: lineage)
  with cd show ?thesis by (auto simp: difference_formula_def several_iff)
qed

lemma material_differences_small:
  "length cs \<le> 8 \<Longrightarrow> material_differences h cs = Inr (if length cs < 2 then [] else difference_list h cs)"
  by (cases "length cs < 2") (auto simp: material_differences_def difference_list_shape(4) length_in_def intro!: all_results_same)

lemma material_differences_large:
  assumes "8 < length cs" "difference_formula cs"
  shows "material_differences h cs = Inl (FieldError ''candidate_ids'')"
proof -
  from difference_list_shape(2)[OF assms(2)] obtain d ds where ds: "difference_list h cs = d # ds" by (cases "difference_list h cs") auto
  with difference_list_shape(4)[of d h cs] assms(1) have "mk_material_difference d = Inl (FieldError ''candidate_ids'')"
    by (simp add: length_in_def)
  with ds assms(1) show ?thesis by (simp add: material_differences_def)
qed

lemma comparison_by_id:
  assumes "distinct (map (cr_candidate_id \<circ> pc_reference) cs)" "c \<in> set cs"
  shows "dget (fold (\<lambda>c. dset (cr_candidate_id (pc_reference c)) c) cs d) (cr_candidate_id (pc_reference c)) = Some c"
  using assms
proof (induction cs arbitrary: d)
  case (Cons x xs)
  have other: "dget (fold (\<lambda>c. dset (cr_candidate_id (pc_reference c)) c) ys e) k = dget e k"
    if "k \<notin> set (map (cr_candidate_id \<circ> pc_reference) ys)" for ys e k
    using that by (induction ys arbitrary: e) auto
  from Cons show ?case by (auto simp: other)
qed simp

lemma comparison_row_ok:
  assumes "distinct (map (cr_candidate_id \<circ> pc_reference) cs)" "c \<in> set cs" "candidate_ok h c" "length (sc_differences k) \<le> 16"
  shows "comparison_row cs k (pc_reference c) = Inr
     \<lparr>cc_candidate_id = cr_candidate_id (pc_reference c), cc_display_name = cr_display_name (pc_reference c),
      cc_origin = cr_origin (pc_reference c), cc_owner_label = cr_owner_label (pc_reference c),
      cc_source_label = cr_source_label (pc_reference c),
      cc_certification_state = cr_certification_state (pc_reference c), cc_star_count = cr_star_count (pc_reference c),
      cc_lineage = pc_lineage c, cc_semantic_checksum = pc_semantic_checksum c,
      cc_material_difference_kinds =
        nub (map md_kind (filter (\<lambda>d. cr_candidate_id (pc_reference c) \<in> set (md_candidate_ids d)) (sc_differences k)))\<rparr>"
proof -
  have "length (nub (map md_kind (filter P (sc_differences k)))) \<le> 16" for P
    by (rule le_trans[OF length_nub_le]) (simp add: le_trans[OF length_filter_le assms(4)])
  then show ?thesis
    using candidate_okD(1-5)[OF assms(3)] by (simp add: comparison_row_def Let_def comparison_by_id[OF assms(1,2)]
        mk_conflict_comparison_candidate_def length_in_def[of 0 16])
qed

text \<open>What the resolution is given: candidates from the projections, at most the limit, ids distinct, one
  package per identity, and a slot name.\<close>

definition resolvable :: "(string \<Rightarrow> string) \<Rightarrow> projected_personal_candidate list \<Rightarrow> string \<Rightarrow> bool" where
  "resolvable h cs slot \<longleftrightarrow> length cs \<le> 16 \<and> (\<forall>c \<in> set cs. candidate_ok h c) \<and>
     distinct (map (cr_candidate_id \<circ> pc_reference) cs) \<and> \<not> semantic_mismatch [] cs \<and>
     length_in 1 64 slot \<and> \<not> blank slot"

lemma resolvableD:
  assumes "resolvable h cs slot"
  shows "length cs \<le> 16" "c \<in> set cs \<Longrightarrow> candidate_ok h c" "distinct (map (cr_candidate_id \<circ> pc_reference) cs)"
    "\<not> semantic_mismatch [] cs" "length_in 1 64 slot" "\<not> blank slot"
  using assms by (auto simp: resolvable_def)

lemma resolve_start:
  assumes "resolvable h cs slot"
  shows "resolve_personal_candidate_conflict h cs slot =
     (case material_differences h cs of Inl e \<Rightarrow> Inl e | Inr differences \<Rightarrow>
        (case resolve_personal_conflict h (map pc_reference cs) slot differences of
           Inl e \<Rightarrow> Inl e | Inr (resolution, conflict) \<Rightarrow> present_conflict cs resolution conflict))"
  using resolvableD[OF assms] by (simp add: resolve_personal_candidate_conflict_def)

definition the_conflict :: "(string \<Rightarrow> string) \<Rightarrow> projected_personal_candidate list \<Rightarrow> string \<Rightarrow> semantic_conflict" where
  "the_conflict h cs slot = \<lparr>sc_conflict_id = conflict_id_of h (map pc_reference cs), sc_required_slot = slot,
     sc_candidates = map pc_reference cs, sc_differences = difference_list h cs\<rparr>"

lemma resolve_distinct:
  assumes ok: "resolvable h cs slot" and few: "2 \<le> length cs" "length cs \<le> 8"
    and ids: "distinct (map (cr_identity \<circ> pc_reference) cs)"
  obtains comparison where "resolve_personal_candidate_conflict h cs slot =
      Inr (unselected \<lparr>sr_outcome = ClarificationRequired, sr_unresolved_slots = [slot]\<rparr> (Some (the_conflict h cs slot)) (Some comparison))"
    "map cc_candidate_id (cm_candidates comparison) = map (cr_candidate_id \<circ> pc_reference) cs"
proof -
  note ok' = resolvableD[OF ok]
  let ?k = "the_conflict h cs slot"
  have dedupe: "deduplicate_candidates (map pc_reference cs) = map pc_reference cs"
    using ids by (simp add: deduplicate_candidates_def dedupe_distinct)
  have diffs: "material_differences h cs = Inr (difference_list h cs)"
    using few by (simp add: material_differences_small)
  have conflict: "mk_semantic_conflict ?k = Inr ?k"
    using ok' few ids difference_list_shape(1)[of h cs] difference_list_shape(3)[of _ h cs]
    by (auto simp: mk_semantic_conflict_def the_conflict_def length_in_def conflict_id_of_def Let_def list_ex_iff
        intro: le_trans)
  have res: "mk_semantic_resolution ClarificationRequired [slot] =
      Inr \<lparr>sr_outcome = ClarificationRequired, sr_unresolved_slots = [slot]\<rparr>"
    using ok'(6) by (simp add: mk_semantic_resolution_def)
  have resolved: "resolve_personal_conflict h (map pc_reference cs) slot (difference_list h cs) =
      Inr (\<lparr>sr_outcome = ClarificationRequired, sr_unresolved_slots = [slot]\<rparr>, Some ?k)"
    using few res conflict by (simp add: resolve_personal_conflict_def dedupe Let_def the_conflict_def length_0_conv[symmetric] del: length_0_conv)
  have small: "length (sc_differences ?k) \<le> 16"
    using difference_list_shape(1)[of h cs] by (simp add: the_conflict_def)
  define row where "row c = (THE r. comparison_row cs ?k (pc_reference c) = Inr r)" for c :: projected_personal_candidate
  have row: "comparison_row cs ?k (pc_reference c) = Inr (row c)" "cc_candidate_id (row c) = cr_candidate_id (pc_reference c)"
    if "c \<in> set cs" for c
    using comparison_row_ok[OF ok'(3) that ok'(2)[OF that] small] by (simp_all add: row_def)
  have rows: "all_results (map (comparison_row cs ?k) (sc_candidates ?k)) = Inr (map row cs)"
    by (auto simp: all_results_Inr the_conflict_def list_all2_conv_all_nth row(1)[unfolded the_conflict_def])
  have row_ids: "map cc_candidate_id (map row cs) = map (cr_candidate_id \<circ> pc_reference) cs" by (simp add: row(2))
  let ?m = "\<lparr>cm_conflict_id = sc_conflict_id ?k, cm_required_slot = sc_required_slot ?k, cm_candidates = map row cs\<rparr>"
  have comparison: "mk_conflict_comparison ?m = Inr ?m"
    using conflict few row_ids ok'(3) by (simp add: mk_conflict_comparison_def mk_semantic_conflict_def Let_def length_in_def del: map_map)
  show ?thesis
  proof
    show "resolve_personal_candidate_conflict h cs slot =
      Inr (unselected \<lparr>sr_outcome = ClarificationRequired, sr_unresolved_slots = [slot]\<rparr> (Some ?k) (Some ?m))"
      by (simp add: resolve_start[OF ok] diffs resolved rows comparison present_conflict_def)
        (simp add: mk_personal_conflict_projection_def unselected_def opt_bad_def)
    show "map cc_candidate_id (cm_candidates ?m) = map (cr_candidate_id \<circ> pc_reference) cs" using row_ids by simp
  qed
qed

lemma dedupe_distinct_map: "distinct (map f cs) \<Longrightarrow> distinct (map f (dedupe_loop seen cs))"
  using dedupe_subset by (induction seen cs rule: dedupe_loop.induct) fastforce+

lemma dedupe_fewer:
  assumes "\<not> distinct (map cr_identity cs)" shows "length (deduplicate_candidates cs) < length cs"
proof -
  have "length (deduplicate_candidates cs) = length (nub (map cr_identity cs))"
    by (metis dedupe_identities length_map)
  also have "\<dots> < length cs"
    using assms card_length[of "map cr_identity cs"] card_distinct[of "map cr_identity cs"] by (fastforce simp: length_nub)
  finally show ?thesis .
qed

lemma resolve_with_duplicates:
  assumes ok: "resolvable h cs slot" and few: "length cs \<le> 8" and several: "several (map (cr_identity \<circ> pc_reference) cs)"
    and dup: "\<not> distinct (map (cr_identity \<circ> pc_reference) cs)"
  shows "resolve_personal_candidate_conflict h cs slot = Inl (ValueError ''difference must reference presented candidates'')"
proof -
  note ok' = resolvableD[OF ok]
  let ?d = "deduplicate_candidates (map pc_reference cs)" and ?ids = "map (cr_candidate_id \<circ> pc_reference) cs"
  have two: "2 \<le> length ?d"
    using several dedupe_identities[of "map pc_reference cs", THEN arg_cong[where f = length]] by (simp add: several_def)
  have shorter: "length ?d < length cs" using dedupe_fewer[of "map pc_reference cs"] dup by simp
  have "distinct (map cr_candidate_id (map pc_reference cs))" using ok'(3) by simp
  then have unique: "distinct (map cr_candidate_id ?d)" "distinct (map cr_identity ?d)"
    by (unfold deduplicate_candidates_def, rule dedupe_distinct_map)
      (simp add: dedupe_identities[unfolded deduplicate_candidates_def])
  have "card (set (map cr_candidate_id ?d)) < card (set ?ids)"
    using shorter distinct_card[OF unique(1)] distinct_card[OF ok'(3)] by simp
  then have missing: "\<not> set ?ids \<subseteq> set (map cr_candidate_id ?d)"
    using card_mono[of "set (map cr_candidate_id ?d)" "set ?ids"] by force
  from difference_list_shape(2)[OF several_identities_differ[OF several ok'(2)]]
  obtain x where x: "x \<in> set (difference_list h cs)" by (cases "difference_list h cs") auto
  then have bad: "list_ex (\<lambda>d. \<not> set (md_candidate_ids d) \<subseteq> set (map cr_candidate_id ?d)) (difference_list h cs)"
    unfolding list_ex_iff using missing difference_list_shape(3)[OF x] by (intro bexI[of _ x]) simp_all
  have "mk_semantic_conflict \<lparr>sc_conflict_id = conflict_id_of h ?d, sc_required_slot = slot, sc_candidates = ?d,
      sc_differences = difference_list h cs\<rparr> = Inl (ValueError ''difference must reference presented candidates'')"
    using two shorter few unique bad ok'(5) difference_list_shape(1)[of h cs]
    by (simp add: mk_semantic_conflict_def Let_def validated_eval length_in_def[of _ 128] length_in_def[of _ 16] conflict_id_of_def)
  then have "resolve_personal_conflict h (map pc_reference cs) slot (difference_list h cs) =
      Inl (ValueError ''difference must reference presented candidates'')"
    using two by (auto simp: resolve_personal_conflict_def Let_def)
  then show ?thesis using few two shorter by (simp add: resolve_start[OF ok] material_differences_small)
qed

lemma resolve_one_identity:
  assumes ok: "resolvable h cs slot" and few: "length cs \<le> 8" and one: "\<not> several (map (cr_identity \<circ> pc_reference) cs)"
  shows "resolve_personal_candidate_conflict h cs slot = Inr (unselected
      \<lparr>sr_outcome = (if cs = [] then NoAuthoritativeDefinition else Resolved), sr_unresolved_slots = []\<rparr> None None)"
proof -
  have len: "length (deduplicate_candidates (map pc_reference cs)) = (if cs = [] then 0 else 1)"
    using one dedupe_identities[of "map pc_reference cs", THEN arg_cong[where f = length]]
    by (cases cs) (auto simp: several_def)
  have "resolve_personal_conflict h (map pc_reference cs) slot ds =
      Inr (\<lparr>sr_outcome = (if cs = [] then NoAuthoritativeDefinition else Resolved), sr_unresolved_slots = []\<rparr>, None)" for ds
    using len by (auto simp: resolve_personal_conflict_def Let_def mk_semantic_resolution_def validated_eval split: if_splits)
  then show ?thesis
    by (simp add: resolve_start[OF ok] material_differences_small[OF few] present_conflict_def mk_personal_conflict_projection_def unselected_def opt_bad_def)
qed


section \<open>Descriptions do not decide\<close>

text \<open>The descriptive fields of a candidate set to fixed values: name, labels, certification, stars.\<close>

definition plain_ref :: "personal_candidate_ref \<Rightarrow> personal_candidate_ref" where
  "plain_ref r = r\<lparr>cr_display_name := ''x'', cr_owner_label := None, cr_source_label := None,
     cr_certification_state := CertificationUnknown, cr_star_count := 0\<rparr>"

definition plain :: "projected_personal_candidate \<Rightarrow> projected_personal_candidate" where
  "plain c = c\<lparr>pc_reference := plain_ref (pc_reference c)\<rparr>"

definition plain_conflict :: "semantic_conflict \<Rightarrow> semantic_conflict" where
  "plain_conflict k = k\<lparr>sc_candidates := map plain_ref (sc_candidates k)\<rparr>"

definition plain_row :: "conflict_comparison_candidate \<Rightarrow> conflict_comparison_candidate" where
  "plain_row r = r\<lparr>cc_display_name := ''x'', cc_owner_label := None, cc_source_label := None,
     cc_certification_state := CertificationUnknown, cc_star_count := 0\<rparr>"

definition plain_comparison :: "conflict_comparison \<Rightarrow> conflict_comparison" where
  "plain_comparison m = m\<lparr>cm_candidates := map plain_row (cm_candidates m)\<rparr>"

definition plain_projection :: "personal_conflict_projection \<Rightarrow> personal_conflict_projection" where
  "plain_projection p = p\<lparr>pp_semantic_conflict := map_option plain_conflict (pp_semantic_conflict p),
     pp_conflict_comparison := map_option plain_comparison (pp_conflict_comparison p)\<rparr>"

lemma plain_fields [simp]:
  "cr_candidate_id (plain_ref r) = cr_candidate_id r" "cr_kind (plain_ref r) = cr_kind r"
  "cr_origin (plain_ref r) = cr_origin r" "cr_identity (plain_ref r) = cr_identity r"
  "identity_checksum h (plain_ref r) = identity_checksum h r"
  "pc_reference (plain c) = plain_ref (pc_reference c)" "pc_lineage (plain c) = pc_lineage c"
  "pc_semantic_checksum (plain c) = pc_semantic_checksum c" "pc_calculation (plain c) = pc_calculation c"
  "pc_parameter_contract (plain c) = pc_parameter_contract c" "cc_candidate_id (plain_row w) = cc_candidate_id w"
  by (simp_all add: plain_ref_def plain_def plain_row_def cr_identity_def identity_checksum_def identity_checksum_json_def)

lemma plain_mismatch: "semantic_mismatch seen (map plain cs) = semantic_mismatch seen cs"
  by (induction seen cs rule: semantic_mismatch.induct) (simp_all add: Let_def)

lemma plain_differences: "material_differences h (map plain cs) = material_differences h cs"
  by (simp add: material_differences_def difference_list_def difference_units_def difference_parameters_def
      difference_inputs_def difference_formula_def comp_def)

lemma plain_dedupe: "dedupe_loop seen (map plain_ref cs) = map plain_ref (dedupe_loop seen cs)"
  by (induction seen cs rule: dedupe_loop.induct) simp_all

lemma plain_mk_conflict: "mk_semantic_conflict (plain_conflict k) = map_sum id plain_conflict (mk_semantic_conflict k)"
  by (simp add: mk_semantic_conflict_def plain_conflict_def Let_def comp_def length_in_def validated_def split: option.split)

lemma plain_resolve:
  "resolve_personal_conflict h (map plain_ref cs) slot ds =
     map_sum id (map_prod id (map_option plain_conflict)) (resolve_personal_conflict h cs slot ds)"
proof -
  let ?d = "deduplicate_candidates cs"
  let ?k = "\<lparr>sc_conflict_id = conflict_id_of h ?d, sc_required_slot = slot, sc_candidates = ?d, sc_differences = ds\<rparr>"
  have d: "deduplicate_candidates (map plain_ref cs) = map plain_ref ?d"
    by (simp add: deduplicate_candidates_def plain_dedupe)
  have "plain_conflict ?k = \<lparr>sc_conflict_id = conflict_id_of h (map plain_ref ?d), sc_required_slot = slot,
      sc_candidates = map plain_ref ?d, sc_differences = ds\<rparr>"
    by (simp add: plain_conflict_def conflict_id_of_def comp_def)
  with plain_mk_conflict[of ?k] show ?thesis
    by (simp add: resolve_personal_conflict_def d Let_def mk_semantic_resolution_def validated_def split: option.split sum.split)
qed

lemma plain_by_id:
  "dget (fold (\<lambda>c. dset (cr_candidate_id (pc_reference c)) c) (map plain cs) (map (\<lambda>(k, c). (k, plain c)) d)) k =
   map_option plain (dget (fold (\<lambda>c. dset (cr_candidate_id (pc_reference c)) c) cs d) k)"
proof (induction cs arbitrary: d)
  case Nil
  show ?case by (simp add: map_of_map)
next
  case (Cons c cs)
  have "dset (cr_candidate_id (pc_reference c)) (plain c) (map (\<lambda>(k, c). (k, plain c)) d) =
      map (\<lambda>(k, c). (k, plain c)) (dset (cr_candidate_id (pc_reference c)) c d)"
    by (induction d) auto
  then show ?case using Cons.IH by simp
qed

lemma plain_row_of:
  assumes "candidate_ok h c" "c \<in> set cs"
  shows "comparison_row (map plain cs) (plain_conflict k) (plain_ref (pc_reference c)) =
    map_sum id plain_row (comparison_row cs k (pc_reference c))"
proof -
  note fields = candidate_okD(1-4)[OF assms(1)]
  show ?thesis
    using fields plain_by_id[of cs "[]" "cr_candidate_id (pc_reference c)"]
    by (auto simp: comparison_row_def Let_def mk_conflict_comparison_candidate_def plain_conflict_def plain_row_def
        plain_ref_def validated_eval opt_bad_def length_in_def split: option.split)
qed

lemma all_results_map:
  "(\<And>x. x \<in> set xs \<Longrightarrow> f (g x) = map_sum id m (f' x)) \<Longrightarrow>
   all_results (map f (map g xs)) = map_sum id (map m) (all_results (map f' xs))"
proof (induction xs)
  case (Cons x xs)
  have IH: "all_results (map f (map g xs)) = map_sum id (map m) (all_results (map f' xs))"
    by (intro Cons.IH Cons.prems) simp
  have x: "f (g x) = map_sum id m (f' x)" by (rule Cons.prems) simp
  show ?case
  proof (cases "f' x")
    case (Inr y)
    then show ?thesis using x IH by (cases "all_results (map f' xs)") simp_all
  qed (simp add: x)
qed simp

lemma resolve_personal_conflict_candidates:
  "resolve_personal_conflict h rs slot ds = Inr (r, Some k) \<Longrightarrow> sc_candidates k = deduplicate_candidates rs"
  by (auto simp: resolve_personal_conflict_def Let_def mk_semantic_conflict_def map_sum_Inr_iff split: if_splits sum.splits)

lemma plain_comparison_of:
  "mk_conflict_comparison \<lparr>cm_conflict_id = sc_conflict_id (plain_conflict k), cm_required_slot = sc_required_slot (plain_conflict k),
      cm_candidates = map plain_row rows\<rparr> =
   map_sum id plain_comparison (mk_conflict_comparison \<lparr>cm_conflict_id = sc_conflict_id k, cm_required_slot = sc_required_slot k,
      cm_candidates = rows\<rparr>)"
  by (simp add: mk_conflict_comparison_def plain_conflict_def plain_comparison_def comp_def length_in_def validated_def split: option.split)

lemma plain_projection_of:
  "mk_personal_conflict_projection (unselected r (map_option plain_conflict c) (map_option plain_comparison m)) =
     map_sum id plain_projection (mk_personal_conflict_projection (unselected r c m))"
  by (simp add: mk_personal_conflict_projection_def unselected_def plain_projection_def validated_def opt_bad_def Let_def split: option.split)

lemma plain_present:
  assumes ok: "\<And>c. c \<in> set cs \<Longrightarrow> candidate_ok h c"
    and shown: "\<And>k. conflict = Some k \<Longrightarrow> set (sc_candidates k) \<subseteq> pc_reference ` set cs"
  shows "present_conflict (map plain cs) r (map_option plain_conflict conflict) =
    map_sum id plain_projection (present_conflict cs r conflict)"
proof (cases conflict)
  case None
  then show ?thesis using plain_projection_of[of r None None] by (simp add: present_conflict_def)
next
  case (Some k)
  have "comparison_row (map plain cs) (plain_conflict k) (plain_ref x) = map_sum id plain_row (comparison_row cs k x)"
    if "x \<in> set (sc_candidates k)" for x using shown[OF Some] that plain_row_of[OF ok] by blast
  moreover have "sc_candidates (plain_conflict k) = map plain_ref (sc_candidates k)" by (simp add: plain_conflict_def)
  ultimately have "all_results (map (comparison_row (map plain cs) (plain_conflict k)) (sc_candidates (plain_conflict k))) =
      map_sum id (map plain_row) (all_results (map (comparison_row cs k) (sc_candidates k)))"
    by (simp only: all_results_map)
  then show ?thesis
    using Some plain_projection_of[of r "Some k" "Some m" for m]
    by (simp add: present_conflict_def plain_comparison_of split: sum.split)
qed

lemma resolve_plain:
  assumes ok: "\<And>c. c \<in> set cs \<Longrightarrow> candidate_ok h c"
  shows "resolve_personal_candidate_conflict h (map plain cs) slot =
    map_sum id plain_projection (resolve_personal_candidate_conflict h cs slot)"
proof -
  have refs: "map pc_reference (map plain cs) = map plain_ref (map pc_reference cs)" by simp
  have shown: "set (sc_candidates k) \<subseteq> pc_reference ` set cs"
    if "resolve_personal_conflict h (map pc_reference cs) slot ds = Inr (r, Some k)" for ds r k
    using resolve_personal_conflict_candidates[OF that] dedupe_subset[of "[]" "map pc_reference cs"]
    by (simp add: deduplicate_candidates_def)
  have present: "(case map_sum id (map_prod id (map_option plain_conflict)) (resolve_personal_conflict h (map pc_reference cs) slot ds) of
      Inl e \<Rightarrow> Inl e | Inr (resolution, conflict) \<Rightarrow> present_conflict (map plain cs) resolution conflict) =
    map_sum id plain_projection (case resolve_personal_conflict h (map pc_reference cs) slot ds of
      Inl e \<Rightarrow> Inl e | Inr (resolution, conflict) \<Rightarrow> present_conflict cs resolution conflict)" for ds
  proof (cases "resolve_personal_conflict h (map pc_reference cs) slot ds")
    case (Inr rc)
    obtain a b where rc: "rc = (a, b)" by (cases rc)
    have "present_conflict (map plain cs) a (map_option plain_conflict b) = map_sum id plain_projection (present_conflict cs a b)"
      using Inr rc by (intro plain_present[OF ok]) (simp_all add: shown)
    with Inr rc show ?thesis by simp
  qed simp
  show ?thesis
    by (simp only: resolve_personal_candidate_conflict_def refs plain_mismatch plain_differences length_map plain_resolve present)
      (simp add: comp_def split: sum.split)
qed

text \<open>The agent never chooses by description: two lists of candidates that differ only in display names, owner
  and source labels, certification and stars give the same resolution, the same conflict with the same candidates
  and differences in the same order, or the same error.\<close>

theorem descriptions_never_decide:
  assumes "\<And>c. c \<in> set cs \<union> set ds \<Longrightarrow> candidate_ok h c" and same: "map plain cs = map plain ds"
  shows "map_sum id plain_projection (resolve_personal_candidate_conflict h cs slot) =
     map_sum id plain_projection (resolve_personal_candidate_conflict h ds slot)"
  using assms(1) resolve_plain[of cs h slot] resolve_plain[of ds h slot] by (simp add: same)

section \<open>Projected candidates\<close>

lemma mk_candidate_lineage_Inr: "mk_candidate_lineage l = Inr m \<Longrightarrow> m = l"
  by (auto simp: mk_candidate_lineage_def)

lemma project_own_ok:
  assumes "project_own_saved_candidate h v lc owner lbl src cert stars = Inr c"
  shows "candidate_ok h c" "cr_candidate_id (pc_reference c) = candidate_id_of h ''own'' (dv_definition_id v) (dv_version v)"
    "cr_identity (pc_reference c) = (dv_definition_id v, dv_version v)" "cr_kind (pc_reference c) = SavedCustomDefinition"
    "pc_semantic_checksum c = semantic_checksum h (dv_calculation v) (dv_parameter_contract v)"
    "lc_retention lc = SAVED" "lc_confirmation lc = CONFIRMED"
proof -
  from assms have guards: "lc_retention lc = SAVED" "lc_confirmation lc = CONFIRMED"
    by (auto simp: project_own_saved_candidate_def split: if_splits)
  from assms obtain l where l: "mk_candidate_lineage (own_lineage h v) = Inr l"
    by (auto simp: project_own_saved_candidate_def split: if_splits sum.splits)
  note lin = l[unfolded mk_candidate_lineage_Inr[OF l]]
  from assms guards lin show "lc_retention lc = SAVED" "lc_confirmation lc = CONFIRMED" by simp_all
  from assms guards lin obtain r where r: "candidate_of h r (own_lineage h v) (dv_calculation v) (dv_parameter_contract v) = Inr c"
    "cr_candidate_id r = candidate_id_of h ''own'' (dv_definition_id v) (dv_version v)"
    "cr_identity r = (dv_definition_id v, dv_version v)" "cr_kind r = SavedCustomDefinition"
    by (auto simp: project_own_saved_candidate_def cr_identity_def split: if_splits)
  note c = candidate_of_ok[OF r(1) lin]
  show "candidate_ok h c" "cr_candidate_id (pc_reference c) = candidate_id_of h ''own'' (dv_definition_id v) (dv_version v)"
    "cr_identity (pc_reference c) = (dv_definition_id v, dv_version v)" "cr_kind (pc_reference c) = SavedCustomDefinition"
    "pc_semantic_checksum c = semantic_checksum h (dv_calculation v) (dv_parameter_contract v)"
    using c r by simp_all
qed

lemma project_installed_ok:
  assumes "project_installed_published_candidate h p cert stars = Inr c"
  shows "candidate_ok h c" "cr_candidate_id (pc_reference c) = candidate_id_of h ''installed'' (pv_identity_id p) (pv_version p)"
    "cr_identity (pc_reference c) = (pv_identity_id p, pv_version p)" "cr_kind (pc_reference c) \<noteq> SavedCustomDefinition"
    "\<exists>q. pv_semantic p = Some q \<and> pc_semantic_checksum c = semantic_checksum h (sp_calculation q) (sp_parameter_contract q)"
proof -
  from assms obtain q where q: "pv_semantic p = Some q"
    by (auto simp: project_installed_published_candidate_def split: option.splits)
  from assms q obtain l where l: "mk_candidate_lineage (installed_lineage p q) = Inr l"
    by (auto simp: project_installed_published_candidate_def split: sum.splits)
  note lin = l[unfolded mk_candidate_lineage_Inr[OF l]]
  from assms q lin obtain r where r: "candidate_of h r (installed_lineage p q) (sp_calculation q) (sp_parameter_contract q) = Inr c"
    "cr_candidate_id r = candidate_id_of h ''installed'' (pv_identity_id p) (pv_version p)"
    "cr_identity r = (pv_identity_id p, pv_version p)" "cr_kind r \<noteq> SavedCustomDefinition"
    by (auto simp: project_installed_published_candidate_def cr_identity_def)
  note c = candidate_of_ok[OF r(1) lin]
  show "candidate_ok h c" "cr_candidate_id (pc_reference c) = candidate_id_of h ''installed'' (pv_identity_id p) (pv_version p)"
    "cr_identity (pc_reference c) = (pv_identity_id p, pv_version p)" "cr_kind (pc_reference c) \<noteq> SavedCustomDefinition"
    "\<exists>q. pv_semantic p = Some q \<and> pc_semantic_checksum c = semantic_checksum h (sp_calculation q) (sp_parameter_contract q)"
    using c r q by simp_all
qed

text \<open>A user id longer than 128 characters does not fit the candidate's owner label.\<close>

lemma long_user_id_breaks_comparison:
  assumes "128 < length u" "\<not> blank u" "lc_retention lc = SAVED" "lc_confirmation lc = CONFIRMED"
    and "is_ok (mk_candidate_lineage (own_lineage h v))" "length_in 1 128 (dv_definition_id v)" "1 \<le> dv_version v" "length_in 1 256 (dv_title v)"
  shows "project_own_saved_candidate h v lc u (Some u) src cert n = Inl (FieldError ''owner_label'')"
proof -
  have "u \<noteq> []" using assms(1) by auto
  moreover have "length_in 1 128 (candidate_id_of h ''own'' (dv_definition_id v) (dv_version v))"
    by (simp add: length_in_def candidate_id_of_def)
  ultimately show ?thesis
    using assms by (auto simp: project_own_saved_candidate_def candidate_of_def mk_personal_candidate_ref_def validated_eval
        label_or_def opt_bad_def length_in_def[of 0 128])
qed

section \<open>A sample conflict\<close>

definition shared_entry :: published_version where
  "shared_entry = (sample_publication 1)\<lparr>pv_semantic := Some (sample_package\<lparr>sp_source_definition_checksum := zero_hash []\<rparr>)\<rparr>"

definition sample_id :: "string \<Rightarrow> string" where
  "sample_id origin = ''candidate-'' @ origin @ ''-'' @ take 32 (zero_hash [])"

definition saved_candidate :: projected_personal_candidate where
  "saved_candidate =
     \<lparr>pc_reference = \<lparr>cr_candidate_id = sample_id ''own'', cr_kind = SavedCustomDefinition, cr_origin = Own,
        cr_definition_id = demo_id, cr_definition_version = 1, cr_display_name = ''Win rate'',
        cr_owner_label = Some ''alice'', cr_source_label = Some ''Own saved custom definition'',
        cr_certification_state = NotCertified, cr_star_count = 0\<rparr>,
      pc_lineage = own_lineage zero_hash demo_version, pc_semantic_checksum = zero_hash [],
      pc_calculation = demo_calculation, pc_parameter_contract = cs_parameters demo_calculation\<rparr>"

definition shared_candidate :: "candidate_certification_state \<Rightarrow> nat \<Rightarrow> projected_personal_candidate" where
  "shared_candidate certification stars =
     \<lparr>pc_reference = \<lparr>cr_candidate_id = sample_id ''installed'', cr_kind = InstalledPublishedMetric, cr_origin = Installed,
        cr_definition_id = ''m'', cr_definition_version = 1, cr_display_name = ''M'',
        cr_owner_label = Some ''alice'', cr_source_label = Some ''alice'',
        cr_certification_state = certification, cr_star_count = stars\<rparr>,
      pc_lineage = installed_lineage shared_entry (sample_package\<lparr>sp_source_definition_checksum := zero_hash []\<rparr>),
      pc_semantic_checksum = zero_hash [], pc_calculation = sample_spec, pc_parameter_contract = cs_parameters sample_spec\<rparr>"

lemma zero_checksum: "checksum_of zero_hash j = zero_hash []" "version_checksum zero_hash v = zero_hash []"
  "semantic_checksum zero_hash c p = zero_hash []" "candidate_id_of zero_hash o' i n = sample_id o'"
  by (simp_all add: checksum_of_def zero_hash_def version_checksum_def semantic_checksum_def candidate_id_of_def sample_id_def)

lemma sample_lengths: "length demo_id = 36" "length (sample_id o') \<le> 43 + length o'" "sample_id o' \<noteq> []" "demo_id \<noteq> []"
  by (simp_all add: demo_id_def demo_uuid_def new_definition_id_def sample_id_def)

lemmas sample_defs = candidate_of_def mk_personal_candidate_ref_def mk_projected_personal_candidate_def mk_candidate_lineage_def
  length_in_def opt_bad_def zero_checksum zero_hash_hex sample_lengths order_trans[OF sample_lengths(2)]

lemma saved_projected:
  "project_own_saved_candidate zero_hash demo_version \<lparr>lc_confirmation = CONFIRMED, lc_retention = SAVED\<rparr>
     demo_owner (Some demo_owner) ''Own saved custom definition'' NotCertified 0 = Inr saved_candidate"
  by (simp add: project_own_saved_candidate_def saved_candidate_def own_lineage_def demo_version_def demo_owner_def
      label_or_def blank_def strip_def is_space_def sample_defs validated_eval)

lemma shared_projected:
  "project_installed_published_candidate zero_hash shared_entry certification stars = Inr (shared_candidate certification stars)"
  by (simp add: project_installed_published_candidate_def shared_candidate_def installed_lineage_def shared_entry_def
      sample_publication_def sample_package_def sample_defs validated_eval)

lemmas sample_candidates_ok = project_own_ok(1)[OF saved_projected] project_installed_ok(1)[OF shared_projected]

lemma sample_resolvable: "resolvable zero_hash [saved_candidate, shared_candidate certification stars] ''metric''"
  using sample_candidates_ok
  by (simp add: resolvable_def saved_candidate_def shared_candidate_def sample_id_def length_in_def blank_def strip_def
      is_space_def cr_identity_def dsetdefault_def demo_id_def new_definition_id_def)


theorem descriptions_never_decide_witness:
  "shared_candidate Certified 99 \<noteq> shared_candidate NotCertified 0 \<and>
   map_sum id plain_projection (resolve_personal_candidate_conflict zero_hash [saved_candidate, shared_candidate Certified 99] ''metric'') =
   map_sum id plain_projection (resolve_personal_candidate_conflict zero_hash [saved_candidate, shared_candidate NotCertified 0] ''metric'')"
proof
  show "shared_candidate Certified 99 \<noteq> shared_candidate NotCertified 0" by (simp add: shared_candidate_def)
  have "map plain [saved_candidate, shared_candidate Certified 99] = map plain [saved_candidate, shared_candidate NotCertified 0]"
    by (simp add: plain_def plain_ref_def shared_candidate_def)
  then show "map_sum id plain_projection (resolve_personal_candidate_conflict zero_hash [saved_candidate, shared_candidate Certified 99] ''metric'') =
      map_sum id plain_projection (resolve_personal_candidate_conflict zero_hash [saved_candidate, shared_candidate NotCertified 0] ''metric'')"
    by (rule descriptions_never_decide[rotated]) (use sample_candidates_ok in auto)
qed

end
