(* ===== verification/Conflict_Product.thy ===== *)
theory Conflict_Product
  imports Conflict_Service
begin

text \<open>
  The server-owned conflict service (\<open>artifacts/personal_conflict_product_service.py\<close>) over the product of
  definitions, catalogue and library: it resolves a saved definition against an installed publication,
  keeps the open conflicts and the user's pending selections per user, thread, run and conflict, and
  consumes a selection once.
\<close>

section \<open>State and operations\<close>

type_synonym binding_key = "string \<times> string \<times> string \<times> string"

record conflict_service =
  cf_active_conflicts :: "(binding_key, personal_conflict_projection) dict"
  cf_pending_selections :: "(binding_key, personal_selection) dict"

definition empty_conflicts :: conflict_service where
  "empty_conflicts = \<lparr>cf_active_conflicts = [], cf_pending_selections = []\<rparr>"

definition certification_of_text :: "string \<Rightarrow> candidate_certification_state" where
  "certification_of_text raw =
     (if raw = ''uncertified'' then NotCertified else if raw = ''certified'' then Certified else CertificationUnknown)"

text \<open>\<open>except PersonalConflictServiceError as exc: raise PersonalConflictProductError(exc.code)\<close>\<close>

definition as_product_error :: "exn \<Rightarrow> exn" where
  "as_product_error e = (case e of PersonalConflictServiceError c \<Rightarrow> PersonalConflictProductError c | _ \<Rightarrow> e)"

definition own_saved_version ::
  "definition_store \<Rightarrow> string \<Rightarrow> string \<Rightarrow> nat option \<Rightarrow> (definition_version \<times> version_lifecycle) result" where
  "own_saved_version s user_id own_definition_id own_version =
     (case get_owned_definition s user_id own_definition_id of Inl e \<Rightarrow> Inl e | Inr _ \<Rightarrow>
      case list_saved_versions s user_id own_definition_id of Inl e \<Rightarrow> Inl e | Inr saved \<Rightarrow>
      if saved = [] then Inl (PersonalConflictProductError ''personal_candidate_not_saved_confirmed'')
      else let v = (case own_version of None \<Rightarrow> dv_version (last saved) | Some v \<Rightarrow> v) in
        if v \<notin> dv_version ` set saved then Inl (PersonalConflictProductError ''personal_candidate_version_unavailable'')
        else case get_exact_version s user_id own_definition_id v of Inl e \<Rightarrow> Inl e | Inr exact \<Rightarrow>
          map_sum id (Pair exact) (get_version_lifecycle s user_id own_definition_id (dv_version exact)))"

definition installed_publication :: "product \<Rightarrow> string \<Rightarrow> string \<Rightarrow> (nat \<times> published_version) result" where
  "installed_publication x user_id identity_id =
     (case get_install (pr_library x) user_id identity_id of
        None \<Rightarrow> Inl (PersonalConflictProductError ''personal_conflict_install_required'')
      | Some b \<Rightarrow>
          (case cat_get (pr_catalogue x) identity_id (ib_version b) of
             None \<Rightarrow> Inl (PersonalConflictProductError ''personal_conflict_publication_not_found'')
           | Some p \<Rightarrow> Inr (ib_version b, p)))"

definition server_projection ::
  "(string \<Rightarrow> string) \<Rightarrow> product \<Rightarrow> string \<Rightarrow> string \<Rightarrow> string \<Rightarrow> nat option \<Rightarrow> personal_conflict_projection result" where
  "server_projection sha256 x user_id own_definition_id installed_identity_id own_version =
     (case own_saved_version (pr_definitions x) user_id own_definition_id own_version of Inl e \<Rightarrow> Inl e | Inr (exact, lifecycle) \<Rightarrow>
      case installed_publication x user_id installed_identity_id of Inl e \<Rightarrow> Inl e | Inr (installed_version, published) \<Rightarrow>
      map_sum as_product_error id
        (case project_own_saved_candidate sha256 exact lifecycle user_id (Some user_id) ''Own saved custom definition'' NotCertified 0 of
           Inl e \<Rightarrow> Inl e
         | Inr own \<Rightarrow>
             (case project_installed_published_candidate sha256 published
                     (certification_of_text (certification_state (pr_catalogue x) installed_identity_id installed_version))
                     (star_count (pr_library x) installed_identity_id) of
                Inl e \<Rightarrow> Inl e
              | Inr installed \<Rightarrow> resolve_personal_candidate_conflict sha256 [own, installed] ''metric'')))"

definition consume_selection ::
  "string \<Rightarrow> string \<Rightarrow> string \<Rightarrow> string \<Rightarrow> conflict_service \<Rightarrow> personal_selection result \<times> conflict_service" where
  "consume_selection user_id thread_id run_id conflict_id cf =
     (let key = (user_id, thread_id, run_id, conflict_id) in
      case dget (cf_pending_selections cf) key of
        None \<Rightarrow> (Inl (PersonalConflictProductError ''personal_selection_not_pending''), cf)
      | Some selection \<Rightarrow> (Inr selection,
          cf\<lparr>cf_pending_selections := dpop key (cf_pending_selections cf),
             cf_active_conflicts := dpop key (cf_active_conflicts cf)\<rparr>))"

definition selected_projection :: "personal_conflict_projection \<Rightarrow> personal_candidate_ref \<Rightarrow> personal_selection \<Rightarrow> personal_conflict_projection" where
  "selected_projection p r selection = p\<lparr>pp_resolution := \<lparr>sr_outcome = Resolved, sr_unresolved_slots = []\<rparr>,
     pp_semantic_conflict := None, pp_conflict_comparison := None,
     pp_selected_candidate_id := Some (ps_selected_candidate_id selection),
     pp_selected_definition_id := Some (cr_definition_id r), pp_selected_version := Some (cr_definition_version r)\<rparr>"

definition resolve_conflict ::
  "(string \<Rightarrow> string) \<Rightarrow> product \<Rightarrow> string \<Rightarrow> string \<Rightarrow> string \<Rightarrow> string option \<Rightarrow> string option \<Rightarrow> nat option \<Rightarrow>
   conflict_service \<Rightarrow> personal_conflict_projection result \<times> conflict_service" where
  "resolve_conflict sha256 x user_id own_definition_id installed_identity_id thread_id run_id own_version cf =
     (case server_projection sha256 x user_id own_definition_id installed_identity_id own_version of
        Inl e \<Rightarrow> (Inl e, cf)
      | Inr projection \<Rightarrow>
          (case (pp_semantic_conflict projection, thread_id, run_id) of
             (Some conflict, Some thread, Some run) \<Rightarrow>
               if thread = [] \<or> run = [] then (Inr projection, cf)
               else
                 let key = (user_id, thread, run, sc_conflict_id conflict);
                     cf1 = cf\<lparr>cf_active_conflicts := dset key projection (cf_active_conflicts cf)\<rparr>
                 in (case dget (cf_pending_selections cf1) key of
                       None \<Rightarrow> (Inr projection, cf1)
                     | Some _ \<Rightarrow>
                         (case consume_selection user_id thread run (sc_conflict_id conflict) cf1 of
                            (Inl e, cf2) \<Rightarrow> (Inl e, cf2)
                          | (Inr consumed, cf2) \<Rightarrow>
                              (case find (\<lambda>r. cr_candidate_id r = ps_selected_candidate_id consumed) (sc_candidates conflict) of
                                 None \<Rightarrow> (Inl (RuntimeError ''coroutine raised StopIteration''), cf2)
                               | Some r \<Rightarrow> (Inr (selected_projection projection r consumed), cf2))))
           | _ \<Rightarrow> (Inr projection, cf)))"

definition validate_selection ::
  "(string \<Rightarrow> string) \<Rightarrow> product \<Rightarrow> string \<Rightarrow> string \<Rightarrow> string \<Rightarrow> personal_selection \<Rightarrow> string option \<Rightarrow> string option \<Rightarrow> nat option \<Rightarrow>
   conflict_service \<Rightarrow> (personal_conflict_projection \<times> personal_selection) result \<times> conflict_service" where
  "validate_selection sha256 x user_id own_definition_id installed_identity_id selection thread_id run_id own_version cf =
     (if ps_selection_scope selection \<noteq> RunScoped
      then (Inl (PersonalConflictProductError ''personal_selection_must_be_run_scoped''), cf)
      else
        let bound = (case (thread_id, run_id) of
                       (Some thread, Some run) \<Rightarrow> Some (user_id, thread, run, ps_conflict_id selection) | _ \<Rightarrow> None);
            projection = (case bound of
              Some key \<Rightarrow> (case dget (cf_active_conflicts cf) key of
                            None \<Rightarrow> Inl (PersonalConflictProductError ''personal_selection_run_binding_invalid'')
                          | Some p \<Rightarrow> Inr p)
            | None \<Rightarrow> fst (resolve_conflict sha256 x user_id own_definition_id installed_identity_id None None own_version cf))
        in (case projection of
              Inl e \<Rightarrow> (Inl e, cf)
            | Inr p \<Rightarrow>
                (case validate_personal_selection selection p of
                   Inl e \<Rightarrow> (Inl (as_product_error e), cf)
                 | Inr valid \<Rightarrow> (Inr (p, valid),
                     case bound of
                       None \<Rightarrow> cf
                     | Some key \<Rightarrow> cf\<lparr>cf_pending_selections := dset key valid (cf_pending_selections cf)\<rparr>))))"

section \<open>Runs\<close>

text \<open>Users act on the product and on their conflicts in any order.\<close>

inductive conflict_step ::
  "(string \<Rightarrow> string) \<Rightarrow> (string \<Rightarrow> bool) \<Rightarrow> certification_authority \<Rightarrow>
   product \<times> conflict_service \<Rightarrow> product \<times> conflict_service \<Rightarrow> bool"
  for h g a where
  product: "any_product_step h g a x y \<Longrightarrow> conflict_step h g a (x, cf) (y, cf)"
| resolving: "conflict_step h g a (x, cf) (x, snd (resolve_conflict h x u i j t r v cf))"
| selecting: "mk_personal_selection s = Inr s \<Longrightarrow> conflict_step h g a (x, cf) (x, snd (validate_selection h x u i j s t r v cf))"
| consuming: "conflict_step h g a (x, cf) (x, snd (consume_selection u t r k cf))"

inductive_cases conflict_stepE: "conflict_step h g a (x, cf) (y, cf')"

section \<open>What the server projects\<close>

lemma candidate_prefixes: "candidate_id_of h ''own'' i v \<noteq> candidate_id_of h ''installed'' j w"
  by (simp add: candidate_id_of_def)

lemma two_candidates:
  assumes "candidate_ok h own" "candidate_ok h inst"
    "cr_candidate_id (pc_reference own) \<noteq> cr_candidate_id (pc_reference inst)"
  obtains m where "resolve_personal_candidate_conflict h [own, inst] ''metric'' =
      (if cr_identity (pc_reference own) \<noteq> cr_identity (pc_reference inst)
       then Inr (unselected \<lparr>sr_outcome = ClarificationRequired, sr_unresolved_slots = [''metric'']\<rparr>
         (Some (the_conflict h [own, inst] ''metric'')) (Some m))
       else if pc_semantic_checksum own \<noteq> pc_semantic_checksum inst
       then Inl (PersonalConflictServiceError ''personal_candidate_identity_semantic_mismatch'')
       else Inr (unselected \<lparr>sr_outcome = Resolved, sr_unresolved_slots = []\<rparr> None None))"
proof -
  have slot: "length_in 1 64 ''metric''" "\<not> blank ''metric''"
    by (simp_all add: length_in_def blank_def strip_def is_space_def)
  have clash: "semantic_mismatch [] [own, inst] \<longleftrightarrow>
      cr_identity (pc_reference own) = cr_identity (pc_reference inst) \<and> pc_semantic_checksum own \<noteq> pc_semantic_checksum inst"
    by (auto simp: Let_def dsetdefault_def)
  then have ok: "resolvable h [own, inst] ''metric''" if "\<not> semantic_mismatch [] [own, inst]"
    using that assms slot by (simp add: resolvable_def del: semantic_mismatch.simps)
  consider (distinct) "cr_identity (pc_reference own) \<noteq> cr_identity (pc_reference inst)"
    | (mismatch) "cr_identity (pc_reference own) = cr_identity (pc_reference inst)" "pc_semantic_checksum own \<noteq> pc_semantic_checksum inst"
    | (same) "cr_identity (pc_reference own) = cr_identity (pc_reference inst)" "pc_semantic_checksum own = pc_semantic_checksum inst"
    by blast
  then show ?thesis
  proof cases
    case distinct
    then have "\<not> semantic_mismatch [] [own, inst]" using clash by simp
    from resolve_distinct[OF ok[OF this]] distinct obtain m where
      "resolve_personal_candidate_conflict h [own, inst] ''metric'' = Inr (unselected
         \<lparr>sr_outcome = ClarificationRequired, sr_unresolved_slots = [''metric'']\<rparr> (Some (the_conflict h [own, inst] ''metric'')) (Some m))"
      by auto
    then show ?thesis using that distinct by simp
  next
    case mismatch
    then have "semantic_mismatch [] [own, inst]" using clash by simp
    then show ?thesis using that mismatch by (simp add: resolve_personal_candidate_conflict_def del: semantic_mismatch.simps)
  next
    case same
    then have "\<not> semantic_mismatch [] [own, inst]" using clash by simp
    from resolve_one_identity[OF ok[OF this]] same show ?thesis using that by (simp add: several_def)
  qed
qed

text \<open>A conflict between a saved definition and an installed publication, as the server builds it.\<close>

definition server_conflict :: "(string \<Rightarrow> string) \<Rightarrow> semantic_conflict \<Rightarrow> bool" where
  "server_conflict h k \<longleftrightarrow> sc_conflict_id k = conflict_id_of h (sc_candidates k) \<and>
     map cr_candidate_id (sc_candidates k) =
       map2 (\<lambda>origin r. candidate_id_of h origin (cr_definition_id r) (cr_definition_version r)) [''own'', ''installed''] (sc_candidates k) \<and>
     length (sc_candidates k) = 2"

lemma server_projection_cases:
  assumes "server_projection h x u i j v = Inr p"
  obtains exact lc w pub own inst where
    "own_saved_version (pr_definitions x) u i v = Inr (exact, lc)" "installed_publication x u j = Inr (w, pub)"
    "project_own_saved_candidate h exact lc u (Some u) ''Own saved custom definition'' NotCertified 0 = Inr own"
    "project_installed_published_candidate h pub (certification_of_text (certification_state (pr_catalogue x) j w))
       (star_count (pr_library x) j) = Inr inst"
    "resolve_personal_candidate_conflict h [own, inst] ''metric'' = Inr p"
  using assms unfolding server_projection_def
  by (auto split: sum.splits prod.splits simp: map_sum_def)

lemma server_projection_shape:
  assumes "server_projection h x u i j v = Inr p"
  shows "pp_selected_candidate_id p = None"
    and "case pp_semantic_conflict p of None \<Rightarrow> sr_outcome (pp_resolution p) = Resolved
      | Some k \<Rightarrow> sr_outcome (pp_resolution p) = ClarificationRequired \<and> server_conflict h k"
proof -
  obtain exact lc w pub own inst where
    own: "project_own_saved_candidate h exact lc u (Some u) ''Own saved custom definition'' NotCertified 0 = Inr own" and
    inst: "project_installed_published_candidate h pub (certification_of_text (certification_state (pr_catalogue x) j w))
       (star_count (pr_library x) j) = Inr inst" and
    p: "resolve_personal_candidate_conflict h [own, inst] ''metric'' = Inr p"
    by (rule server_projection_cases[OF assms])
  note o' = project_own_ok[OF own] and n' = project_installed_ok[OF inst]
  have "cr_candidate_id (pc_reference own) \<noteq> cr_candidate_id (pc_reference inst)"
    using o'(2) n'(2) candidate_prefixes by simp
  from two_candidates[OF o'(1) n'(1) this] p obtain m where two: "Inr p = (if cr_identity (pc_reference own) \<noteq> cr_identity (pc_reference inst)
       then Inr (unselected \<lparr>sr_outcome = ClarificationRequired, sr_unresolved_slots = [''metric'']\<rparr>
         (Some (the_conflict h [own, inst] ''metric'')) (Some m))
       else if pc_semantic_checksum own \<noteq> pc_semantic_checksum inst
       then Inl (PersonalConflictServiceError ''personal_candidate_identity_semantic_mismatch'')
       else Inr (unselected \<lparr>sr_outcome = Resolved, sr_unresolved_slots = []\<rparr> None None))"
    by metis
  have "server_conflict h (the_conflict h [own, inst] ''metric'')"
    using o'(2,3) n'(2,3) by (simp add: server_conflict_def the_conflict_def cr_identity_def)
  with two show "pp_selected_candidate_id p = None"
    and "case pp_semantic_conflict p of None \<Rightarrow> sr_outcome (pp_resolution p) = Resolved
      | Some k \<Rightarrow> sr_outcome (pp_resolution p) = ClarificationRequired \<and> server_conflict h k"
    by (auto simp: unselected_def split: if_splits)
qed

section \<open>Open conflicts and pending selections\<close>

definition active_ok :: "(string \<Rightarrow> string) \<Rightarrow> binding_key \<Rightarrow> personal_conflict_projection \<Rightarrow> bool" where
  "active_ok h key p \<longleftrightarrow> (\<exists>k. pp_semantic_conflict p = Some k \<and> server_conflict h k \<and> sc_conflict_id k = snd (snd (snd key)))"

definition chosen_from :: "personal_selection \<Rightarrow> personal_conflict_projection \<Rightarrow> bool" where
  "chosen_from s p \<longleftrightarrow> ps_selection_scope s = RunScoped \<and>
     (\<exists>k. pp_semantic_conflict p = Some k \<and> ps_selected_candidate_id s \<in> cr_candidate_id ` set (sc_candidates k))"

text \<open>Open conflicts are the server's own, under their conflict id; a pending selection is run-scoped and names a
  candidate of the open conflict under the same user, thread, run and conflict.\<close>

definition conflict_inv :: "(string \<Rightarrow> string) \<Rightarrow> conflict_service \<Rightarrow> bool" where
  "conflict_inv h cf \<longleftrightarrow>
     (\<forall>key p. dget (cf_active_conflicts cf) key = Some p \<longrightarrow> active_ok h key p) \<and>
     (\<forall>key s. dget (cf_pending_selections cf) key = Some s \<longrightarrow>
        (\<exists>p. dget (cf_active_conflicts cf) key = Some p \<and> chosen_from s p))"

lemma conflict_invD:
  assumes "conflict_inv h cf"
  shows "dget (cf_active_conflicts cf) key = Some p \<Longrightarrow> active_ok h key p"
    "dget (cf_pending_selections cf) key = Some s \<Longrightarrow> \<exists>p. dget (cf_active_conflicts cf) key = Some p \<and> chosen_from s p"
  using assms unfolding conflict_inv_def by blast+

lemma conflict_invI:
  assumes "\<And>key p. dget (cf_active_conflicts cf) key = Some p \<Longrightarrow> active_ok h key p"
    "\<And>key s. dget (cf_pending_selections cf) key = Some s \<Longrightarrow> \<exists>p. dget (cf_active_conflicts cf) key = Some p \<and> chosen_from s p"
  shows "conflict_inv h cf"
  using assms unfolding conflict_inv_def by blast

lemma empty_conflicts_inv: "conflict_inv h empty_conflicts"
  by (simp add: conflict_inv_def empty_conflicts_def)

lemma conflict_inv_cleared:
  "conflict_inv h cf \<Longrightarrow> conflict_inv h (cf\<lparr>cf_pending_selections := dpop key (cf_pending_selections cf),
     cf_active_conflicts := dpop key (cf_active_conflicts cf)\<rparr>)"
  by (rule conflict_invI) (auto dest: conflict_invD split: if_splits)

lemma conflict_inv_opened:
  "conflict_inv h cf \<Longrightarrow> active_ok h key p \<Longrightarrow> dget (cf_pending_selections cf) key = None \<Longrightarrow>
   conflict_inv h (cf\<lparr>cf_active_conflicts := dset key p (cf_active_conflicts cf)\<rparr>)"
  by (rule conflict_invI) (auto dest: conflict_invD split: if_splits)

lemma conflict_inv_selected:
  "conflict_inv h cf \<Longrightarrow> dget (cf_active_conflicts cf) key = Some p \<Longrightarrow> chosen_from s p \<Longrightarrow>
   conflict_inv h (cf\<lparr>cf_pending_selections := dset key s (cf_pending_selections cf)\<rparr>)"
  by (rule conflict_invI) (auto dest: conflict_invD split: if_splits)

lemma dpop_dset: "dpop k (dset k v d) = dpop k d"
  by (induction d) auto

text \<open>The three ways a resolution ends.\<close>

lemma resolve_conflict_cases:
  obtains (plain) "resolve_conflict h x u i j t r v cf = (server_projection h x u i j v, cf)"
      "\<And>p k t' r'. server_projection h x u i j v = Inr p \<Longrightarrow> pp_semantic_conflict p = Some k \<Longrightarrow>
         t = Some t' \<Longrightarrow> r = Some r' \<Longrightarrow> t' = [] \<or> r' = []"
    | (opened) p k t' r' where "server_projection h x u i j v = Inr p" "pp_semantic_conflict p = Some k"
      "t = Some t'" "r = Some r'" "t' \<noteq> []" "r' \<noteq> []"
      "dget (cf_pending_selections cf) (u, t', r', sc_conflict_id k) = None"
      "resolve_conflict h x u i j t r v cf =
        (Inr p, cf\<lparr>cf_active_conflicts := dset (u, t', r', sc_conflict_id k) p (cf_active_conflicts cf)\<rparr>)"
    | (consumed) p k t' r' s where "server_projection h x u i j v = Inr p" "pp_semantic_conflict p = Some k"
      "t = Some t'" "r = Some r'" "t' \<noteq> []" "r' \<noteq> []"
      "dget (cf_pending_selections cf) (u, t', r', sc_conflict_id k) = Some s"
      "resolve_conflict h x u i j t r v cf =
        ((case find (\<lambda>c. cr_candidate_id c = ps_selected_candidate_id s) (sc_candidates k) of
            None \<Rightarrow> Inl (RuntimeError ''coroutine raised StopIteration'')
          | Some c \<Rightarrow> Inr (selected_projection p c s)),
         cf\<lparr>cf_pending_selections := dpop (u, t', r', sc_conflict_id k) (cf_pending_selections cf),
            cf_active_conflicts := dpop (u, t', r', sc_conflict_id k) (cf_active_conflicts cf)\<rparr>)"
proof -
  consider "\<exists>e. server_projection h x u i j v = Inl e"
    | p where "server_projection h x u i j v = Inr p" "pp_semantic_conflict p = None \<or> t = None \<or> r = None"
    | p k t' r' where "server_projection h x u i j v = Inr p" "pp_semantic_conflict p = Some k" "t = Some t'" "r = Some r'"
    by (cases "server_projection h x u i j v"; cases t; cases r;
        cases "pp_semantic_conflict (projr (server_projection h x u i j v))") auto
  then show ?thesis
  proof cases
    case 1
    then show ?thesis using plain by (auto simp: resolve_conflict_def)
  next
    case (2 p)
    then show ?thesis by (intro plain) (auto simp: resolve_conflict_def split: option.splits)
  next
    case (3 p k t' r')
    show ?thesis
    proof (cases "t' = [] \<or> r' = []")
      case True
      then show ?thesis using 3 by (intro plain) (auto simp: resolve_conflict_def)
    next
      case False
      show ?thesis
      proof (cases "dget (cf_pending_selections cf) (u, t', r', sc_conflict_id k)")
        case None
        with 3 False show ?thesis by (intro opened[of p k t' r']) (simp_all add: resolve_conflict_def Let_def)
      next
        case (Some s)
        with 3 False show ?thesis
          by (intro consumed[of p k t' r' s]) (simp_all add: resolve_conflict_def consume_selection_def Let_def dpop_dset split: option.split)
      qed
    qed
  qed
qed

lemma conflict_inv_resolve:
  assumes "conflict_inv h cf" shows "conflict_inv h (snd (resolve_conflict h x u i j t r v cf))"
proof (cases rule: resolve_conflict_cases[of h x u i j t r v cf])
  case plain
  with assms show ?thesis by simp
next
  case (opened p k t' r')
  then have "active_ok h (u, t', r', sc_conflict_id k) p" using server_projection_shape(2)[OF opened(1)] by (simp add: active_ok_def)
  with assms opened show ?thesis by (simp add: conflict_inv_opened)
next
  case (consumed p k t' r' s)
  with assms show ?thesis by (simp add: conflict_inv_cleared)
qed

lemma validate_personal_selection_Inr:
  "validate_personal_selection s p = Inr v \<Longrightarrow> v = s \<and> (ps_selection_scope s = RunScoped \<longrightarrow> chosen_from s p)"
  by (auto simp: validate_personal_selection_def chosen_from_def split: option.splits)

lemma conflict_inv_validate:
  assumes "conflict_inv h cf" shows "conflict_inv h (snd (validate_selection h x u i j s t r v cf))"
proof -
  have "snd (validate_selection h x u i j s t r v cf) = cf \<or>
    (\<exists>key p. dget (cf_active_conflicts cf) key = Some p \<and> chosen_from s p \<and>
       snd (validate_selection h x u i j s t r v cf) = cf\<lparr>cf_pending_selections := dset key s (cf_pending_selections cf)\<rparr>)"
    using validate_personal_selection_Inr
    by (fastforce simp: validate_selection_def Let_def split: option.splits sum.splits)
  with assms conflict_inv_selected show ?thesis by metis
qed

lemma conflict_inv_consume:
  assumes "conflict_inv h cf" shows "conflict_inv h (snd (consume_selection u t r k cf))"
  using assms by (auto simp: consume_selection_def Let_def conflict_inv_cleared split: option.splits)

definition conflict_init :: "product \<times> conflict_service \<Rightarrow> bool" where
  "conflict_init = (\<lambda>(x, cf). product_init x \<and> cf = empty_conflicts)"

interpretation conflict_sys: invariant_system conflict_init "conflict_step h g a" "\<lambda>(x, cf). product_inv h x \<and> conflict_inv h cf"
proof
  fix s t
  show "conflict_init s \<Longrightarrow> (case s of (x, cf) \<Rightarrow> product_inv h x \<and> conflict_inv h cf)"
    by (auto simp: conflict_init_def product_init_inv empty_conflicts_inv)
  assume inv: "case s of (x, cf) \<Rightarrow> product_inv h x \<and> conflict_inv h cf" and "conflict_step h g a s t"
  from this(2) inv show "case t of (x, cf) \<Rightarrow> product_inv h x \<and> conflict_inv h cf"
    by (induction rule: conflict_step.induct)
      (auto simp: conflict_inv_resolve conflict_inv_validate conflict_inv_consume intro: product_sys.step_inv)
qed

section \<open>The same conflict id, the same candidates\<close>

definition conflict_text :: "(string \<Rightarrow> string) \<Rightarrow> personal_candidate_ref list \<Rightarrow> string" where
  "conflict_text h rs = json_text (JList (map (\<lambda>c. JStr (identity_checksum h c)) rs))"

text \<open>The hash tells apart the texts behind two conflict ids and behind their candidates' identities.\<close>

definition separates :: "(string \<Rightarrow> string) \<Rightarrow> semantic_conflict \<Rightarrow> semantic_conflict \<Rightarrow> bool" where
  "separates h k k' \<longleftrightarrow> no_collision h 32 {conflict_text h (sc_candidates k), conflict_text h (sc_candidates k')} \<and>
     list_all2 (\<lambda>r r'. no_collision h 64 {json_text (identity_checksum_json r), json_text (identity_checksum_json r')})
       (sc_candidates k) (sc_candidates k')"

lemma identity_json_fields:
  assumes "json_text (identity_checksum_json r) = json_text (identity_checksum_json r')"
  shows "cr_definition_id r = cr_definition_id r'" "cr_definition_version r = cr_definition_version r'"
proof -
  have "json_ok (identity_checksum_json r)" for r by (simp add: identity_checksum_json_def)
  with assms have "identity_checksum_json r = identity_checksum_json r'" by (intro json_text_inject)
  then have "member (identity_checksum_json r) k = member (identity_checksum_json r') k" for k by simp
  from this[of "''definition_id''"] this[of "''definition_version''"]
  show "cr_definition_id r = cr_definition_id r'" "cr_definition_version r = cr_definition_version r'"
    by (simp_all add: identity_checksum_json_def member_jobj)
qed

lemma same_conflict_same_candidates:
  assumes k: "server_conflict h k" and k': "server_conflict h k'" and sep: "separates h k k'"
    and eq: "sc_conflict_id k = sc_conflict_id k'"
  shows "map cr_candidate_id (sc_candidates k) = map cr_candidate_id (sc_candidates k')"
proof -
  let ?T = "\<lambda>r. json_text (identity_checksum_json r)"
  from k k' eq have "take 32 (h (conflict_text h (sc_candidates k))) = take 32 (h (conflict_text h (sc_candidates k')))"
    by (simp add: server_conflict_def conflict_id_of_def conflict_text_def checksum_of_def)
  with sep have "conflict_text h (sc_candidates k) = conflict_text h (sc_candidates k')"
    by (auto simp: separates_def no_collision_def)
  then have "JList (map (\<lambda>c. JStr (identity_checksum h c)) (sc_candidates k)) = JList (map (\<lambda>c. JStr (identity_checksum h c)) (sc_candidates k'))"
    unfolding conflict_text_def by (intro json_text_inject) (auto simp: list_all_iff)
  then have "map JStr (map (identity_checksum h) (sc_candidates k)) = map JStr (map (identity_checksum h) (sc_candidates k'))"
    by (simp add: comp_def)
  then have sums: "map (identity_checksum h) (sc_candidates k) = map (identity_checksum h) (sc_candidates k')"
    by (rule map_injective) (simp add: inj_def)
  obtain a b where ab: "sc_candidates k = [a, b]" using k by (auto simp: server_conflict_def length_Suc_conv numeral_2_eq_2)
  obtain a' b' where ab': "sc_candidates k' = [a', b']" using k' by (auto simp: server_conflict_def length_Suc_conv numeral_2_eq_2)
  have texts: "?T r = ?T r'" if "no_collision h 64 {?T r, ?T r'}" "identity_checksum h r = identity_checksum h r'" for r r'
  proof (rule inj_onD[OF that(1)[unfolded no_collision_def]])
    show "take 64 (h (?T r)) = take 64 (h (?T r'))" using that(2) by (simp add: identity_checksum_def checksum_of_def)
  qed simp_all
  from sums sep ab ab' have "?T a = ?T a'" "?T b = ?T b'" by (auto simp: separates_def intro!: texts)
  note fields = this[THEN identity_json_fields(1)] this[THEN identity_json_fields(2)]
  from k k' show ?thesis by (simp add: server_conflict_def ab ab' fields)
qed

text \<open>C34. A selection takes effect once, in its own run.  In every state users can reach, resolving in a run never
  breaks on a pending selection.  It reports a chosen candidate only if this user validated that choice for this
  thread, run and conflict, the choice is one of the two candidates of the conflict just computed, and it reports
  that candidate's definition and version; the selection and its conflict are then gone.  Otherwise nothing is chosen:
  the projection is the server's own and pending selections are untouched.\<close>

theorem selection_takes_effect_once:
  assumes reach: "conflict_init s0" "(conflict_step h g a)\<^sup>*\<^sup>* s0 (x, cf)"
    and run: "resolve_conflict h x u i j t r v cf = (res, cf')"
    and sep: "\<And>p k q l t' r'. server_projection h x u i j v = Inr p \<Longrightarrow> pp_semantic_conflict p = Some k \<Longrightarrow>
      dget (cf_active_conflicts cf) (u, t', r', sc_conflict_id k) = Some q \<Longrightarrow> pp_semantic_conflict q = Some l \<Longrightarrow> separates h l k"
  shows "(res = server_projection h x u i j v \<and> cf_pending_selections cf' = cf_pending_selections cf \<and>
       (\<forall>p. res = Inr p \<longrightarrow> pp_selected_candidate_id p = None)) \<or>
     (\<exists>p k t' r' sel c. server_projection h x u i j v = Inr p \<and> pp_semantic_conflict p = Some k \<and>
        t = Some t' \<and> r = Some r' \<and>
        dget (cf_pending_selections cf) (u, t', r', sc_conflict_id k) = Some sel \<and>
        c \<in> set (sc_candidates k) \<and> cr_candidate_id c = ps_selected_candidate_id sel \<and>
        res = Inr (selected_projection p c sel) \<and>
        dget (cf_pending_selections cf') (u, t', r', sc_conflict_id k) = None \<and>
        dget (cf_active_conflicts cf') (u, t', r', sc_conflict_id k) = None)"
proof -
  from conflict_sys.reachable_inv[OF reach] have inv: "conflict_inv h cf" by simp
  show ?thesis
  proof (cases rule: resolve_conflict_cases[of h x u i j t r v cf])
    case plain
    then show ?thesis using run server_projection_shape(1) by auto
  next
    case (opened p k t' r')
    then show ?thesis using run server_projection_shape(1)[OF opened(1)] by auto
  next
    case (consumed p k t' r' sel)
    let ?key = "(u, t', r', sc_conflict_id k)"
    obtain q l where q: "dget (cf_active_conflicts cf) ?key = Some q" "pp_semantic_conflict q = Some l"
      "ps_selected_candidate_id sel \<in> cr_candidate_id ` set (sc_candidates l)" "server_conflict h l" "sc_conflict_id l = sc_conflict_id k"
      using conflict_invD(2)[OF inv consumed(7)] conflict_invD(1)[OF inv] by (fastforce simp: chosen_from_def active_ok_def)
    have "server_conflict h k" using server_projection_shape(2)[OF consumed(1)] consumed(2) by simp
    from same_conflict_same_candidates[OF q(4) this sep[OF consumed(1,2) q(1,2)] q(5)]
    have "cr_candidate_id ` set (sc_candidates l) = cr_candidate_id ` set (sc_candidates k)" by (metis list.set_map)
    with q(3) have "find (\<lambda>c. cr_candidate_id c = ps_selected_candidate_id sel) (sc_candidates k) \<noteq> None"
      by (auto simp: find_None_iff)
    then obtain c where c: "find (\<lambda>c. cr_candidate_id c = ps_selected_candidate_id sel) (sc_candidates k) = Some c" by blast
    then have "c \<in> set (sc_candidates k)" "cr_candidate_id c = ps_selected_candidate_id sel"
      by (auto simp: find_Some_iff)
    with consumed c run show ?thesis by auto
  qed
qed

section \<open>A user's own publication is no conflict\<close>

lemma own_saved_version_ok:
  assumes inv: "store_inv s" and "own_saved_version s u i v = Inr (exact, lc)"
  shows "dv_definition_id exact = i" "is_definition_id i"
    "dget (st_versions s) (i, n) = Some z \<Longrightarrow> dv_version exact = n \<Longrightarrow> exact = z"
proof -
  from assms(2) obtain d n where d: "owned s u i = Inr d" and exact: "get_exact_version s u i n = Inr exact"
    by (auto simp: own_saved_version_def get_owned_definition_def Let_def map_sum_Inr_iff split: sum.splits if_splits)
  from store_inv_definition[OF inv ownedE(1)[OF d]] obtain r where r: "dget (st_drafts s) i = Some r" "definition_ok i (view_of s i) d r" .
  from inv have view: "view_ok i (view_of s i)" by (simp add: store_inv_def)
  show "is_definition_id i" using r(2) by (simp add: definition_ok_def)
  have id: "dv_definition_id exact = i \<and> dv_version exact = n"
  proof -
    consider (stored) "dget (st_versions s) (i, n) = Some exact" | (draft) "exact = r" "dv_version r = n"
      | (current) "exact = cd_current_version d" "dv_version exact = n"
      using exact d r(1) by (auto simp: get_exact_version_def split: option.splits if_splits)
    then show ?thesis
    proof cases
      case stored
      then have "iv_versions (view_of s i) n = Some exact" by (simp add: view_of_def)
      with view show ?thesis unfolding view_ok_def by blast
    next
      case draft
      with r(2) show ?thesis by (simp add: definition_ok_def)
    next
      case current
      with r(2) show ?thesis using same_content_fields(1)[of r exact] by (simp add: definition_ok_def)
    qed
  qed
  then show "dv_definition_id exact = i" by simp
  show "exact = z" if "dget (st_versions s) (i, n') = Some z" "dv_version exact = n'" for n' z
    using that id exact d by (auto simp: get_exact_version_def)
qed

text \<open>Errors that are not the mismatch of two packages.\<close>

definition other_error :: "exn \<Rightarrow> bool" where
  "other_error e \<longleftrightarrow> as_product_error e \<noteq> PersonalConflictProductError ''personal_candidate_identity_semantic_mismatch''"

lemma other_error_simps [simp]: "other_error (FieldError f)" "other_error (ValueError m)"
  by (simp_all add: other_error_def as_product_error_def)

lemma validated_other_error:
  "validated checks v = Inl e \<Longrightarrow> list_all (other_error \<circ> snd) checks \<Longrightarrow> other_error e"
  by (induction checks) (auto simp: validated_eval split: if_splits)

lemma contract_other_errors:
  "mk_candidate_lineage l = Inl e \<Longrightarrow> other_error e" "mk_personal_candidate_ref r = Inl e \<Longrightarrow> other_error e"
  "mk_projected_personal_candidate h c = Inl e \<Longrightarrow> other_error e"
  unfolding mk_candidate_lineage_def mk_personal_candidate_ref_def mk_projected_personal_candidate_def Let_def
  by (erule validated_other_error, simp)+

lemma candidate_of_other_error: "candidate_of h r l c p = Inl e \<Longrightarrow> other_error e"
  using contract_other_errors by (auto simp: candidate_of_def split: sum.splits)

lemma projection_other_errors:
  "project_own_saved_candidate h v lc u lbl src cert n = Inl e \<Longrightarrow> other_error e"
  "project_installed_published_candidate h p cert n = Inl e \<Longrightarrow> other_error e"
  using contract_other_errors(1) candidate_of_other_error
  by (auto simp: project_own_saved_candidate_def project_installed_published_candidate_def other_error_def as_product_error_def
      split: if_splits sum.splits option.splits)

lemma not_found_errors:
  "owned s u i = Inl e \<Longrightarrow> e = DefinitionNotFound" "get_exact_version s u i n = Inl e \<Longrightarrow> e = DefinitionNotFound"
  "list_saved_versions s u i = Inl e \<Longrightarrow> e = DefinitionNotFound"
proof -
  show owned: "owned s u i = Inl e \<Longrightarrow> e = DefinitionNotFound" for e by (auto simp: owned_def split: option.splits if_splits)
  show "get_exact_version s u i n = Inl e \<Longrightarrow> e = DefinitionNotFound"
    using owned by (auto simp: get_exact_version_def split: sum.splits option.splits if_splits)
  show "list_saved_versions s u i = Inl e \<Longrightarrow> e = DefinitionNotFound"
    using owned by (auto simp: list_saved_versions_def Let_def split: sum.splits)
qed

lemma lifecycle_not_found: "get_version_lifecycle s u i n = Inl e \<Longrightarrow> e = DefinitionNotFound"
  using not_found_errors(2) by (auto simp: get_version_lifecycle_def split: sum.splits option.splits if_splits)

lemma map_sum_Inl_iff: "map_sum id f r = Inl e \<longleftrightarrow> r = Inl e"
  by (cases r) auto

lemma read_other_errors:
  "own_saved_version s u i v = Inl e \<Longrightarrow> e \<noteq> PersonalConflictProductError ''personal_candidate_identity_semantic_mismatch''"
  "installed_publication x u j = Inl e \<Longrightarrow> e \<noteq> PersonalConflictProductError ''personal_candidate_identity_semantic_mismatch''"
  by (auto simp: own_saved_version_def get_owned_definition_def installed_publication_def Let_def map_sum_Inl_iff
      dest: not_found_errors lifecycle_not_found split: sum.splits option.splits if_splits)

text \<open>C35. Across definitions, catalogue and library: in every reachable state the server's comparison of a saved
  definition with an installed publication never finds two packages under one identity.  It is resolved without a
  choice exactly when the installed publication is that very definition version, and asks the user otherwise.\<close>

theorem own_publication_no_conflict:
  assumes reach: "conflict_init s0" "(conflict_step h g a)\<^sup>*\<^sup>* s0 (x, cf)"
  shows "server_projection h x u i j v \<noteq> Inl (PersonalConflictProductError ''personal_candidate_identity_semantic_mismatch'') \<and>
    (\<forall>p. server_projection h x u i j v = Inr p \<longrightarrow>
      (\<exists>exact lc w pub. own_saved_version (pr_definitions x) u i v = Inr (exact, lc) \<and>
        installed_publication x u j = Inr (w, pub) \<and>
        sr_outcome (pp_resolution p) = (if i = j \<and> dv_version exact = w then Resolved else ClarificationRequired)))"
proof (intro conjI allI impI)
  from conflict_sys.reachable_inv[OF reach] have inv: "product_inv h x" by simp
  note inv' = product_invD[OF inv]
  have key: "cr_identity (pc_reference own) = (i, dv_version exact) \<and> cr_identity (pc_reference inst) = (j, w) \<and>
      (i = j \<and> dv_version exact = w \<longrightarrow> pc_semantic_checksum own = pc_semantic_checksum inst) \<and>
      candidate_ok h own \<and> candidate_ok h inst \<and> cr_candidate_id (pc_reference own) \<noteq> cr_candidate_id (pc_reference inst)"
    if own: "own_saved_version (pr_definitions x) u i v = Inr (exact, lc)" and pub: "installed_publication x u j = Inr (w, pub)"
      and po: "project_own_saved_candidate h exact lc u lbl src cert n = Inr own"
      and pi: "project_installed_published_candidate h pub cert' n' = Inr inst"
    for exact lc w pub own inst lbl src cert n cert' n'
  proof -
    note o' = project_own_ok[OF po] and n' = project_installed_ok[OF pi] and e = own_saved_version_ok[OF inv'(1) own]
    from pub have got: "cat_get (pr_catalogue x) j w = Some pub"
      by (auto simp: installed_publication_def split: option.splits)
    from cat_invD(1)[OF inv'(3) got] have pub_id: "pv_identity_id pub = j" "pv_version pub = w" by simp_all
    have "pc_semantic_checksum own = pc_semantic_checksum inst" if same: "i = j" "dv_version exact = w"
    proof -
      from inv'(4)[of j w pub] got e(2) same obtain z where
        z: "dget (st_versions (pr_definitions x)) (i, w) = Some z" "pv_semantic pub = Some (package_of h z)"
        by (auto simp: entry_backed_def)
      from e(3)[OF z(1) same(2)] have "exact = z" .
      with o'(5) n'(5) z(2) show ?thesis by (auto simp: package_of_def)
    qed
    then show ?thesis using o'(1-3) n'(1-3) e(1) pub_id candidate_prefixes by simp
  qed
  show "server_projection h x u i j v \<noteq> Inl (PersonalConflictProductError ''personal_candidate_identity_semantic_mismatch'')"
  proof
    assume bad: "server_projection h x u i j v = Inl (PersonalConflictProductError ''personal_candidate_identity_semantic_mismatch'')"
    obtain exact lc where 1: "own_saved_version (pr_definitions x) u i v = Inr (exact, lc)"
      using bad read_other_errors(1) by (cases "own_saved_version (pr_definitions x) u i v") (auto simp: server_projection_def)
    obtain w pub where 2: "installed_publication x u j = Inr (w, pub)"
      using bad 1 read_other_errors(2) by (cases "installed_publication x u j") (auto simp: server_projection_def)
    obtain own where 3: "project_own_saved_candidate h exact lc u (Some u) ''Own saved custom definition'' NotCertified 0 = Inr own"
      using bad 1 2 projection_other_errors(1)
      by (cases "project_own_saved_candidate h exact lc u (Some u) ''Own saved custom definition'' NotCertified 0")
        (auto simp: server_projection_def other_error_def)
    obtain inst where 4: "project_installed_published_candidate h pub (certification_of_text (certification_state (pr_catalogue x) j w))
         (star_count (pr_library x) j) = Inr inst"
      using bad 1 2 3 projection_other_errors(2)
      by (cases "project_installed_published_candidate h pub (certification_of_text (certification_state (pr_catalogue x) j w))
         (star_count (pr_library x) j)") (auto simp: server_projection_def other_error_def)
    from key[OF 1 2 3 4] have k: "candidate_ok h own" "candidate_ok h inst"
      "cr_candidate_id (pc_reference own) \<noteq> cr_candidate_id (pc_reference inst)"
      "cr_identity (pc_reference own) = cr_identity (pc_reference inst) \<Longrightarrow> pc_semantic_checksum own = pc_semantic_checksum inst"
      by auto
    from two_candidates[OF k(1-3)] k(4) obtain p where "resolve_personal_candidate_conflict h [own, inst] ''metric'' = Inr p"
      by (metis (full_types))
    with bad 1 2 3 4 show False by (simp add: server_projection_def)
  qed
  fix p
  assume p: "server_projection h x u i j v = Inr p"
  show "\<exists>exact lc w pub. own_saved_version (pr_definitions x) u i v = Inr (exact, lc) \<and>
        installed_publication x u j = Inr (w, pub) \<and>
        sr_outcome (pp_resolution p) = (if i = j \<and> dv_version exact = w then Resolved else ClarificationRequired)"
  proof (rule server_projection_cases[OF p])
    fix exact lc w pub own inst
    assume 1: "own_saved_version (pr_definitions x) u i v = Inr (exact, lc)" and 2: "installed_publication x u j = Inr (w, pub)"
      and 3: "project_own_saved_candidate h exact lc u (Some u) ''Own saved custom definition'' NotCertified 0 = Inr own"
      and 4: "project_installed_published_candidate h pub (certification_of_text (certification_state (pr_catalogue x) j w))
         (star_count (pr_library x) j) = Inr inst"
      and 5: "resolve_personal_candidate_conflict h [own, inst] ''metric'' = Inr p"
    from key[OF 1 2 3 4] have k: "candidate_ok h own" "candidate_ok h inst"
      "cr_candidate_id (pc_reference own) \<noteq> cr_candidate_id (pc_reference inst)"
      "cr_identity (pc_reference own) = (i, dv_version exact)" "cr_identity (pc_reference inst) = (j, w)"
      "i = j \<and> dv_version exact = w \<Longrightarrow> pc_semantic_checksum own = pc_semantic_checksum inst" by simp_all
    have "sr_outcome (pp_resolution p) = (if i = j \<and> dv_version exact = w then Resolved else ClarificationRequired)"
    proof (rule two_candidates[OF k(1-3)], goal_cases)
      case (1 m)
      then show ?case unfolding 5 k(4,5) using k(6) by (cases "i = j \<and> dv_version exact = w") (auto simp: unselected_def)
    qed
    with 1 2 show ?thesis by blast
  qed
qed

section \<open>A run with a choice\<close>

definition shared_catalogue :: catalogue where
  "shared_catalogue = snd (publish_item shared_entry empty_catalogue)"

definition shelf_product :: "definition_store \<Rightarrow> library \<Rightarrow> product" where
  "shelf_product s l = \<lparr>pr_definitions = s, pr_catalogue = shared_catalogue, pr_library = l\<rparr>"

definition shelf :: library where
  "shelf = snd (lib_install shared_catalogue demo_owner ''m'' 1 empty_library)"

lemma shared_entry_listed: "cat_get shared_catalogue ''m'' 1 = Some shared_entry"
  "\<not> is_withdrawn shared_catalogue ''m'' 1" "certification_state shared_catalogue ''m'' 1 = ''uncertified''"
  by (simp_all add: shared_catalogue_def publish_item_def cat_get_def versions_def empty_catalogue_def shared_entry_def
      sample_publication_def put_item_def set_current_def is_withdrawn_def certification_state_def dget_or_def Let_def)

lemma shelf_simps: "get_install shelf demo_owner ''m'' = Some \<lparr>ib_identity_id = ''m'', ib_version = 1, ib_pinned = True\<rparr>"
  "star_count shelf ''m'' = 0"
  using shared_entry_listed by (simp_all add: shelf_def lib_install_def get_install_def star_count_def empty_library_def Let_def)

lemma shelf_init: "conflict_init (shelf_product empty_store empty_library, empty_conflicts)"
proof -
  have "cat_inv shared_catalogue"
    unfolding shared_catalogue_def by (rule cat_reachable_inv[OF r_into_rtranclp]) (rule cat_step.intros)
  moreover have "cat_get shared_catalogue i v = None" if "is_definition_id i" for i v
    using that by (auto simp: shared_catalogue_def publish_item_def cat_get_def versions_def empty_catalogue_def shared_entry_def
        sample_publication_def put_item_def set_current_def is_definition_id_def Let_def)
  ultimately show ?thesis by (simp add: conflict_init_def product_init_def shelf_product_def)
qed

lemma shelf_reachable:
  "(conflict_step zero_hash demo_governed a)\<^sup>*\<^sup>* (shelf_product empty_store empty_library, empty_conflicts)
     (shelf_product demo_saved shelf, empty_conflicts)"
proof -
  have "(conflict_step zero_hash demo_governed a)\<^sup>*\<^sup>* (shelf_product empty_store empty_library, empty_conflicts)
      (shelf_product t empty_library, empty_conflicts)" if "(service_step zero_hash demo_governed)\<^sup>*\<^sup>* empty_store t" for t
    using that
  proof (induction rule: rtranclp_induct)
    case (step s t)
    have "product_step zero_hash demo_governed a [] (shelf_product s empty_library) ((shelf_product s empty_library)\<lparr>pr_definitions := t\<rparr>)"
      using step(2) by (intro product_step.authoring) (simp add: shelf_product_def)
    then have "conflict_step zero_hash demo_governed a (shelf_product s empty_library, empty_conflicts) (shelf_product t empty_library, empty_conflicts)"
      by (intro conflict_step.product) (auto simp: any_product_step_def shelf_product_def)
    with step(3) show ?case by simp
  qed simp
  from this[OF demo_reachable(1)] have "(conflict_step zero_hash demo_governed a)\<^sup>*\<^sup>* (shelf_product empty_store empty_library, empty_conflicts)
      (shelf_product demo_saved empty_library, empty_conflicts)" .
  moreover have "product_step zero_hash demo_governed a demo_owner (shelf_product demo_saved empty_library)
      ((shelf_product demo_saved empty_library)\<lparr>pr_library := shelf\<rparr>)"
    unfolding shelf_def by (intro product_step.personal) (simp add: shelf_product_def personal_step.install)
  then have "conflict_step zero_hash demo_governed a (shelf_product demo_saved empty_library, empty_conflicts) (shelf_product demo_saved shelf, empty_conflicts)"
    by (intro conflict_step.product) (auto simp: any_product_step_def shelf_product_def)
  ultimately show ?thesis by simp
qed

lemma demo_own_saved: "own_saved_version demo_saved demo_owner demo_id None =
    Inr (demo_version, \<lparr>lc_confirmation = CONFIRMED, lc_retention = SAVED\<rparr>)"
  by code_simp

definition sample_conflict :: semantic_conflict where
  "sample_conflict = the_conflict zero_hash [saved_candidate, shared_candidate NotCertified 0] ''metric''"

lemma shelf_projection:
  obtains m where "server_projection zero_hash (shelf_product demo_saved shelf) demo_owner demo_id ''m'' None =
    Inr (unselected \<lparr>sr_outcome = ClarificationRequired, sr_unresolved_slots = [''metric'']\<rparr> (Some sample_conflict) (Some m))"
proof -
  have "distinct (map (cr_identity \<circ> pc_reference) [saved_candidate, shared_candidate NotCertified 0])"
    by (simp add: saved_candidate_def shared_candidate_def cr_identity_def demo_id_def new_definition_id_def)
  from resolve_distinct[OF sample_resolvable _ _ this] obtain m where
    "resolve_personal_candidate_conflict zero_hash [saved_candidate, shared_candidate NotCertified 0] ''metric'' =
     Inr (unselected \<lparr>sr_outcome = ClarificationRequired, sr_unresolved_slots = [''metric'']\<rparr> (Some sample_conflict) (Some m))"
    by (auto simp: sample_conflict_def)
  then show ?thesis
    using that by (simp add: server_projection_def shelf_product_def demo_own_saved installed_publication_def shelf_simps
        shared_entry_listed certification_of_text_def saved_projected shared_projected del: One_nat_def)
qed

definition sample_selection :: personal_selection where
  "sample_selection = \<lparr>ps_conflict_id = sc_conflict_id sample_conflict, ps_required_slot = ''metric'',
     ps_selected_candidate_id = sample_id ''own'', ps_selection_scope = RunScoped, ps_explicit_user_request = False\<rparr>"

definition opened_conflicts :: conflict_service where
  "opened_conflicts = snd (resolve_conflict zero_hash (shelf_product demo_saved shelf) demo_owner demo_id ''m'' (Some ''t'') (Some ''r'') None empty_conflicts)"

definition chosen_conflicts :: conflict_service where
  "chosen_conflicts = snd (validate_selection zero_hash (shelf_product demo_saved shelf) demo_owner demo_id ''m'' sample_selection
     (Some ''t'') (Some ''r'') None opened_conflicts)"

lemma sample_conflict_candidates: "map cr_candidate_id (sc_candidates sample_conflict) = [sample_id ''own'', sample_id ''installed'']"
  "sc_required_slot sample_conflict = ''metric''"
  by (simp_all add: sample_conflict_def the_conflict_def saved_candidate_def shared_candidate_def)

lemma sample_selection_ok: "mk_personal_selection sample_selection = Inr sample_selection"
  by (simp add: mk_personal_selection_def sample_selection_def length_in_def sample_conflict_def the_conflict_def
      conflict_id_of_def sample_lengths order_trans[OF sample_lengths(2)])

lemma chosen_conflicts_simps:
  assumes "server_projection zero_hash (shelf_product demo_saved shelf) demo_owner demo_id ''m'' None = Inr p"
    "pp_semantic_conflict p = Some sample_conflict"
  shows "cf_active_conflicts chosen_conflicts = [((demo_owner, ''t'', ''r'', sc_conflict_id sample_conflict), p)]"
    "cf_pending_selections chosen_conflicts = [((demo_owner, ''t'', ''r'', sc_conflict_id sample_conflict), sample_selection)]"
proof -
  have opened: "opened_conflicts = \<lparr>cf_active_conflicts = [((demo_owner, ''t'', ''r'', sc_conflict_id sample_conflict), p)], cf_pending_selections = []\<rparr>"
    using assms by (simp add: opened_conflicts_def resolve_conflict_def empty_conflicts_def Let_def)
  have "sample_id ''own'' \<in> cr_candidate_id ` set (sc_candidates sample_conflict)"
    unfolding set_map[symmetric] sample_conflict_candidates by simp
  then have "validate_personal_selection sample_selection p = Inr sample_selection"
    using assms(2) sample_conflict_candidates(2) by (simp add: validate_personal_selection_def sample_selection_def)
  then show "cf_active_conflicts chosen_conflicts = [((demo_owner, ''t'', ''r'', sc_conflict_id sample_conflict), p)]"
    "cf_pending_selections chosen_conflicts = [((demo_owner, ''t'', ''r'', sc_conflict_id sample_conflict), sample_selection)]"
    by (simp_all add: chosen_conflicts_def validate_selection_def opened Let_def) (simp_all add: sample_selection_def)
qed

theorem selection_takes_effect_once_witness:
  "\<exists>p cf. resolve_conflict zero_hash (shelf_product demo_saved shelf) demo_owner demo_id ''m'' (Some ''t'') (Some ''r'') None chosen_conflicts = (Inr p, cf) \<and>
     pp_selected_candidate_id p = Some (sample_id ''own'') \<and> cf_pending_selections cf = [] \<and> cf_active_conflicts cf = []"
proof -
  let ?x = "shelf_product demo_saved shelf" and ?key = "(demo_owner, ''t'', ''r'', sc_conflict_id sample_conflict)"
  obtain m where server: "server_projection zero_hash ?x demo_owner demo_id ''m'' None =
    Inr (unselected \<lparr>sr_outcome = ClarificationRequired, sr_unresolved_slots = [''metric'']\<rparr> (Some sample_conflict) (Some m))"
    by (rule shelf_projection)
  have conflict: "pp_semantic_conflict (unselected r (Some sample_conflict) m') = Some sample_conflict" for r m' by (simp add: unselected_def)
  note chosen = chosen_conflicts_simps[OF server conflict]
  have reach: "(conflict_step zero_hash demo_governed demo_authority)\<^sup>*\<^sup>* (shelf_product empty_store empty_library, empty_conflicts) (?x, chosen_conflicts)"
    using shelf_reachable conflict_step.resolving[of zero_hash demo_governed demo_authority ?x empty_conflicts demo_owner demo_id "''m''" "Some ''t''" "Some ''r''" None]
      conflict_step.selecting[OF sample_selection_ok, of zero_hash demo_governed demo_authority ?x opened_conflicts demo_owner demo_id "''m''" "Some ''t''" "Some ''r''" None]
    unfolding opened_conflicts_def[symmetric] chosen_conflicts_def[symmetric] by (meson rtranclp.rtrancl_into_rtrancl)
  obtain res cf where run: "resolve_conflict zero_hash ?x demo_owner demo_id ''m'' (Some ''t'') (Some ''r'') None chosen_conflicts = (res, cf)"
    by (rule prod.exhaust)
  have sep: "separates zero_hash l k"
    if "server_projection zero_hash ?x demo_owner demo_id ''m'' None = Inr p" "pp_semantic_conflict p = Some k"
      "dget (cf_active_conflicts chosen_conflicts) (demo_owner, t', r', sc_conflict_id k) = Some q" "pp_semantic_conflict q = Some l"
    for p k q l t' r'
    using that by (auto simp: server conflict chosen separates_def no_collision_def list_all2_same split: if_splits)
  have cleared: "cf_pending_selections cf = []" "cf_active_conflicts cf = []"
    using run by (auto simp: resolve_conflict_def server conflict chosen consume_selection_def Let_def split: option.splits)
  show ?thesis
  proof (rule selection_takes_effect_once[OF shelf_init reach run, THEN disjE], goal_cases)
    case (1 p k q l t' r')
    then show ?case by (rule sep)
  next
    case 2
    then show ?case using cleared chosen by simp
  next
    case 3
    then obtain p c sel where "res = Inr (selected_projection p c sel)" "sel = sample_selection"
      using chosen by (auto split: if_splits)
    then show ?case using run cleared by (auto simp: selected_projection_def sample_selection_def)
  qed
qed

theorem own_publication_no_conflict_witness:
  "\<exists>p. server_projection zero_hash (shelf_product demo_saved shelf) demo_owner demo_id ''m'' None = Inr p \<and>
     sr_outcome (pp_resolution p) = ClarificationRequired"
proof -
  obtain p where p: "server_projection zero_hash (shelf_product demo_saved shelf) demo_owner demo_id ''m'' None = Inr p"
    by (rule shelf_projection)
  have "demo_id \<noteq> ''m''" by (simp add: demo_id_def new_definition_id_def)
  with own_publication_no_conflict[OF shelf_init shelf_reachable, of demo_owner demo_id "''m''" None] p show ?thesis by auto
qed

end
