(* ===== verification/Query_Plan.thy ===== *)
theory Query_Plan
  imports Calculation_Contract
begin

text \<open>
  The query-side contracts of \<open>contracts.py\<close>: \<open>TimeRange\<close>, \<open>BoundFilter\<close>, \<open>ContextBundle\<close> and
  \<open>QueryPlan\<close> with their validators, the plan payload that keeps the server-owned date set, and the
  checksums that bind an execution to them.  UUIDs are carried as their text.
\<close>

section \<open>Dates\<close>

text \<open>A \<open>datetime.date\<close>, ordered as Python orders dates.\<close>

datatype date = Date (year: nat) (month: nat) (day: nat)

instantiation date :: linorder
begin

definition less_date :: "date \<Rightarrow> date \<Rightarrow> bool" where
  "less_date a b \<longleftrightarrow> year a < year b \<or> year a = year b \<and> (month a < month b \<or> month a = month b \<and> day a < day b)"

definition less_eq_date :: "date \<Rightarrow> date \<Rightarrow> bool" where
  "less_eq_date a b \<longleftrightarrow> a < b \<or> a = (b :: date)"

instance
  by standard (auto simp: less_date_def less_eq_date_def intro: date.expand)

end

definition date_ok :: "date \<Rightarrow> bool" where
  "date_ok d \<longleftrightarrow> 1 \<le> year d \<and> year d \<le> 9999 \<and> 1 \<le> month d \<and> month d \<le> 12 \<and>
     1 \<le> day d \<and> day d \<le> days_in_month (year d) (month d)"

definition digit_char :: "nat \<Rightarrow> char" where
  "digit_char n = char_of (48 + n mod 10)"

definition two_digits :: "nat \<Rightarrow> string" where
  "two_digits n = [digit_char (n div 10), digit_char n]"

definition isoformat :: "date \<Rightarrow> string" where
  "isoformat d = two_digits (year d div 100) @ two_digits (year d) @ ''-'' @ two_digits (month d) @ ''-'' @ two_digits (day d)"

section \<open>Vocabularies\<close>

datatype filter_operator = FEq | FNe | FIn | FBetween | FGt | FGte | FLt | FLte | FIsNull | FIsNotNull

fun filter_operator_text :: "filter_operator \<Rightarrow> string" where
  "filter_operator_text FEq = ''eq''"
| "filter_operator_text FNe = ''ne''"
| "filter_operator_text FIn = ''in''"
| "filter_operator_text FBetween = ''between''"
| "filter_operator_text FGt = ''gt''"
| "filter_operator_text FGte = ''gte''"
| "filter_operator_text FLt = ''lt''"
| "filter_operator_text FLte = ''lte''"
| "filter_operator_text FIsNull = ''is_null''"
| "filter_operator_text FIsNotNull = ''is_not_null''"

datatype filter_source = FromUser | FromEntityAlias | FromSemanticDefault

fun filter_source_text :: "filter_source \<Rightarrow> string" where
  "filter_source_text FromUser = ''user''"
| "filter_source_text FromEntityAlias = ''entity_alias''"
| "filter_source_text FromSemanticDefault = ''semantic_default''"

datatype plan_intent = IMetric | ITrend | IComparison | IRanking | IDetail

fun intent_text :: "plan_intent \<Rightarrow> string" where
  "intent_text IMetric = ''metric''"
| "intent_text ITrend = ''trend''"
| "intent_text IComparison = ''comparison''"
| "intent_text IRanking = ''ranking''"
| "intent_text IDetail = ''detail''"

datatype time_grain = GHour | GDay | GWeek | GMonth | GQuarter | GYear

fun grain_text :: "time_grain \<Rightarrow> string" where
  "grain_text GHour = ''hour''"
| "grain_text GDay = ''day''"
| "grain_text GWeek = ''week''"
| "grain_text GMonth = ''month''"
| "grain_text GQuarter = ''quarter''"
| "grain_text GYear = ''year''"

datatype source_strategy = AggregateFirst | DetailRequired

fun strategy_text :: "source_strategy \<Rightarrow> string" where
  "strategy_text AggregateFirst = ''aggregate_first''"
| "strategy_text DetailRequired = ''detail_required''"

datatype resolution_status = RResolved | RAmbiguous | RIncomplete | RConflict

fun resolution_text :: "resolution_status \<Rightarrow> string" where
  "resolution_text RResolved = ''resolved''"
| "resolution_text RAmbiguous = ''ambiguous''"
| "resolution_text RIncomplete = ''incomplete''"
| "resolution_text RConflict = ''conflict''"

section \<open>Time ranges and filters\<close>

record time_range =
  tr_start :: date
  tr_end :: date
  tr_timezone :: string

definition mk_time_range :: "time_range \<Rightarrow> time_range result" where
  "mk_time_range t = validated
     [(\<not> date_ok (tr_start t), FieldError ''start''), (\<not> date_ok (tr_end t), FieldError ''end''),
      (\<not> length_in 1 128 (tr_timezone t), FieldError ''timezone''),
      (tr_end t < tr_start t, ValueError ''time range end cannot be before start'')] t"

text \<open>\<open>value: JsonValue | None\<close>; an absent value is \<^const>\<open>JNull\<close>, as Python's \<open>None\<close> is both.\<close>

record bound_filter =
  bf_field_ref :: string
  bf_operator :: filter_operator
  bf_value :: json
  bf_source :: filter_source

text \<open>\<open>^[A-Za-z_][A-Za-z0-9_.-]*$\<close> with 1 to 256 characters.\<close>

definition field_ref_ok :: "string \<Rightarrow> bool" where
  "field_ref_ok s \<longleftrightarrow> length_in 1 256 s \<and> (case s of [] \<Rightarrow> False
     | c # cs \<Rightarrow> (is_lower c \<or> is_upper c \<or> c = CHR ''_'') \<and>
         list_all (\<lambda>d. is_lower d \<or> is_upper d \<or> is_digit d \<or> d \<in> {CHR ''_'', CHR ''.'', CHR ''-''}) cs)"

definition null_operator :: "filter_operator \<Rightarrow> bool" where
  "null_operator f \<longleftrightarrow> f \<in> {FIsNull, FIsNotNull}"

definition mk_bound_filter :: "bound_filter \<Rightarrow> bound_filter result" where
  "mk_bound_filter f = validated
     [(\<not> field_ref_ok (bf_field_ref f), FieldError ''field_ref''),
      (bf_value f \<noteq> JNull \<and> \<not> json_ok (bf_value f), ValueError ''filter value must be finite JSON''),
      (null_operator (bf_operator f) \<and> bf_value f \<noteq> JNull,
       ValueError (filter_operator_text (bf_operator f) @ '' filter must not carry a value'')),
      (\<not> null_operator (bf_operator f) \<and> bf_value f = JNull,
       ValueError (filter_operator_text (bf_operator f) @ '' filter requires a value'')),
      (bf_operator f = FIn \<and> (case bf_value f of JList xs \<Rightarrow> xs = [] | _ \<Rightarrow> True),
       ValueError ''in filter requires a non-empty JSON array''),
      (bf_operator f = FBetween \<and> (case bf_value f of JList xs \<Rightarrow> length xs \<noteq> 2 | _ \<Rightarrow> True),
       ValueError ''between filter requires a two-item JSON array'')] f"

section \<open>Context bundles and query plans\<close>

record context_bundle =
  cb_semantic_release_id :: string
  cb_schema_snapshot_id :: string
  cb_domains :: "string list"
  cb_asset_ids :: "string list"
  cb_approved_relation_ids :: "string list"
  cb_approved_edge_ids :: "string list"
  cb_resolution_status :: resolution_status
  cb_unresolved_slots :: "string list"
  cb_conflict_ids :: "string list"
  cb_degradation_flags :: "string list"
  cb_token_cost :: nat
  cb_evidence_count :: nat

text \<open>\<open>validate_unique_non_empty_values\<close> of one field.\<close>

definition unique_checks :: "string \<Rightarrow> string list \<Rightarrow> (bool \<times> exn) list" where
  "unique_checks what v =
     [(list_ex blank v, ValueError (what @ '' identifiers must be non-empty'')),
      (\<not> distinct v, ValueError (what @ '' identifiers must be unique''))]"

definition mk_context_bundle :: "context_bundle \<Rightarrow> context_bundle result" where
  "mk_context_bundle c = validated
     ([(\<not> length_in 1 8 (cb_domains c), FieldError ''domains''),
       (\<not> length_in 1 20 (cb_asset_ids c), FieldError ''asset_ids''),
       (\<not> length_in 0 8 (cb_approved_relation_ids c), FieldError ''approved_relation_ids''),
       (\<not> length_in 0 16 (cb_approved_edge_ids c), FieldError ''approved_edge_ids''),
       (\<not> length_in 0 16 (cb_unresolved_slots c), FieldError ''unresolved_slots''),
       (\<not> length_in 0 16 (cb_conflict_ids c), FieldError ''conflict_ids''),
       (\<not> length_in 0 16 (cb_degradation_flags c), FieldError ''degradation_flags''),
       (cb_token_cost c > 10000, FieldError ''token_cost''),
       (cb_evidence_count c > 20, FieldError ''evidence_count'')] @
      concat (map (unique_checks ''context'')
        [cb_domains c, cb_asset_ids c, cb_approved_relation_ids c, cb_approved_edge_ids c,
         cb_unresolved_slots c, cb_conflict_ids c, cb_degradation_flags c])) c"

record query_plan =
  qp_intent :: plan_intent
  qp_domain :: string
  qp_metric_keys :: "string list"
  qp_dimensions :: "string list"
  qp_filters :: "bound_filter list"
  qp_time_range :: time_range
  qp_available_dates :: "date list"
  qp_grain :: time_grain
  qp_source_strategy :: source_strategy
  qp_result_limit :: "nat option"
  qp_required_permissions :: "string list"
  qp_unresolved_slots :: "string list"

definition available_date_checks :: "query_plan \<Rightarrow> (bool \<times> exn) list" where
  "available_date_checks p =
     (let ds = qp_available_dates p in
      if ds = [] then []
      else [(qp_intent p \<noteq> ITrend, ValueError ''available_dates is only supported for trends''),
            (\<not> distinct ds, ValueError ''available_dates must be unique''),
            (sort ds \<noteq> ds, ValueError ''available_dates must be ordered''),
            (hd ds < tr_start (qp_time_range p), ValueError ''available_dates start is outside time_range''),
            (last ds > tr_end (qp_time_range p), ValueError ''available_dates end is outside time_range'')])"

definition mk_query_plan :: "query_plan \<Rightarrow> query_plan result" where
  "mk_query_plan p = validated
     ([(\<not> length_in 1 128 (qp_domain p), FieldError ''domain''),
       (\<not> length_in 1 16 (qp_metric_keys p), FieldError ''metric_keys''),
       (\<not> length_in 0 16 (qp_dimensions p), FieldError ''dimensions''),
       (\<not> length_in 0 32 (qp_filters p), FieldError ''filters''),
       (list_ex (\<lambda>f. mk_bound_filter f \<noteq> Inr f) (qp_filters p), FieldError ''filters''),
       (mk_time_range (qp_time_range p) \<noteq> Inr (qp_time_range p), FieldError ''time_range''),
       (\<not> length_in 0 31 (qp_available_dates p) \<or> \<not> list_all date_ok (qp_available_dates p), FieldError ''available_dates''),
       (case qp_result_limit p of None \<Rightarrow> False | Some n \<Rightarrow> n < 1 \<or> n > 100, FieldError ''result_limit''),
       (\<not> length_in 0 32 (qp_required_permissions p), FieldError ''required_permissions''),
       (\<not> length_in 0 16 (qp_unresolved_slots p), FieldError ''unresolved_slots'')] @
      concat (map (unique_checks ''query plan'')
        [qp_metric_keys p, qp_dimensions p, qp_required_permissions p, qp_unresolved_slots p]) @
      [(qp_intent p \<noteq> IRanking \<and> qp_result_limit p \<noteq> None, ValueError ''result_limit is only supported for ranking'')] @
      available_date_checks p) p"

definition ranking_limit :: "query_plan \<Rightarrow> nat" where
  "ranking_limit p = (case qp_result_limit p of Some n \<Rightarrow> n | None \<Rightarrow> 10)"

section \<open>Payloads and checksums\<close>

text \<open>\<open>sort_keys=True\<close> also sorts the keys of nested objects the caller supplied.\<close>

fun canonical :: "json \<Rightarrow> json" where
  "canonical (JList xs) = JList (map canonical xs)"
| "canonical (JObj kvs) = jobj (map (\<lambda>(k, v). (k, canonical v)) kvs)"
| "canonical j = j"

definition strings_json :: "string list \<Rightarrow> json" where
  "strings_json xs = JList (map JStr xs)"

definition time_range_json :: "time_range \<Rightarrow> json" where
  "time_range_json t = jobj [(''start'', JStr (isoformat (tr_start t))), (''end'', JStr (isoformat (tr_end t))),
     (''timezone'', JStr (tr_timezone t))]"

definition filter_json :: "bound_filter \<Rightarrow> json" where
  "filter_json f = jobj [(''field_ref'', JStr (bf_field_ref f)), (''operator'', JStr (filter_operator_text (bf_operator f))),
     (''value'', canonical (bf_value f)), (''source'', JStr (filter_source_text (bf_source f)))]"

text \<open>\<open>model_dump\<close> leaves \<open>available_dates\<close> out (\<open>exclude=True\<close>); the payload puts a non-empty set back.\<close>

definition query_plan_fields :: "query_plan \<Rightarrow> (string \<times> json) list" where
  "query_plan_fields p =
     [(''schema_version'', JStr ''3.0''), (''intent'', JStr (intent_text (qp_intent p))), (''domain'', JStr (qp_domain p)),
      (''metric_keys'', strings_json (qp_metric_keys p)), (''dimensions'', strings_json (qp_dimensions p)),
      (''filters'', JList (map filter_json (qp_filters p))), (''time_range'', time_range_json (qp_time_range p)),
      (''grain'', JStr (grain_text (qp_grain p))), (''source_strategy'', JStr (strategy_text (qp_source_strategy p))),
      (''result_limit'', jopt (\<lambda>n. JInt (int n)) (qp_result_limit p)),
      (''required_permissions'', strings_json (qp_required_permissions p)),
      (''unresolved_slots'', strings_json (qp_unresolved_slots p))]"

definition query_plan_payload :: "query_plan \<Rightarrow> json" where
  "query_plan_payload p =
     jobj (query_plan_fields p @
       (if qp_available_dates p = [] then [] else [(''available_dates'', JList (map (\<lambda>d. JStr (isoformat d)) (qp_available_dates p)))]))"

definition query_plan_checksum :: "(string \<Rightarrow> string) \<Rightarrow> query_plan \<Rightarrow> string" where
  "query_plan_checksum sha256 p = checksum_of sha256 (query_plan_payload p)"

definition context_json :: "context_bundle \<Rightarrow> json" where
  "context_json c =
     jobj [(''semantic_release_id'', JStr (cb_semantic_release_id c)), (''schema_snapshot_id'', JStr (cb_schema_snapshot_id c)),
       (''domains'', strings_json (cb_domains c)), (''asset_ids'', strings_json (cb_asset_ids c)),
       (''approved_relation_ids'', strings_json (cb_approved_relation_ids c)),
       (''approved_edge_ids'', strings_json (cb_approved_edge_ids c)),
       (''resolution_status'', JStr (resolution_text (cb_resolution_status c))),
       (''unresolved_slots'', strings_json (cb_unresolved_slots c)), (''conflict_ids'', strings_json (cb_conflict_ids c)),
       (''degradation_flags'', strings_json (cb_degradation_flags c)), (''token_cost'', JInt (int (cb_token_cost c))),
       (''evidence_count'', JInt (int (cb_evidence_count c)))]"

definition context_checksum :: "(string \<Rightarrow> string) \<Rightarrow> context_bundle \<Rightarrow> string" where
  "context_checksum sha256 c = checksum_of sha256 (context_json c)"

section \<open>The checksum identifies the plan\<close>

lemma digit_char_inject: "digit_char m = digit_char n \<longleftrightarrow> m mod 10 = n mod 10"
proof -
  have "of_char (digit_char k) = 48 + k mod 10" for k :: nat by (simp add: digit_char_def)
  then show ?thesis by (metis add_left_cancel digit_char_def)
qed

lemma mod_10_digits: "(m :: nat) mod 10 = n mod 10 \<Longrightarrow> m div 10 = n div 10 \<Longrightarrow> m = n"
  by (metis div_mod_decomp)

lemma two_digits_inject: "two_digits m = two_digits n \<Longrightarrow> m < 100 \<Longrightarrow> n < 100 \<Longrightarrow> m = n"
  by (rule mod_10_digits) (simp_all add: two_digits_def digit_char_inject)

lemma year_digits_inject:
  assumes "two_digits (m div 100) = two_digits (n div 100)" "two_digits m = two_digits n" "m < 10000" "n < 10000"
  shows "m = n"
proof (rule mod_10_digits)
  show "m mod 10 = n mod 10" using assms(2) by (simp add: two_digits_def digit_char_inject)
  have "m div 100 = n div 100" by (rule two_digits_inject[OF assms(1)]) (use assms(3,4) in auto)
  moreover have "m div 10 mod 10 = n div 10 mod 10" using assms(2) by (simp add: two_digits_def digit_char_inject)
  ultimately show "m div 10 = n div 10" using mod_10_digits[of "m div 10" "n div 10"] by (simp add: div_mult2_eq[symmetric])
qed

lemma days_in_month_le: "days_in_month y m \<le> 31"
  by (simp add: days_in_month_def)

lemma isoformat_inject:
  assumes "date_ok a" "date_ok b" "isoformat a = isoformat b" shows "a = b"
proof (rule date.expand)
  have bounds: "year x < 10000 \<and> month x < 100 \<and> day x < 100" if "date_ok x" for x
    using that days_in_month_le[of "year x" "month x"] by (auto simp: date_ok_def)
  have "two_digits (year a div 100) = two_digits (year b div 100) \<and> two_digits (year a) = two_digits (year b) \<and>
      two_digits (month a) = two_digits (month b) \<and> two_digits (day a) = two_digits (day b)"
    using assms(3) by (simp add: isoformat_def two_digits_def)
  then show "year a = year b \<and> month a = month b \<and> day a = day b"
    using year_digits_inject two_digits_inject bounds[OF assms(1)] bounds[OF assms(2)] by blast
qed

lemma plan_text_injects:
  "filter_operator_text f = filter_operator_text f' \<Longrightarrow> f = f'" "filter_source_text s = filter_source_text s' \<Longrightarrow> s = s'"
  "intent_text i = intent_text i' \<Longrightarrow> i = i'" "grain_text g = grain_text g' \<Longrightarrow> g = g'"
  "strategy_text t = strategy_text t' \<Longrightarrow> t = t'" "resolution_text r = resolution_text r' \<Longrightarrow> r = r'"
proof -
  show "filter_operator_text f = filter_operator_text f' \<Longrightarrow> f = f'" by (cases f; cases f') simp_all
  show "filter_source_text s = filter_source_text s' \<Longrightarrow> s = s'" by (cases s; cases s') simp_all
  show "intent_text i = intent_text i' \<Longrightarrow> i = i'" by (cases i; cases i') simp_all
  show "grain_text g = grain_text g' \<Longrightarrow> g = g'" by (cases g; cases g') simp_all
  show "strategy_text t = strategy_text t' \<Longrightarrow> t = t'" by (cases t; cases t') simp_all
  show "resolution_text r = resolution_text r' \<Longrightarrow> r = r'" by (cases r; cases r') simp_all
qed

lemma strings_json_inject [simp]: "strings_json xs = strings_json ys \<longleftrightarrow> xs = ys"
  unfolding strings_json_def by (simp add: inj_map_eq_map inj_def)

lemma json_ok_canonical: "json_ok j \<Longrightarrow> json_ok (canonical j)"
proof (induction j rule: canonical.induct)
  case (2 kvs)
  then show ?case by (auto simp: list_all_iff)
qed (auto simp: list_all_iff)

lemma json_ok_strings [simp]: "json_ok (strings_json xs)"
  by (simp add: strings_json_def list_all_iff)

definition filter_content :: "bound_filter \<Rightarrow> bound_filter" where
  "filter_content f = f\<lparr>bf_value := canonical (bf_value f)\<rparr>"

text \<open>A plan up to the order of keys inside its filter values, which Python's dictionary equality
  ignores too.\<close>

definition query_plan_content :: "query_plan \<Rightarrow> query_plan" where
  "query_plan_content p = p\<lparr>qp_filters := map filter_content (qp_filters p)\<rparr>"

lemma filter_json_content: "filter_json f = filter_json g \<longleftrightarrow> filter_content f = filter_content g"
proof
  assume "filter_json f = filter_json g"
  note m = member_cong[OF this, unfolded filter_json_def]
  show "filter_content f = filter_content g"
    using m[of "''field_ref''"] m[of "''operator''"] m[of "''value''"] m[of "''source''"] plan_text_injects(1,2)
    by (simp add: member_jobj filter_content_def)
next
  assume "filter_content f = filter_content g"
  then have "bf_field_ref f = bf_field_ref g \<and> bf_operator f = bf_operator g \<and> bf_source f = bf_source g \<and>
      canonical (bf_value f) = canonical (bf_value g)"
    unfolding filter_content_def by (metis bound_filter.select_convs bound_filter.surjective bound_filter.update_convs(3))
  then show "filter_json f = filter_json g" by (simp add: filter_json_def)
qed

lemma filters_json_content:
  "map filter_json fs = map filter_json gs \<longleftrightarrow> map filter_content fs = map filter_content gs"
  by (induction fs arbitrary: gs) (auto simp: filter_json_content Cons_eq_map_conv)

lemma time_range_json_inject:
  assumes "mk_time_range s = Inr s" "mk_time_range t = Inr t" "time_range_json s = time_range_json t"
  shows "(s :: time_range) = t"
proof -
  note m = member_cong[OF assms(3), unfolded time_range_json_def]
  have "tr_start s = tr_start t" "tr_end s = tr_end t"
    using isoformat_inject assms(1,2) m[of "''start''"] m[of "''end''"] by (auto simp: mk_time_range_def member_jobj)
  then show ?thesis using m[of "''timezone''"] by (simp add: member_jobj)
qed

lemma mk_query_plan_ok:
  assumes "mk_query_plan p = Inr p"
  shows "mk_time_range (qp_time_range p) = Inr (qp_time_range p)" "list_all date_ok (qp_available_dates p)"
    "list_all (\<lambda>f. json_ok (bf_value f)) (qp_filters p)"
proof -
  have p: "mk_time_range (qp_time_range p) = Inr (qp_time_range p)" "list_all date_ok (qp_available_dates p)"
    "\<not> list_ex (\<lambda>f. mk_bound_filter f \<noteq> Inr f) (qp_filters p)"
    using assms by (auto simp: mk_query_plan_def)
  then show "mk_time_range (qp_time_range p) = Inr (qp_time_range p)" "list_all date_ok (qp_available_dates p)" by simp_all
  have "json_ok (bf_value f)" if "mk_bound_filter f = Inr f" for f
    using that by (cases "bf_value f = JNull") (auto simp: mk_bound_filter_def)
  then show "list_all (\<lambda>f. json_ok (bf_value f)) (qp_filters p)" using p(3) by (auto simp: list_ex_iff list_all_iff)
qed

lemma json_ok_query_plan: "mk_query_plan p = Inr p \<Longrightarrow> json_ok (query_plan_payload p)"
  using mk_query_plan_ok(3)[of p]
  by (auto simp: query_plan_payload_def query_plan_fields_def time_range_json_def filter_json_def list_all_iff
      intro!: json_ok_jopt json_ok_canonical)

lemma query_plan_keys: "distinct (map fst (query_plan_fields p @ [(''available_dates'', x)]))" "distinct (map fst (query_plan_fields p))"
  by (simp_all add: query_plan_fields_def)

lemma member_payload:
  "member (query_plan_payload p) k =
     (if k = ''available_dates'' then (if qp_available_dates p = [] then None
        else Some (JList (map (\<lambda>d. JStr (isoformat d)) (qp_available_dates p))))
      else map_of (query_plan_fields p) k)"
  using query_plan_keys[of p]
  by (simp add: query_plan_payload_def member_jobj) (simp add: query_plan_fields_def)

lemma query_plan_payload_content:
  assumes p: "mk_query_plan p = Inr p" and q: "mk_query_plan q = Inr q" and eq: "query_plan_payload p = query_plan_payload q"
  shows "query_plan_content p = query_plan_content (q :: query_plan)"
proof -
  note m = member_cong[OF eq, unfolded member_payload]
  note f = m[unfolded query_plan_fields_def, simplified]
  have "qp_available_dates p = qp_available_dates q"
  proof -
    have "map (\<lambda>d. JStr (isoformat d)) (qp_available_dates p) = map (\<lambda>d. JStr (isoformat d)) (qp_available_dates q)"
      using m[of "''available_dates''"] by (simp del: map_eq_conv split: if_splits)
    then show ?thesis
      by (rule map_inject_on) (use mk_query_plan_ok(2)[OF p] mk_query_plan_ok(2)[OF q] isoformat_inject in \<open>auto simp: list_all_iff\<close>)
  qed
  moreover have "map filter_json (qp_filters p) = map filter_json (qp_filters q)"
    using m[of "''filters''"] by (simp add: query_plan_fields_def del: map_eq_conv)
  then have "map filter_content (qp_filters p) = map filter_content (qp_filters q)" by (simp only: filters_json_content)
  moreover have "qp_time_range p = qp_time_range q"
    by (rule time_range_json_inject[OF mk_query_plan_ok(1)[OF p] mk_query_plan_ok(1)[OF q]])
      (use m[of "''time_range''"] in \<open>simp add: query_plan_fields_def\<close>)
  moreover have "qp_result_limit p = qp_result_limit q"
    by (rule jopt_inject[where f = "\<lambda>n. JInt (int n)"])
      (use m[of "''result_limit''"] in \<open>auto simp: inj_def query_plan_fields_def\<close>)
  ultimately show ?thesis
    using m[of "''intent''"] m[of "''domain''"] m[of "''metric_keys''"] m[of "''dimensions''"] m[of "''grain''"]
      m[of "''source_strategy''"] m[of "''required_permissions''"] m[of "''unresolved_slots''"] plan_text_injects(3-5)
    by (simp add: query_plan_content_def query_plan_fields_def)
qed

text \<open>The checksum of a query plan identifies it: for two valid plans whose canonical texts the hash
  tells apart, the checksums agree exactly when the plans agree in every field, the server-owned
  date set that \<open>model_dump\<close> leaves out included (filter values compared as Python compares
  dictionaries).\<close>

theorem query_plan_checksum_identifies:
  assumes "mk_query_plan p = Inr p" "mk_query_plan q = Inr q"
    and "no_collision h 64 {json_text (query_plan_payload p), json_text (query_plan_payload q)}"
  shows "query_plan_checksum h p = query_plan_checksum h q \<longleftrightarrow> query_plan_content p = query_plan_content q"
proof
  assume eq: "query_plan_checksum h p = query_plan_checksum h q"
  have "json_text (query_plan_payload p) = json_text (query_plan_payload q)"
    by (rule no_collisionD[OF assms(3)]) (use eq in \<open>simp_all add: query_plan_checksum_def checksum_of_def\<close>)
  then have "query_plan_payload p = query_plan_payload q"
    by (rule json_text_inject[OF json_ok_query_plan[OF assms(1)] json_ok_query_plan[OF assms(2)]])
  then show "query_plan_content p = query_plan_content q" by (rule query_plan_payload_content[OF assms(1,2)])
next
  assume c: "query_plan_content p = query_plan_content q"
  have "map filter_json (qp_filters p) = map filter_json (qp_filters q)"
    using arg_cong[OF c, of qp_filters] by (simp add: query_plan_content_def filters_json_content)
  then have "query_plan_payload p = query_plan_payload q"
    using arg_cong[OF c, of qp_intent] arg_cong[OF c, of qp_domain] arg_cong[OF c, of qp_metric_keys]
      arg_cong[OF c, of qp_dimensions] arg_cong[OF c, of qp_time_range] arg_cong[OF c, of qp_available_dates]
      arg_cong[OF c, of qp_grain] arg_cong[OF c, of qp_source_strategy] arg_cong[OF c, of qp_result_limit]
      arg_cong[OF c, of qp_required_permissions] arg_cong[OF c, of qp_unresolved_slots]
    by (simp add: query_plan_content_def query_plan_payload_def query_plan_fields_def)
  then show "query_plan_checksum h p = query_plan_checksum h q" by (simp add: query_plan_checksum_def)
qed

definition sample_plan :: "date list \<Rightarrow> query_plan" where
  "sample_plan ds = \<lparr>qp_intent = ITrend, qp_domain = ''sales'', qp_metric_keys = [''gold.won''], qp_dimensions = [],
     qp_filters = [\<lparr>bf_field_ref = ''team'', bf_operator = FIn, bf_value = JList [JStr ''a''], bf_source = FromUser\<rparr>],
     qp_time_range = \<lparr>tr_start = Date 2024 2 1, tr_end = Date 2024 2 29, tr_timezone = ''Asia/Shanghai''\<rparr>,
     qp_available_dates = ds, qp_grain = GDay, qp_source_strategy = AggregateFirst, qp_result_limit = None,
     qp_required_permissions = [], qp_unresolved_slots = []\<rparr>"

lemma sample_plan_ok:
  "mk_query_plan (sample_plan []) = Inr (sample_plan [])"
  "mk_query_plan (sample_plan [Date 2024 2 29]) = Inr (sample_plan [Date 2024 2 29])"
  by (simp_all add: sample_plan_def mk_query_plan_def mk_time_range_def mk_bound_filter_def available_date_checks_def
      unique_checks_def length_in_def date_ok_def days_in_month_def year_days_leap_def field_ref_ok_def null_operator_def
      blank_def strip_def is_space_def is_lower_def less_date_def less_eq_date_def)

theorem query_plan_checksum_identifies_witness:
  "query_plan_checksum (\<lambda>t. replicate 64 (if t = json_text (query_plan_payload (sample_plan [])) then CHR ''0'' else CHR ''1''))
     (sample_plan []) \<noteq>
   query_plan_checksum (\<lambda>t. replicate 64 (if t = json_text (query_plan_payload (sample_plan [])) then CHR ''0'' else CHR ''1''))
     (sample_plan [Date 2024 2 29])"
proof -
  let ?h = "\<lambda>t. replicate 64 (if t = json_text (query_plan_payload (sample_plan [])) then CHR ''0'' else CHR ''1'')"
  have "no_collision ?h 64 {json_text (query_plan_payload (sample_plan [])), json_text (query_plan_payload (sample_plan [Date 2024 2 29]))}"
    by (auto simp: no_collision_def inj_on_def split: if_splits)
  from query_plan_checksum_identifies[OF sample_plan_ok this] show ?thesis
    by (simp add: query_plan_content_def sample_plan_def)
qed

end
