(* ===== verification/Plan_Contract.thy ===== *)
theory Plan_Contract
  imports Query_Plan
begin

text \<open>
  The execution-side contracts of \<open>contracts.py\<close>: the four kinds of plan step, the typed dependency
  graph \<open>ExecutionPlan\<close> with its validator, and the records an execution emits.  A constructor takes
  the fields as given and returns them when every check passes.
\<close>

section \<open>Identifiers\<close>

text \<open>\<open>^[a-z][a-z0-9_-]{0,63}$\<close>\<close>

definition plan_step_id :: "string \<Rightarrow> bool" where
  "plan_step_id s \<longleftrightarrow> (case s of [] \<Rightarrow> False
     | c # cs \<Rightarrow> is_lower c \<and> length cs \<le> 63 \<and>
         list_all (\<lambda>d. is_lower d \<or> is_digit d \<or> d \<in> {CHR ''_'', CHR ''-''}) cs)"

definition is_derived_output_id :: "string \<Rightarrow> bool" where
  "is_derived_output_id s \<longleftrightarrow> take 6 s = ''adhoc_'' \<and> length s = 38 \<and> list_all is_hex (drop 6 s)"

text \<open>\<open>str.split(sep)\<close> for one separator character: always at least one part.\<close>

fun split_on :: "char \<Rightarrow> string \<Rightarrow> string list" where
  "split_on sep [] = [[]]"
| "split_on sep (c # cs) =
     (if c = sep then [] # split_on sep cs
      else (c # hd (split_on sep cs)) # tl (split_on sep cs))"

text \<open>A segment of a reference: \<open>[A-Za-z_][A-Za-z0-9_-]{0,63}\<close> or \<open>[0-9]+\<close>.\<close>

definition ref_segment :: "string \<Rightarrow> bool" where
  "ref_segment s \<longleftrightarrow> (case s of [] \<Rightarrow> False
     | c # cs \<Rightarrow> list_all is_digit s \<or>
         (is_lower c \<or> is_upper c \<or> c = CHR ''_'') \<and> length cs \<le> 63 \<and>
         list_all (\<lambda>d. is_lower d \<or> is_upper d \<or> is_digit d \<or> d \<in> {CHR ''_'', CHR ''-''}) cs)"

definition plan_input_ref :: "string \<Rightarrow> bool" where
  "plan_input_ref s \<longleftrightarrow> length s \<le> 256 \<and>
     (case split_on CHR ''.'' s of [] \<Rightarrow> False | p # ps \<Rightarrow> plan_step_id p \<and> list_all ref_segment ps)"

text \<open>\<open>ref.split(".", 1)[0]\<close>.\<close>

definition ref_root :: "string \<Rightarrow> string" where
  "ref_root s = hd (split_on CHR ''.'' s)"

text \<open>The number of present values: \<open>sum(1 for item in values if item is not None)\<close>.\<close>

definition declared :: "bool list \<Rightarrow> nat" where
  "declared present = length (filter id present)"

definition all_or_none :: "bool list \<Rightarrow> bool" where
  "all_or_none present \<longleftrightarrow> declared present \<in> {0, length present}"

section \<open>Steps\<close>

record fetch_metric_step =
  fm_step_id :: string
  fm_metric_keys :: "string list"
  fm_depends_on :: "string list"
  fm_calculation_input_role :: "string option"
  fm_calculation_binding_checksum :: "string option"
  fm_calculation_output_metric_key :: "string option"
  fm_ad_hoc_input_role :: "string option"
  fm_ad_hoc_spec_checksum :: "string option"
  fm_ad_hoc_derived_output_id :: "string option"

definition fm_canonical :: "fetch_metric_step \<Rightarrow> bool list" where
  "fm_canonical s = [fm_calculation_input_role s \<noteq> None, fm_calculation_binding_checksum s \<noteq> None,
     fm_calculation_output_metric_key s \<noteq> None]"

definition fm_ad_hoc :: "fetch_metric_step \<Rightarrow> bool list" where
  "fm_ad_hoc s = [fm_ad_hoc_input_role s \<noteq> None, fm_ad_hoc_spec_checksum s \<noteq> None, fm_ad_hoc_derived_output_id s \<noteq> None]"

definition depends_on_bad :: "nat \<Rightarrow> string list \<Rightarrow> bool" where
  "depends_on_bad lo ds \<longleftrightarrow> \<not> length_in lo 16 ds \<or> \<not> list_all plan_step_id ds"

definition mk_fetch_metric_step :: "fetch_metric_step \<Rightarrow> fetch_metric_step result" where
  "mk_fetch_metric_step s = validated
     [(\<not> plan_step_id (fm_step_id s), FieldError ''step_id''),
      (\<not> length_in 1 16 (fm_metric_keys s), FieldError ''metric_keys''),
      (depends_on_bad 0 (fm_depends_on s), FieldError ''depends_on''),
      (opt_bad role_name (fm_calculation_input_role s), FieldError ''calculation_input_role''),
      (opt_bad is_hex64 (fm_calculation_binding_checksum s), FieldError ''calculation_binding_checksum''),
      (opt_bad (length_in 1 256) (fm_calculation_output_metric_key s), FieldError ''calculation_output_metric_key''),
      (opt_bad role_name (fm_ad_hoc_input_role s), FieldError ''ad_hoc_input_role''),
      (opt_bad is_hex64 (fm_ad_hoc_spec_checksum s), FieldError ''ad_hoc_spec_checksum''),
      (opt_bad is_derived_output_id (fm_ad_hoc_derived_output_id s), FieldError ''ad_hoc_derived_output_id''),
      (\<not> distinct (fm_metric_keys s), ValueError ''fetch metric values must be unique''),
      (\<not> distinct (fm_depends_on s), ValueError ''fetch metric values must be unique''),
      (\<not> all_or_none (fm_canonical s), ValueError ''dependency fetch provenance must be all-or-none''),
      (\<not> all_or_none (fm_ad_hoc s), ValueError ''ad hoc dependency fetch provenance must be all-or-none''),
      (declared (fm_canonical s) \<noteq> 0 \<and> declared (fm_ad_hoc s) \<noteq> 0,
       ValueError ''canonical and ad hoc dependency provenance are mutually exclusive''),
      ((declared (fm_canonical s) \<noteq> 0 \<or> declared (fm_ad_hoc s) \<noteq> 0) \<and> length (fm_metric_keys s) \<noteq> 1,
       ValueError ''dependency fetch must project exactly one metric key'')] s"

record trusted_calculation_step =
  tc_step_id :: string
  tc_template_id :: string
  tc_input_refs :: "(string, string) dict"
  tc_depends_on :: "string list"
  tc_template_version :: "string option"
  tc_template_checksum :: "string option"
  tc_binding_checksum :: "string option"
  tc_output_metric_key :: "string option"

definition input_refs_bad :: "(string, string) dict \<Rightarrow> bool" where
  "input_refs_bad d \<longleftrightarrow> \<not> dict_ok d \<or> \<not> length_in 1 32 d \<or> \<not> list_all (\<lambda>(k, r). role_name k \<and> plan_input_ref r) d"

definition mk_trusted_calculation_step :: "trusted_calculation_step \<Rightarrow> trusted_calculation_step result" where
  "mk_trusted_calculation_step s = validated
     [(\<not> plan_step_id (tc_step_id s), FieldError ''step_id''),
      (\<not> calculation_id_ok (tc_template_id s), FieldError ''template_id''),
      (input_refs_bad (tc_input_refs s), FieldError ''input_refs''),
      (depends_on_bad 1 (tc_depends_on s), FieldError ''depends_on''),
      (opt_bad (length_in 1 64) (tc_template_version s), FieldError ''template_version''),
      (opt_bad is_hex64 (tc_template_checksum s), FieldError ''template_checksum''),
      (opt_bad is_hex64 (tc_binding_checksum s), FieldError ''binding_checksum''),
      (opt_bad (length_in 1 256) (tc_output_metric_key s), FieldError ''output_metric_key''),
      (\<not> distinct (tc_depends_on s), ValueError ''calculation dependencies must be unique''),
      (\<not> all_or_none [tc_template_version s \<noteq> None, tc_template_checksum s \<noteq> None, tc_binding_checksum s \<noteq> None,
          tc_output_metric_key s \<noteq> None], ValueError ''calculation binding provenance must be all-or-none'')] s"

record ad_hoc_calculation_step =
  ah_step_id :: string
  ah_calculation_spec :: calculation_spec
  ah_execution_binding :: calculation_execution_binding
  ah_input_refs :: "(string, string) dict"
  ah_depends_on :: "string list"
  ah_derived_output_id :: string

text \<open>The nested specification and binding are validated values of their own classes.\<close>

definition mk_ad_hoc_calculation_step ::
  "(string \<Rightarrow> string) \<Rightarrow> ad_hoc_calculation_step \<Rightarrow> ad_hoc_calculation_step result" where
  "mk_ad_hoc_calculation_step sha256 s =
     (let spec = ah_calculation_spec s; b = ah_execution_binding s in
      validated
        [(\<not> plan_step_id (ah_step_id s), FieldError ''step_id''),
         (mk_calculation_spec spec_fields spec \<noteq> Inr spec, FieldError ''calculation_spec''),
         (mk_execution_binding (eb_calculation_id b) (eb_spec_checksum b) (eb_parameters b) \<noteq> Inr b, FieldError ''execution_binding''),
         (input_refs_bad (ah_input_refs s), FieldError ''input_refs''),
         (depends_on_bad 1 (ah_depends_on s), FieldError ''depends_on''),
         (\<not> is_derived_output_id (ah_derived_output_id s), FieldError ''derived_output_id''),
         (\<not> distinct (ah_depends_on s), ValueError ''ad hoc calculation dependencies must be unique''),
         (eb_calculation_id b \<noteq> cs_calculation_id spec, ValueError ''ad hoc execution binding spec identity mismatch''),
         (eb_spec_checksum b \<noteq> spec_checksum sha256 spec, ValueError ''ad hoc execution binding spec checksum mismatch''),
         (binding_failures sha256 b spec \<noteq> [], ValueError ''ad hoc execution binding is not contract-valid''),
         (case referenced_input_roles (cs_expression spec) of
            Inl _ \<Rightarrow> True | Inr roles \<Rightarrow> set (map fst (ah_input_refs s)) \<noteq> set roles,
          ValueError ''ad hoc input refs must match the expression input roles exactly''),
         (ah_derived_output_id s \<noteq> derived_output_id sha256 spec b,
          ValueError ''ad hoc derived output id must derive from the spec and binding'')] s)"

record verify_step =
  vs_step_id :: string
  vs_input_refs :: "string list"
  vs_invariant_ids :: "string list"
  vs_depends_on :: "string list"

definition mk_verify_step :: "verify_step \<Rightarrow> verify_step result" where
  "mk_verify_step s = validated
     [(\<not> plan_step_id (vs_step_id s), FieldError ''step_id''),
      (\<not> length_in 1 32 (vs_input_refs s) \<or> \<not> list_all plan_input_ref (vs_input_refs s), FieldError ''input_refs''),
      (\<not> length_in 1 32 (vs_invariant_ids s), FieldError ''invariant_ids''),
      (depends_on_bad 1 (vs_depends_on s), FieldError ''depends_on''),
      (\<not> distinct (vs_input_refs s), ValueError ''verify values must be unique''),
      (\<not> distinct (vs_invariant_ids s), ValueError ''verify values must be unique''),
      (\<not> distinct (vs_depends_on s), ValueError ''verify values must be unique'')] s"

datatype plan_step =
    FetchMetric fetch_metric_step
  | TrustedCalculation trusted_calculation_step
  | AdHocCalculation ad_hoc_calculation_step
  | Verify verify_step

fun step_id :: "plan_step \<Rightarrow> string" where
  "step_id (FetchMetric s) = fm_step_id s"
| "step_id (TrustedCalculation s) = tc_step_id s"
| "step_id (AdHocCalculation s) = ah_step_id s"
| "step_id (Verify s) = vs_step_id s"

fun depends_on :: "plan_step \<Rightarrow> string list" where
  "depends_on (FetchMetric s) = fm_depends_on s"
| "depends_on (TrustedCalculation s) = tc_depends_on s"
| "depends_on (AdHocCalculation s) = ah_depends_on s"
| "depends_on (Verify s) = vs_depends_on s"

fun step_refs :: "plan_step \<Rightarrow> string list" where
  "step_refs (TrustedCalculation s) = map snd (tc_input_refs s)"
| "step_refs (AdHocCalculation s) = map snd (ah_input_refs s)"
| "step_refs (Verify s) = vs_input_refs s"
| "step_refs (FetchMetric _) = []"

fun step_bad :: "(string \<Rightarrow> string) \<Rightarrow> plan_step \<Rightarrow> bool" where
  "step_bad h (FetchMetric s) = (mk_fetch_metric_step s \<noteq> Inr s)"
| "step_bad h (TrustedCalculation s) = (mk_trusted_calculation_step s \<noteq> Inr s)"
| "step_bad h (AdHocCalculation s) = (mk_ad_hoc_calculation_step h s \<noteq> Inr s)"
| "step_bad h (Verify s) = (mk_verify_step s \<noteq> Inr s)"

section \<open>Execution plans\<close>

record execution_plan =
  ep_query_plan_sha256 :: string
  ep_semantic_release_id :: string
  ep_schema_snapshot_id :: string
  ep_policy_version :: string
  ep_steps :: "plan_step list"

text \<open>The checks of the loop over the references of one step.\<close>

fun ref_failure :: "string list \<Rightarrow> string list \<Rightarrow> string list \<Rightarrow> exn option" where
  "ref_failure known current [] = None"
| "ref_failure known current (r # rs) =
     (let root = ref_root r in
      if root \<notin> set known then Some (ValueError (''execution plan input ref is unknown: '' @ root))
      else if root \<notin> set current then Some (ValueError (''execution plan input ref must be declared as a dependency: '' @ root))
      else ref_failure known current rs)"

text \<open>The loop over the steps.\<close>

fun step_failure :: "string list \<Rightarrow> plan_step list \<Rightarrow> exn option" where
  "step_failure known [] = None"
| "step_failure known (s # ss) =
     (let current = depends_on s; unknown = filter (\<lambda>d. d \<notin> set known) current in
      if step_id s \<in> set current then Some (ValueError ''execution plan step cannot depend on itself'')
      else if unknown \<noteq> [] then Some (ValueError (''execution plan dependency is unknown: '' @ hd (sort unknown)))
      else case ref_failure known current (step_refs s) of
        Some e \<Rightarrow> Some e
      | None \<Rightarrow> step_failure known ss)"

text \<open>The ids whose dependencies are all resolved, sorted.\<close>

definition ready_ids :: "string list \<Rightarrow> (string \<times> string list) list \<Rightarrow> string list" where
  "ready_ids resolved pending = sort (map fst (filter (\<lambda>(i, ds). set ds \<subseteq> set resolved) pending))"

lemma ready_ids_in: "i \<in> set (ready_ids resolved pending) \<Longrightarrow> i \<in> fst ` set pending"
  by (auto simp: ready_ids_def)

lemma filter_fst_shorter:
  assumes "i \<in> set ready" "i \<in> fst ` set pending"
  shows "length (filter (\<lambda>(i, ds). i \<notin> set ready) pending) < length pending"
proof -
  obtain p where "p \<in> set pending" "fst p = i" using assms(2) by auto
  then show ?thesis using assms(1) by (intro length_filter_less[of p]) (auto split: prod.splits)
qed

function resolve_loop :: "string list \<Rightarrow> (string \<times> string list) list \<Rightarrow> string list result" where
  "resolve_loop resolved pending =
     (if pending = [] then Inr resolved
      else let ready = ready_ids resolved pending in
        if ready = [] then Inl (ValueError ''execution plan dependencies contain a cycle'')
        else resolve_loop (resolved @ ready) (filter (\<lambda>(i, ds). i \<notin> set ready) pending))"
  by pat_completeness auto

termination
proof (relation "measure (\<lambda>(resolved, pending). length pending)")
  fix resolved :: "string list" and pending :: "(string \<times> string list) list" and ready
  assume "ready = ready_ids resolved pending" "ready \<noteq> []"
  then have "hd ready \<in> set ready" "hd ready \<in> fst ` set pending"
    using ready_ids_in[of "hd ready" resolved pending] by simp_all
  from filter_fst_shorter[OF this]
  show "((resolved @ ready, filter (\<lambda>(i, ds). i \<notin> set ready) pending), (resolved, pending))
    \<in> measure (\<lambda>(resolved, pending). length pending)" by simp
qed simp

declare resolve_loop.simps [simp del]

definition dependency_table :: "plan_step list \<Rightarrow> (string \<times> string list) list" where
  "dependency_table ss = map (\<lambda>s. (step_id s, depends_on s)) ss"

definition validate_typed_dag :: "execution_plan \<Rightarrow> execution_plan result" where
  "validate_typed_dag p =
     (let ids = map step_id (ep_steps p) in
      if \<not> distinct ids then Inl (ValueError ''execution plan step ids must be unique'')
      else case step_failure ids (ep_steps p) of
        Some e \<Rightarrow> Inl e
      | None \<Rightarrow>
          (case resolve_loop [] (dependency_table (ep_steps p)) of
             Inl e \<Rightarrow> Inl e
           | Inr _ \<Rightarrow> Inr p))"

definition mk_execution_plan :: "(string \<Rightarrow> string) \<Rightarrow> execution_plan \<Rightarrow> execution_plan result" where
  "mk_execution_plan sha256 p =
     (case validated
        [(\<not> is_hex64 (ep_query_plan_sha256 p), FieldError ''query_plan_sha256''),
         (\<not> length_in 1 128 (ep_policy_version p), FieldError ''policy_version''),
         (\<not> length_in 1 16 (ep_steps p) \<or> list_ex (step_bad sha256) (ep_steps p), FieldError ''steps'')] p of
        Inl e \<Rightarrow> Inl e
      | Inr q \<Rightarrow> validate_typed_dag q)"

text \<open>\<open>checksum\<close>: the canonical dump of the plan, every step with its class's fields.\<close>

definition refs_json :: "(string, string) dict \<Rightarrow> json" where
  "refs_json d = jobj (map (\<lambda>(k, r). (k, JStr r)) d)"

fun step_json :: "plan_step \<Rightarrow> json" where
  "step_json (FetchMetric s) = jobj
     [(''kind'', JStr ''fetch_metric''), (''step_id'', JStr (fm_step_id s)), (''metric_keys'', strings_json (fm_metric_keys s)),
      (''depends_on'', strings_json (fm_depends_on s)), (''calculation_input_role'', jopt JStr (fm_calculation_input_role s)),
      (''calculation_binding_checksum'', jopt JStr (fm_calculation_binding_checksum s)),
      (''calculation_output_metric_key'', jopt JStr (fm_calculation_output_metric_key s)),
      (''ad_hoc_input_role'', jopt JStr (fm_ad_hoc_input_role s)), (''ad_hoc_spec_checksum'', jopt JStr (fm_ad_hoc_spec_checksum s)),
      (''ad_hoc_derived_output_id'', jopt JStr (fm_ad_hoc_derived_output_id s))]"
| "step_json (TrustedCalculation s) = jobj
     [(''kind'', JStr ''trusted_calculation''), (''step_id'', JStr (tc_step_id s)), (''template_id'', JStr (tc_template_id s)),
      (''input_refs'', refs_json (tc_input_refs s)), (''depends_on'', strings_json (tc_depends_on s)),
      (''template_version'', jopt JStr (tc_template_version s)), (''template_checksum'', jopt JStr (tc_template_checksum s)),
      (''binding_checksum'', jopt JStr (tc_binding_checksum s)), (''output_metric_key'', jopt JStr (tc_output_metric_key s))]"
| "step_json (AdHocCalculation s) = jobj
     [(''kind'', JStr ''ad_hoc_calculation''), (''step_id'', JStr (ah_step_id s)),
      (''calculation_spec'', spec_json (ah_calculation_spec s)), (''execution_binding'', binding_json (ah_execution_binding s)),
      (''input_refs'', refs_json (ah_input_refs s)), (''depends_on'', strings_json (ah_depends_on s)),
      (''derived_output_id'', JStr (ah_derived_output_id s))]"
| "step_json (Verify s) = jobj
     [(''kind'', JStr ''verify''), (''step_id'', JStr (vs_step_id s)), (''input_refs'', strings_json (vs_input_refs s)),
      (''invariant_ids'', strings_json (vs_invariant_ids s)), (''depends_on'', strings_json (vs_depends_on s))]"

definition execution_plan_json :: "execution_plan \<Rightarrow> json" where
  "execution_plan_json p = jobj
     [(''query_plan_sha256'', JStr (ep_query_plan_sha256 p)), (''semantic_release_id'', JStr (ep_semantic_release_id p)),
      (''schema_snapshot_id'', JStr (ep_schema_snapshot_id p)), (''policy_version'', JStr (ep_policy_version p)),
      (''steps'', JList (map step_json (ep_steps p)))]"

definition execution_plan_checksum :: "(string \<Rightarrow> string) \<Rightarrow> execution_plan \<Rightarrow> string" where
  "execution_plan_checksum sha256 p = checksum_of sha256 (execution_plan_json p)"

section \<open>Validation and execution records\<close>

datatype validation_outcome = VAllow | VDeny | VClarify | VApproval

record plan_validation_issue =
  vi_code :: string
  vi_path :: string
  vi_safe_message :: string

definition mk_plan_validation_issue :: "plan_validation_issue \<Rightarrow> plan_validation_issue result" where
  "mk_plan_validation_issue i = validated
     [(\<not> length_in 1 128 (vi_code i), FieldError ''code''), (\<not> length_in 0 256 (vi_path i), FieldError ''path''),
      (\<not> length_in 1 512 (vi_safe_message i), FieldError ''safe_message'')] i"

record plan_validation_record =
  vr_policy_version :: string
  vr_policy_checksum :: string
  vr_outcome :: validation_outcome
  vr_query_plan_sha256 :: string
  vr_context_checksum :: string
  vr_execution_plan_sha256 :: "string option"
  vr_issues :: "plan_validation_issue list"

definition mk_plan_validation_record :: "plan_validation_record \<Rightarrow> plan_validation_record result" where
  "mk_plan_validation_record r = validated
     [(\<not> length_in 1 128 (vr_policy_version r), FieldError ''policy_version''),
      (\<not> is_hex64 (vr_policy_checksum r), FieldError ''policy_checksum''),
      (\<not> is_hex64 (vr_query_plan_sha256 r), FieldError ''query_plan_sha256''),
      (\<not> is_hex64 (vr_context_checksum r), FieldError ''context_checksum''),
      (opt_bad is_hex64 (vr_execution_plan_sha256 r), FieldError ''execution_plan_sha256''),
      (\<not> length_in 0 32 (vr_issues r) \<or> list_ex (\<lambda>i. mk_plan_validation_issue i \<noteq> Inr i) (vr_issues r), FieldError ''issues''),
      (vr_outcome r = VAllow \<and> vr_issues r \<noteq> [], ValueError ''allow validation record cannot contain issues''),
      (vr_outcome r \<noteq> VAllow \<and> vr_issues r = [], ValueError ''non-allow validation record must contain issues'')] r"

datatype step_kind = KFetchMetric | KTrustedCalculation | KAdHocCalculation | KVerify

fun kind_of_step :: "plan_step \<Rightarrow> step_kind" where
  "kind_of_step (FetchMetric _) = KFetchMetric"
| "kind_of_step (TrustedCalculation _) = KTrustedCalculation"
| "kind_of_step (AdHocCalculation _) = KAdHocCalculation"
| "kind_of_step (Verify _) = KVerify"

datatype freshness = Fresh | Stale | UnknownFreshness
datatype source_kind = ApprovedAggregate | ApprovedDetail
datatype selection_reason = FreshApprovedAggregate | ApprovedDetailFallback | ApprovedDetailSelected

text \<open>The evidence of the query gateway that a step receipt copies.\<close>

record gateway_evidence =
  ge_rowset_sha256 :: "string option"
  ge_data_as_of :: "nat option"
  ge_freshness_status :: freshness
  ge_source_kind :: "source_kind option"
  ge_source_id :: "string option"
  ge_selection_reason :: "selection_reason option"
  ge_source_degradation :: "string list"
  ge_source_checkpoint :: "string option"
  ge_semantic_signature :: "string option"

definition no_evidence :: gateway_evidence where
  "no_evidence = \<lparr>ge_rowset_sha256 = None, ge_data_as_of = None, ge_freshness_status = UnknownFreshness, ge_source_kind = None,
     ge_source_id = None, ge_selection_reason = None, ge_source_degradation = [], ge_source_checkpoint = None,
     ge_semantic_signature = None\<rparr>"

definition evidence_bad :: "gateway_evidence \<Rightarrow> bool" where
  "evidence_bad g \<longleftrightarrow> opt_bad is_hex64 (ge_rowset_sha256 g) \<or> opt_bad calculation_id_ok (ge_source_id g) \<or>
     opt_bad calculation_id_ok (ge_source_checkpoint g) \<or> opt_bad is_hex64 (ge_semantic_signature g)"

record plan_step_receipt =
  sr_step_id :: string
  sr_kind :: step_kind
  sr_succeeded :: bool
  sr_elapsed_ms :: nat
  sr_output_digest :: "string option"
  sr_evidence :: gateway_evidence
  sr_template_id :: "string option"
  sr_template_version :: "string option"
  sr_binding_checksum :: "string option"
  sr_output_metric_key :: "string option"
  sr_calculation_spec_checksum :: "string option"
  sr_execution_binding_checksum :: "string option"
  sr_derived_output_id :: "string option"
  sr_ad_hoc_scope :: bool
  sr_error_code :: "string option"

definition ad_hoc_provenance :: "plan_step_receipt \<Rightarrow> bool list" where
  "ad_hoc_provenance r = [sr_calculation_spec_checksum r \<noteq> None, sr_execution_binding_checksum r \<noteq> None,
     sr_derived_output_id r \<noteq> None, sr_ad_hoc_scope r]"

definition mk_plan_step_receipt :: "plan_step_receipt \<Rightarrow> plan_step_receipt result" where
  "mk_plan_step_receipt r =
     (let ad_hoc = sr_kind r = KAdHocCalculation; n = declared (ad_hoc_provenance r) in
      validated
        [(\<not> plan_step_id (sr_step_id r), FieldError ''step_id''),
         (opt_bad is_hex64 (sr_output_digest r), FieldError ''output_digest''),
         (evidence_bad (sr_evidence r), FieldError ''evidence''),
         (opt_bad (length_in 1 128) (sr_template_id r), FieldError ''template_id''),
         (opt_bad (length_in 1 64) (sr_template_version r), FieldError ''template_version''),
         (opt_bad is_hex64 (sr_binding_checksum r), FieldError ''binding_checksum''),
         (opt_bad (length_in 1 256) (sr_output_metric_key r), FieldError ''output_metric_key''),
         (opt_bad is_hex64 (sr_calculation_spec_checksum r), FieldError ''calculation_spec_checksum''),
         (opt_bad is_hex64 (sr_execution_binding_checksum r), FieldError ''execution_binding_checksum''),
         (opt_bad is_derived_output_id (sr_derived_output_id r), FieldError ''derived_output_id''),
         (opt_bad (length_in 1 128) (sr_error_code r), FieldError ''error_code''),
         (sr_succeeded r \<and> sr_error_code r \<noteq> None, ValueError ''successful step cannot contain an error code''),
         (sr_succeeded r \<and> sr_output_digest r = None, ValueError ''successful step requires an output digest''),
         (\<not> sr_succeeded r \<and> sr_error_code r = None, ValueError ''failed step requires an error code''),
         (\<not> sr_succeeded r \<and> sr_output_digest r \<noteq> None, ValueError ''failed step cannot contain an output digest''),
         (ad_hoc \<and> sr_succeeded r \<and> n \<noteq> 4, ValueError ''ad hoc receipt requires full noncanonical provenance''),
         (ad_hoc \<and> \<not> sr_succeeded r \<and> n \<noteq> 0, ValueError ''failed ad hoc receipt must not carry provenance''),
         (ad_hoc \<and> (sr_output_metric_key r \<noteq> None \<or> sr_binding_checksum r \<noteq> None \<or> sr_template_id r \<noteq> None \<or>
             sr_template_version r \<noteq> None), ValueError ''ad hoc receipt must not carry canonical provenance''),
         (\<not> ad_hoc \<and> n \<noteq> 0, ValueError ''non-ad-hoc receipt must not carry ad hoc provenance'')] r)"

datatype execution_status = ExecSucceeded | ExecFailed | ExecDeadlineExceeded

record plan_execution_record =
  xr_execution_plan_checksum :: string
  xr_status :: execution_status
  xr_step_receipts :: "plan_step_receipt list"
  xr_output_step_ids :: "string list"
  xr_stop_reason :: "string option"

definition mk_plan_execution_record :: "plan_execution_record \<Rightarrow> plan_execution_record result" where
  "mk_plan_execution_record r =
     (let rs = xr_step_receipts r in
      validated
        [(\<not> is_hex64 (xr_execution_plan_checksum r), FieldError ''execution_plan_checksum''),
         (\<not> length_in 0 16 rs, FieldError ''step_receipts''),
         (\<not> length_in 0 16 (xr_output_step_ids r) \<or> \<not> list_all plan_step_id (xr_output_step_ids r), FieldError ''output_step_ids''),
         (opt_bad (length_in 1 128) (xr_stop_reason r), FieldError ''stop_reason''),
         (xr_status r = ExecSucceeded \<and> xr_stop_reason r \<noteq> None, ValueError ''successful execution cannot contain a stop reason''),
         (xr_status r \<noteq> ExecSucceeded \<and> xr_stop_reason r = None, ValueError ''failed execution requires a stop reason''),
         (\<not> distinct (map sr_step_id rs), ValueError ''execution step receipts must be unique''),
         (xr_output_step_ids r \<noteq> map sr_step_id (filter sr_succeeded rs),
          ValueError ''execution outputs must match successful step receipts''),
         (xr_status r = ExecSucceeded \<and> (rs = [] \<or> list_ex (\<lambda>x. \<not> sr_succeeded x) rs),
          ValueError ''successful execution requires only successful step receipts'')] r)"

section \<open>The validator accepts exactly the acyclic graphs\<close>

text \<open>\<open>before ds i out\<close>: everything in \<open>ds\<close> stands before \<open>i\<close> in \<open>out\<close>.\<close>

definition before :: "string list \<Rightarrow> string \<Rightarrow> string list \<Rightarrow> bool" where
  "before ds i out \<longleftrightarrow> (\<exists>us vs. out = us @ i # vs \<and> set ds \<subseteq> set us)"

definition table_edges :: "(string \<times> string list) list \<Rightarrow> (string \<times> string) set" where
  "table_edges t = {(d, i). \<exists>ds. (i, ds) \<in> set t \<and> d \<in> set ds}"

lemma before_append: "before ds i out \<Longrightarrow> before ds i (out @ rest)"
  unfolding before_def by (metis append.assoc append_Cons)

lemma in_ready: "i \<in> set (ready_ids resolved pending) \<longleftrightarrow> (\<exists>ds. (i, ds) \<in> set pending \<and> set ds \<subseteq> set resolved)"
  by (auto simp: ready_ids_def image_iff Bex_def)

lemma ready_pending:
  assumes "distinct (map fst pending)"
  shows "filter (\<lambda>(i, ds). i \<notin> set (ready_ids resolved pending)) pending =
    filter (\<lambda>(i, ds). \<not> set ds \<subseteq> set resolved) pending"
proof (rule filter_cong[OF refl])
  fix x assume x: "x \<in> set pending"
  have same: "ds = ds'" if "(i, ds) \<in> set pending" "(i, ds') \<in> set pending" for i ds ds'
    using that assms by (metis map_of_eq_Some_iff option.inject)
  show "(case x of (i, ds) \<Rightarrow> i \<notin> set (ready_ids resolved pending)) = (case x of (i, ds) \<Rightarrow> \<not> set ds \<subseteq> set resolved)"
    using x same by (cases x) (auto simp: in_ready)
qed

lemma mset_split_filter: "mset (map f (filter P xs)) + mset (map f (filter (\<lambda>x. \<not> P x) xs)) = mset (map f xs)"
  by (induction xs) auto

lemma resolve_loop_order:
  assumes "resolve_loop resolved pending = Inr out" "distinct (map fst pending)"
  shows "\<exists>ext. out = resolved @ ext \<and> mset ext = mset (map fst pending) \<and> (\<forall>(i, ds) \<in> set pending. before ds i out)"
  using assms
proof (induction resolved pending rule: resolve_loop.induct)
  case (1 resolved pending)
  let ?r = "ready_ids resolved pending" and ?P = "\<lambda>(i, ds). set ds \<subseteq> set resolved"
  let ?p = "filter (\<lambda>x. \<not> ?P x) pending"
  show ?case
  proof (cases "pending = []")
    case True
    then show ?thesis using 1(2) by (simp add: resolve_loop.simps)
  next
    case False
    have p: "filter (\<lambda>(i, ds). i \<notin> set ?r) pending = ?p"
      using ready_pending[OF 1(3)] by (simp add: case_prod_beta')
    have r: "?r \<noteq> []" "resolve_loop (resolved @ ?r) ?p = Inr out"
      using 1(2) False p by (simp_all add: resolve_loop.simps[of resolved] Let_def split: if_splits)
    have "distinct (map fst ?p)" using 1(3) by (simp add: distinct_map_filter)
    then obtain ext where ext: "out = (resolved @ ?r) @ ext" "mset ext = mset (map fst ?p)"
      "\<forall>(i, ds) \<in> set ?p. before ds i out"
      using 1(1)[OF False refl r(1)] r(2) p by auto
    have "before ds i out" if "(i, ds) \<in> set pending" "set ds \<subseteq> set resolved" for i ds
    proof -
      have "i \<in> set ?r" using that by (auto simp: in_ready)
      then obtain us vs where "?r = us @ i # vs" by (meson split_list)
      then have "out = (resolved @ us) @ i # (vs @ ext)" using ext(1) by simp
      then show ?thesis using that(2) unfolding before_def by fastforce
    qed
    moreover have "before ds i out" if "(i, ds) \<in> set pending" "\<not> set ds \<subseteq> set resolved" for i ds
      using ext(3) that by auto
    ultimately have "\<forall>(i, ds) \<in> set pending. before ds i out" by blast
    moreover have "mset (?r @ ext) = mset (map fst pending)"
      using ext(2) mset_split_filter[of fst ?P pending] by (simp add: ready_ids_def)
    ultimately show ?thesis using ext(1) by (intro exI[of _ "?r @ ext"]) simp
  qed
qed

lemma acyclic_ready:
  assumes "pending \<noteq> []" "acyclic (table_edges pending)" "\<forall>(i, ds) \<in> set pending. set ds \<subseteq> set resolved \<union> fst ` set pending"
  shows "ready_ids resolved pending \<noteq> []"
proof -
  have "table_edges pending \<subseteq> (\<Union>(i, ds) \<in> set pending. (\<lambda>d. (d, i)) ` set ds)" by (auto simp: table_edges_def)
  then have "finite (table_edges pending)" by (rule finite_subset) auto
  then have "wf (table_edges pending)" using assms(2) by (rule finite_acyclic_wf)
  moreover have "fst (hd pending) \<in> fst ` set pending" using assms(1) by simp
  ultimately obtain i where i: "i \<in> fst ` set pending" "\<And>d. (d, i) \<in> table_edges pending \<Longrightarrow> d \<notin> fst ` set pending"
    by (rule wfE_min) blast
  then obtain ds where ds: "(i, ds) \<in> set pending" by auto
  have "set ds \<subseteq> set resolved" using i(2) ds assms(3) by (fastforce simp: table_edges_def)
  then have "i \<in> set (ready_ids resolved pending)" using ds by (auto simp: in_ready)
  then show ?thesis by auto
qed

lemma acyclic_resolves:
  assumes "acyclic (table_edges pending)" "\<forall>(i, ds) \<in> set pending. set ds \<subseteq> set resolved \<union> fst ` set pending"
  shows "is_ok (resolve_loop resolved pending)"
  using assms
proof (induction resolved pending rule: resolve_loop.induct)
  case (1 resolved pending)
  let ?r = "ready_ids resolved pending"
  let ?p = "filter (\<lambda>(i, ds). i \<notin> set ?r) pending"
  show ?case
  proof (cases "pending = []")
    case True
    then show ?thesis by (simp add: resolve_loop.simps)
  next
    case False
    have r: "?r \<noteq> []" by (rule acyclic_ready[OF False 1(2,3)])
    have "acyclic (table_edges ?p)" by (rule acyclic_subset[OF 1(2)]) (auto simp: table_edges_def)
    moreover have "set ds \<subseteq> set (resolved @ ?r) \<union> fst ` set ?p" if "(i, ds) \<in> set ?p" for i ds
    proof
      fix d assume "d \<in> set ds"
      then have "d \<in> set resolved \<or> d \<in> fst ` set pending" using 1(3) that by fastforce
      then show "d \<in> set (resolved @ ?r) \<union> fst ` set ?p" 
        by (cases "d \<in> set ?r") (auto simp: image_iff Bex_def)
    qed
    ultimately have "is_ok (resolve_loop (resolved @ ?r) ?p)" using 1(1)[OF False refl r] by blast
    then show ?thesis using False r by (simp add: resolve_loop.simps[of resolved] Let_def)
  qed
qed

lemma ordered_acyclic:
  assumes "distinct out" "\<forall>(i, ds) \<in> set t. before ds i out"
  shows "acyclic (table_edges t)"
proof -
  let ?idx = "\<lambda>x. length (takeWhile (\<lambda>y. y \<noteq> x) out)"
  have "table_edges t \<subseteq> measure ?idx"
  proof
    fix e assume "e \<in> table_edges t"
    then obtain d i ds where e: "e = (d, i)" "(i, ds) \<in> set t" "d \<in> set ds" by (auto simp: table_edges_def)
    then obtain us vs where out: "out = us @ i # vs" "d \<in> set us" using assms(2) by (fastforce simp: before_def)
    have "?idx i = length us" using assms(1) out(1) by (subst out(1)) (auto simp: takeWhile_append)
    moreover have "?idx d < length us"
    proof -
      obtain as bs where us: "us = as @ d # bs" "d \<notin> set as" using split_list_first[OF out(2)] by blast
      have "takeWhile (\<lambda>y. y \<noteq> d) (as @ d # bs @ i # vs) = as" using us(2) by (auto simp: takeWhile_append)
      then show ?thesis using out(1) us(1) by simp
    qed
    ultimately show "e \<in> measure ?idx" using e(1) by simp
  qed
  then show ?thesis by (rule acyclic_subset[OF wf_acyclic[OF wf_measure]])
qed

lemma ref_failure_None:
  "ref_failure known current rs = None \<longleftrightarrow> (\<forall>r \<in> set rs. ref_root r \<in> set known \<and> ref_root r \<in> set current)"
  by (induction rs) (auto simp: Let_def)

lemma step_failure_None:
  "step_failure known ss = None \<longleftrightarrow> (\<forall>s \<in> set ss. step_id s \<notin> set (depends_on s) \<and> set (depends_on s) \<subseteq> set known \<and>
     (\<forall>r \<in> set (step_refs s). ref_root r \<in> set (depends_on s)))"
proof (induction ss)
  case (Cons s ss)
  then show ?case using ref_failure_None[of known "depends_on s" "step_refs s"]
    by (cases "ref_failure known (depends_on s) (step_refs s)") (auto simp: Let_def filter_empty_conv)
qed simp

lemma table_simps [simp]:
  "map fst (dependency_table ss) = map step_id ss" "set (dependency_table ss) = (\<lambda>s. (step_id s, depends_on s)) ` set ss"
  by (simp_all add: dependency_table_def)

definition plan_edges :: "plan_step list \<Rightarrow> (string \<times> string) set" where
  "plan_edges ss = {(d, i). \<exists>s \<in> set ss. i = step_id s \<and> d \<in> set (depends_on s)}"

lemma plan_edges_table: "table_edges (dependency_table ss) = plan_edges ss"
  by (auto simp: table_edges_def plan_edges_def)

lemma validate_typed_dag_Inr:
  "validate_typed_dag p = Inr q \<longleftrightarrow> q = p \<and> distinct (map step_id (ep_steps p)) \<and>
     step_failure (map step_id (ep_steps p)) (ep_steps p) = None \<and> is_ok (resolve_loop [] (dependency_table (ep_steps p)))"
  by (auto simp: validate_typed_dag_def Let_def split: option.splits sum.splits)

text \<open>C28. The plan validator is exact: besides the field constraints it accepts an execution plan if and only
  if the step ids are unique, every dependency is a step of the plan, every input reference starts
  at a declared dependency, and the dependency relation is acyclic.\<close>

theorem typed_dag_accepts_iff:
  "is_ok (mk_execution_plan h p) \<longleftrightarrow>
     is_hex64 (ep_query_plan_sha256 p) \<and> length_in 1 128 (ep_policy_version p) \<and> length_in 1 16 (ep_steps p) \<and>
     \<not> list_ex (step_bad h) (ep_steps p) \<and> distinct (map step_id (ep_steps p)) \<and>
     (\<forall>s \<in> set (ep_steps p). set (depends_on s) \<subseteq> step_id ` set (ep_steps p) \<and>
        (\<forall>r \<in> set (step_refs s). ref_root r \<in> set (depends_on s))) \<and>
     acyclic (plan_edges (ep_steps p))"
proof -
  let ?ss = "ep_steps p" let ?t = "dependency_table ?ss"
  have noself: "acyclic (plan_edges ?ss) \<Longrightarrow> s \<in> set ?ss \<Longrightarrow> step_id s \<notin> set (depends_on s)" for s
    by (auto simp: acyclic_def plan_edges_def)
  have "is_ok (resolve_loop [] ?t) \<longleftrightarrow> acyclic (plan_edges ?ss)"
    if d: "distinct (map step_id ?ss)" and known: "\<forall>s \<in> set ?ss. set (depends_on s) \<subseteq> step_id ` set ?ss"
  proof
    assume "is_ok (resolve_loop [] ?t)"
    then obtain out where out: "resolve_loop [] ?t = Inr out" by blast
    obtain ext where ext: "out = ext" "mset ext = mset (map fst ?t)" "\<forall>(i, ds) \<in> set ?t. before ds i out"
      using resolve_loop_order[OF out] d by auto
    have "distinct out" using ext(1,2) d by (metis mset_eq_imp_distinct_iff table_simps(1))
    from ordered_acyclic[OF this ext(3)] show "acyclic (plan_edges ?ss)" by (simp add: plan_edges_table)
  next
    assume "acyclic (plan_edges ?ss)"
    then show "is_ok (resolve_loop [] ?t)" using known
      by (intro acyclic_resolves) (auto simp: plan_edges_table image_image)
  qed
  then show ?thesis using noself
    by (auto simp: mk_execution_plan_def validated_eval validate_typed_dag_Inr step_failure_None)
qed

section \<open>Two concrete plans\<close>

definition fetch_won :: fetch_metric_step where
  "fetch_won = \<lparr>fm_step_id = ''won'', fm_metric_keys = [''gold.won''], fm_depends_on = [], fm_calculation_input_role = None,
     fm_calculation_binding_checksum = None, fm_calculation_output_metric_key = None, fm_ad_hoc_input_role = None,
     fm_ad_hoc_spec_checksum = None, fm_ad_hoc_derived_output_id = None\<rparr>"

definition check_step :: "string \<Rightarrow> string \<Rightarrow> verify_step" where
  "check_step i d = \<lparr>vs_step_id = i, vs_input_refs = [d], vs_invariant_ids = [''typed_result_present''], vs_depends_on = [d]\<rparr>"

definition plan_with :: "plan_step list \<Rightarrow> execution_plan" where
  "plan_with ss = \<lparr>ep_query_plan_sha256 = replicate 64 CHR ''0'', ep_semantic_release_id = ''r'', ep_schema_snapshot_id = ''s'',
     ep_policy_version = ''p1'', ep_steps = ss\<rparr>"

definition demo_plan :: execution_plan where
  "demo_plan = plan_with [Verify (check_step ''check'' ''won''), FetchMetric fetch_won]"

definition cyclic_plan :: execution_plan where
  "cyclic_plan = plan_with [Verify (check_step ''a'' ''b''), Verify (check_step ''b'' ''a'')]"

lemma demo_plan_ok: "mk_execution_plan zero_hash demo_plan = Inr demo_plan"
  by code_simp

theorem typed_dag_accepts_iff_witness:
  "is_ok (mk_execution_plan zero_hash demo_plan) \<and> acyclic (plan_edges (ep_steps demo_plan)) \<and>
   \<not> is_ok (mk_execution_plan zero_hash cyclic_plan)"
proof (intro conjI)
  show ok: "is_ok (mk_execution_plan zero_hash demo_plan)" using demo_plan_ok by blast
  show "acyclic (plan_edges (ep_steps demo_plan))" using ok unfolding typed_dag_accepts_iff by blast
  have "(''a'', ''b'') \<in> plan_edges (ep_steps cyclic_plan)" "(''b'', ''a'') \<in> plan_edges (ep_steps cyclic_plan)"
    by (simp_all add: plan_edges_def cyclic_plan_def plan_with_def check_step_def)
  then have "(''a'', ''a'') \<in> (plan_edges (ep_steps cyclic_plan))\<^sup>+" by (meson trancl.simps)
  then show "\<not> is_ok (mk_execution_plan zero_hash cyclic_plan)" unfolding typed_dag_accepts_iff acyclic_def by blast
qed

end
