(* ===== verification/Plan_Executor.thy ===== *)
theory Plan_Executor
  imports Plan_Contract Calculation_Runtime
begin

text \<open>
  The bounded plan executor (\<open>orchestration/execution.py\<close>).  The runners it is constructed with are
  arguments: functions on a world state that say how each awaited call ends.  An awaited call returns,
  raises, is cancelled by the deadline of the run (\<open>asyncio.timeout\<close>), or is cancelled from outside.
  The clock is read from the world.
\<close>

section \<open>Runners\<close>

datatype 'a awaited = Returned 'a | Raised exn | DeadlineHit | Cancelled

text \<open>A Python float: a finite one is an exact rational.\<close>

datatype py_float = Finite rat | PosInf | NegInf | NotANumber

definition float_nonneg :: "py_float \<Rightarrow> bool" where
  "float_nonneg c = (case c of Finite q \<Rightarrow> 0 \<le> q | PosInf \<Rightarrow> True | _ \<Rightarrow> False)"

record execution_receipt =
  rc_datasource :: string
  rc_readonly_role :: string
  rc_elapsed_ms :: nat
  rc_row_count :: nat
  rc_plan_cost :: "py_float option"
  rc_estimated_rows :: "nat option"
  rc_masking_applied :: bool
  rc_masked_columns :: "string list"
  rc_error_taxonomy :: "string option"
  rc_sql_fingerprint :: string
  rc_policy_version :: string
  rc_allowed :: bool
  rc_authorization_revision :: "string option"
  rc_evidence :: gateway_evidence

definition mk_execution_receipt :: "execution_receipt \<Rightarrow> execution_receipt result" where
  "mk_execution_receipt r = validated
     [(opt_bad float_nonneg (rc_plan_cost r), FieldError ''plan_cost''),
      (opt_bad (length_in 1 256) (rc_authorization_revision r), FieldError ''authorization_revision''),
      (evidence_bad (rc_evidence r), FieldError ''evidence'')] r"

record 'p prepared_metric_step =
  pm_sql_fingerprint :: string
  pm_join_hops :: int
  pm_payload :: 'p
  pm_dependency_fetch :: bool

definition mk_prepared_metric_step :: "'p prepared_metric_step \<Rightarrow> 'p prepared_metric_step result" where
  "mk_prepared_metric_step p = validated
     [(\<not> is_hex64 (pm_sql_fingerprint p), ValueError ''prepared metric SQL fingerprint must be lowercase SHA-256''),
      (pm_join_hops p < 0, ValueError ''prepared metric join hops cannot be negative'')] p"

text \<open>A value a runner hands back: \<^const>\<open>None\<close> is an object that is not JSON.\<close>

type_synonym py_value = "json option"

record metric_step_result =
  ms_value :: py_value
  ms_receipt :: execution_receipt

record ('w, 'p) plan_runners =
  metric_prepare :: "fetch_metric_step \<Rightarrow> query_plan \<Rightarrow> context_bundle \<Rightarrow> 'w \<Rightarrow> 'p prepared_metric_step awaited \<times> 'w"
  metric_execute :: "'p prepared_metric_step \<Rightarrow> int \<Rightarrow> 'w \<Rightarrow> metric_step_result awaited \<times> 'w"
  trusted_calculation_runner :: "(trusted_calculation_step \<Rightarrow> (string, json) dict \<Rightarrow> 'w \<Rightarrow> py_value awaited \<times> 'w) option"
  ad_hoc_calculation_runner :: "(ad_hoc_calculation_step \<Rightarrow> (string, json) dict \<Rightarrow> 'w \<Rightarrow> py_value awaited \<times> 'w) option"
  result_verifier :: "verify_step \<Rightarrow> json list \<Rightarrow> 'w \<Rightarrow> py_value awaited \<times> 'w"
  rounded_ms :: "'w \<Rightarrow> 'w \<Rightarrow> int"

section \<open>Helpers\<close>

text \<open>\<open>PlanStepError(code)\<close>: the exception that constructing it raises or is.\<close>

definition plan_step_error :: "string \<Rightarrow> exn" where
  "plan_step_error code =
     (let normalized = strip code in
      if normalized = [] then ValueError ''plan step error code must be non-empty'' else PlanStepError normalized)"

text \<open>\<open>_json_value\<close>: the value survives when it is JSON without NaN or infinities.\<close>

definition json_value :: "py_value \<Rightarrow> json result" where
  "json_value v = (case v of Some j \<Rightarrow> if json_ok j then Inr j else Inl (PlanStepError ''plan_step_output_not_json'')
                   | None \<Rightarrow> Inl (PlanStepError ''plan_step_output_not_json''))"

definition json_digest :: "(string \<Rightarrow> string) \<Rightarrow> json \<Rightarrow> string" where
  "json_digest sha256 j = sha256 (json_text (canonical j))"

definition ref_missing :: exn where
  "ref_missing = PlanStepError ''execution_input_ref_missing''"

definition all_digits :: "string \<Rightarrow> bool" where
  "all_digits s \<longleftrightarrow> s \<noteq> [] \<and> list_all is_digit s"

fun walk_ref :: "json \<Rightarrow> string list \<Rightarrow> json result" where
  "walk_ref v [] = Inr v"
| "walk_ref (JObj kvs) (p # ps) = (case map_of kvs p of Some w \<Rightarrow> walk_ref w ps | None \<Rightarrow> Inl ref_missing)"
| "walk_ref (JList xs) (p # ps) =
     (if all_digits p \<and> nat_of_digits 0 p < length xs then walk_ref (xs ! nat_of_digits 0 p) ps else Inl ref_missing)"
| "walk_ref _ (p # ps) = Inl ref_missing"

definition resolve_ref :: "string \<Rightarrow> (string, json) dict \<Rightarrow> json result" where
  "resolve_ref reference outputs =
     (let parts = split_on CHR ''.'' reference in
      case dget outputs (hd parts) of None \<Rightarrow> Inl ref_missing | Some v \<Rightarrow> walk_ref v (tl parts))"

text \<open>The comprehensions over references: the first failing one raises.\<close>

fun resolve_refs :: "(string, json) dict \<Rightarrow> string list \<Rightarrow> json list result" where
  "resolve_refs outputs [] = Inr []"
| "resolve_refs outputs (r # rs) =
     (case resolve_ref r outputs of Inl e \<Rightarrow> Inl e
      | Inr v \<Rightarrow> (case resolve_refs outputs rs of Inl e \<Rightarrow> Inl e | Inr vs \<Rightarrow> Inr (v # vs)))"

definition resolve_inputs :: "(string, json) dict \<Rightarrow> (string, string) dict \<Rightarrow> (string, json) dict result" where
  "resolve_inputs outputs refs = map_sum id (zip (map fst refs)) (resolve_refs outputs (map snd refs))"

fun is_scalar :: "json \<Rightarrow> bool" where
  "is_scalar (JList _) = False"
| "is_scalar (JObj _) = False"
| "is_scalar _ = True"

text \<open>\<open>_ordered_steps\<close>.\<close>

definition steps_by_id :: "plan_step list \<Rightarrow> (string, plan_step) dict" where
  "steps_by_id ss = fold (\<lambda>s. dset (step_id s) s) ss []"

definition ready_steps :: "(string, plan_step) dict \<Rightarrow> string list \<Rightarrow> string list" where
  "ready_steps by_id resolved =
     sort (map fst (filter (\<lambda>(i, s). i \<notin> set resolved \<and> set (depends_on s) \<subseteq> set resolved) by_id))"

text \<open>The loop condition \<open>len(ordered) < len(by_id)\<close> is on the resolved ids, of which \<open>ordered\<close> is the image.\<close>

function order_loop :: "(string, plan_step) dict \<Rightarrow> string list \<Rightarrow> string list result" where
  "order_loop by_id resolved =
     (if length resolved < length by_id then
        let ready = ready_steps by_id resolved in
        if ready = [] then Inl (PlanStepError ''execution_plan_dependency_cycle'')
        else order_loop by_id (resolved @ ready)
      else Inr resolved)"
  by pat_completeness auto
termination
  by (relation "measure (\<lambda>(by_id, resolved). length by_id - length resolved)") (auto simp flip: length_greater_0_conv)

declare order_loop.simps [simp del]

definition ordered_steps :: "execution_plan \<Rightarrow> plan_step list result" where
  "ordered_steps p = map_sum id (map (\<lambda>i. the (dget (steps_by_id (ep_steps p)) i))) (order_loop (steps_by_id (ep_steps p)) [])"

section \<open>Calculation runner and verifier\<close>

text \<open>What the evaluator makes of a resolved JSON input: a float is no accepted numeric.\<close>

fun scalar_of_json :: "json \<Rightarrow> scalar option" where
  "scalar_of_json JNull = None"
| "scalar_of_json (JBool b) = Some (VBool b)"
| "scalar_of_json (JInt i) = Some (VInt i)"
| "scalar_of_json (JStr s) = Some (VStr s)"
| "scalar_of_json _ = Some VOther"

text \<open>\<open>RuntimeCalculationRunner.execute\<close>.\<close>

definition runtime_calculation_runner :: "ad_hoc_calculation_step \<Rightarrow> (string, json) dict \<Rightarrow> 'w \<Rightarrow> py_value awaited \<times> 'w" where
  "runtime_calculation_runner s inputs w =
     (case evaluate_calculation (ah_calculation_spec s) (map (\<lambda>(k, v). (k, scalar_of_json v)) inputs) (Some (ah_execution_binding s)) of
        Inl (CalculationRuntimeError code) \<Rightarrow> (Raised (plan_step_error code), w)
      | Inl e \<Rightarrow> (Raised e, w)
      | Inr r \<Rightarrow> (Returned (Some (JStr (dec_str (er_value r)))), w))"

text \<open>\<open>TypedResultVerifier.verify\<close>.\<close>

definition supported_invariants :: "string list" where
  "supported_invariants = [''typed_result_present'']"

definition typed_result_verifier :: "verify_step \<Rightarrow> json list \<Rightarrow> 'w \<Rightarrow> py_value awaited \<times> 'w" where
  "typed_result_verifier s inputs w =
     (if \<not> set (vs_invariant_ids s) \<subseteq> set supported_invariants then (Raised (PlanStepError ''result_invariant_unregistered''), w)
      else if inputs = [] \<or> JNull \<in> set inputs then (Raised (PlanStepError ''typed_result_missing''), w)
      else (Returned (Some (JObj [(''verified'', JBool True), (''invariant_ids'', strings_json (vs_invariant_ids s))])), w))"

section \<open>Executing one step\<close>

record 'w exec_state =
  xs_outputs :: "(string, json) dict"
  xs_receipts :: "plan_step_receipt list"
  xs_gateway :: "(string, execution_receipt) dict"
  xs_ledger :: ledger
  xs_world :: 'w

type_synonym ('w, 'a) exec = "'w exec_state \<Rightarrow> 'a awaited \<times> 'w exec_state"

definition exec_bind :: "('w, 'a) exec \<Rightarrow> ('a \<Rightarrow> ('w, 'b) exec) \<Rightarrow> ('w, 'b) exec" where
  "exec_bind m f st =
     (case m st of
        (Returned a, st') \<Rightarrow> f a st'
      | (Raised e, st') \<Rightarrow> (Raised e, st')
      | (DeadlineHit, st') \<Rightarrow> (DeadlineHit, st')
      | (Cancelled, st') \<Rightarrow> (Cancelled, st'))"

definition of_result :: "'a result \<Rightarrow> 'a awaited" where
  "of_result r = (case r of Inl e \<Rightarrow> Raised e | Inr v \<Rightarrow> Returned v)"

definition lift_result :: "'a result \<Rightarrow> ('w, 'a) exec" where
  "lift_result r st = (of_result r, st)"

definition on_ledger :: "(ledger \<Rightarrow> 'a result \<times> ledger) \<Rightarrow> ('w, 'a) exec" where
  "on_ledger f st = (of_result (fst (f (xs_ledger st))), st\<lparr>xs_ledger := snd (f (xs_ledger st))\<rparr>)"

definition on_world :: "('w \<Rightarrow> 'a awaited \<times> 'w) \<Rightarrow> ('w, 'a) exec" where
  "on_world f st = (fst (f (xs_world st)), st\<lparr>xs_world := snd (f (xs_world st))\<rparr>)"

text \<open>The checks of the gateway receipt after a fetch, in order.\<close>

definition receipt_failure :: "'p prepared_metric_step \<Rightarrow> execution_receipt \<Rightarrow> exn option" where
  "receipt_failure prepared r =
     (if rc_sql_fingerprint r \<noteq> pm_sql_fingerprint prepared then Some (PlanStepError ''execution_receipt_fingerprint_mismatch'')
      else if blank (rc_policy_version r) then Some (PlanStepError ''execution_receipt_policy_missing'')
      else if blank (rc_datasource r) \<or> blank (rc_readonly_role r) then Some (PlanStepError ''execution_receipt_identity_missing'')
      else if \<not> rc_allowed r \<or> rc_error_taxonomy r \<noteq> None
      then Some (plan_step_error (case rc_error_taxonomy r of None \<Rightarrow> ''query_gateway_policy_denied''
                                  | Some t \<Rightarrow> if t = [] then ''query_gateway_policy_denied'' else t))
      else None)"

definition execute_fetch ::
  "('w, 'p) plan_runners \<Rightarrow> query_plan \<Rightarrow> context_bundle \<Rightarrow> int \<Rightarrow> fetch_metric_step \<Rightarrow> ('w, json) exec" where
  "execute_fetch R qp ctx timeout_ms s =
     exec_bind (on_world (metric_prepare R s qp ctx)) (\<lambda>prepared.
     exec_bind (on_ledger (record_sql_candidate (pm_sql_fingerprint prepared))) (\<lambda>stop.
     case stop of
       Some reason \<Rightarrow> lift_result (Inl (BudgetExceeded reason))
     | None \<Rightarrow>
         exec_bind (on_ledger (observe_join_hops (pm_join_hops prepared))) (\<lambda>_.
         exec_bind (on_ledger begin_sql_execution) (\<lambda>_.
         exec_bind (on_world (metric_execute R prepared timeout_ms)) (\<lambda>res.
         case receipt_failure prepared (ms_receipt res) of
           Some e \<Rightarrow> lift_result (Inl e)
         | None \<Rightarrow> (\<lambda>st. lift_result (json_value (ms_value res))
               (st\<lparr>xs_gateway := dset (fm_step_id s) (ms_receipt res) (xs_gateway st)\<rparr>)))))))"

definition execute_trusted :: "('w, 'p) plan_runners \<Rightarrow> trusted_calculation_step \<Rightarrow> ('w, json) exec" where
  "execute_trusted R s =
     (case trusted_calculation_runner R of
        None \<Rightarrow> lift_result (Inl (PlanStepError ''trusted_calculation_unavailable''))
      | Some run \<Rightarrow> (\<lambda>st.
          exec_bind (lift_result (resolve_inputs (xs_outputs st) (tc_input_refs s))) (\<lambda>inputs.
          exec_bind (on_world (run s inputs)) (\<lambda>output. lift_result (json_value output))) st))"

definition execute_ad_hoc :: "('w, 'p) plan_runners \<Rightarrow> ad_hoc_calculation_step \<Rightarrow> ('w, json) exec" where
  "execute_ad_hoc R s =
     (case ad_hoc_calculation_runner R of
        None \<Rightarrow> lift_result (Inl (PlanStepError ''ad_hoc_calculation_unavailable''))
      | Some run \<Rightarrow> (\<lambda>st.
          exec_bind (lift_result (resolve_inputs (xs_outputs st) (ah_input_refs s))) (\<lambda>inputs.
          if list_ex (\<lambda>v. \<not> is_scalar v) (map snd inputs)
          then lift_result (Inl (PlanStepError ''ad_hoc_calculation_scalar_input_required''))
          else exec_bind (on_world (run s inputs)) (\<lambda>output. lift_result (json_value output))) st))"

definition execute_verify :: "('w, 'p) plan_runners \<Rightarrow> verify_step \<Rightarrow> ('w, json) exec" where
  "execute_verify R s st =
     exec_bind (lift_result (resolve_refs (xs_outputs st) (vs_input_refs s))) (\<lambda>inputs.
     exec_bind (on_world (result_verifier R s inputs)) (\<lambda>output. lift_result (json_value output))) st"

fun execute_step ::
  "('w, 'p) plan_runners \<Rightarrow> query_plan \<Rightarrow> context_bundle \<Rightarrow> int \<Rightarrow> plan_step \<Rightarrow> ('w, json) exec" where
  "execute_step R qp ctx t (FetchMetric s) = execute_fetch R qp ctx t s"
| "execute_step R qp ctx t (TrustedCalculation s) = execute_trusted R s"
| "execute_step R qp ctx t (AdHocCalculation s) = execute_ad_hoc R s"
| "execute_step R qp ctx t (Verify s) = execute_verify R s"

section \<open>Executing a plan\<close>

record plan_execution_result =
  px_record :: plan_execution_record
  px_outputs :: "(string, json) dict"

definition elapsed_ms :: "('w, 'p) plan_runners \<Rightarrow> 'w \<Rightarrow> 'w \<Rightarrow> nat" where
  "elapsed_ms R started now = nat (max 0 (rounded_ms R started now))"

definition blank_receipt :: "plan_step \<Rightarrow> nat \<Rightarrow> plan_step_receipt" where
  "blank_receipt s ms = \<lparr>sr_step_id = step_id s, sr_kind = kind_of_step s, sr_succeeded = False, sr_elapsed_ms = ms,
     sr_output_digest = None, sr_evidence = no_evidence, sr_template_id = None, sr_template_version = None,
     sr_binding_checksum = None, sr_output_metric_key = None, sr_calculation_spec_checksum = None,
     sr_execution_binding_checksum = None, sr_derived_output_id = None, sr_ad_hoc_scope = False, sr_error_code = None\<rparr>"

definition failed_step :: "plan_step \<Rightarrow> nat \<Rightarrow> string \<Rightarrow> plan_step_receipt result" where
  "failed_step s ms code = mk_plan_step_receipt ((blank_receipt s ms)\<lparr>sr_error_code := Some code\<rparr>)"

text \<open>The provenance a receipt of a calculation carries.\<close>

fun with_calculation :: "(string \<Rightarrow> string) \<Rightarrow> plan_step \<Rightarrow> plan_step_receipt \<Rightarrow> plan_step_receipt" where
  "with_calculation h (TrustedCalculation s) r =
     r\<lparr>sr_template_id := Some (tc_template_id s), sr_template_version := tc_template_version s,
       sr_binding_checksum := tc_binding_checksum s, sr_output_metric_key := tc_output_metric_key s\<rparr>"
| "with_calculation h (AdHocCalculation s) r =
     r\<lparr>sr_calculation_spec_checksum := Some (spec_checksum h (ah_calculation_spec s)),
       sr_execution_binding_checksum := Some (binding_checksum h (ah_execution_binding s)),
       sr_derived_output_id := Some (ah_derived_output_id s), sr_ad_hoc_scope := True\<rparr>"
| "with_calculation h _ r = r"

definition succeeded_step ::
  "(string \<Rightarrow> string) \<Rightarrow> plan_step \<Rightarrow> nat \<Rightarrow> json \<Rightarrow> execution_receipt option \<Rightarrow> plan_step_receipt result" where
  "succeeded_step h s ms output gateway = mk_plan_step_receipt
     ((with_calculation h s (blank_receipt s ms))\<lparr>sr_succeeded := True, sr_output_digest := Some (json_digest h output),
        sr_evidence := (case gateway of None \<Rightarrow> no_evidence | Some g \<Rightarrow> rc_evidence g)\<rparr>)"

definition finish ::
  "string \<Rightarrow> execution_status \<Rightarrow> string option \<Rightarrow> plan_step_receipt list \<Rightarrow> (string, json) dict \<Rightarrow> plan_execution_result awaited" where
  "finish checksum status stop receipts outputs =
     of_result (map_sum id (\<lambda>r. \<lparr>px_record = r, px_outputs = outputs\<rparr>)
       (mk_plan_execution_record \<lparr>xr_execution_plan_checksum = checksum, xr_status = status, xr_step_receipts = receipts,
          xr_output_step_ids = map fst outputs, xr_stop_reason = stop\<rparr>))"

text \<open>An \<open>except\<close> clause: halt the budget, add a failed receipt for the step, return the record.\<close>

definition fail_with ::
  "('w, 'p) plan_runners \<Rightarrow> string \<Rightarrow> execution_status \<Rightarrow> plan_step \<Rightarrow> 'w \<Rightarrow> string result \<times> ledger \<Rightarrow>
   ('w, plan_execution_result) exec" where
  "fail_with R checksum status s started halted st =
     (let st' = st\<lparr>xs_ledger := snd halted\<rparr> in
      case fst halted of
        Inl e \<Rightarrow> (Raised e, st')
      | Inr code \<Rightarrow>
          (case failed_step s (elapsed_ms R started (xs_world st)) code of
             Inl e \<Rightarrow> (Raised e, st')
           | Inr r \<Rightarrow>
               let st'' = st'\<lparr>xs_receipts := xs_receipts st' @ [r]\<rparr> in
               (finish checksum status (Some code) (xs_receipts st'') (xs_outputs st''), st'')))"

text \<open>\<open>budget.stop_reason or budget.halt(str(exc))\<close>.\<close>

definition stop_or_halt :: "string \<Rightarrow> ledger \<Rightarrow> string result \<times> ledger" where
  "stop_or_halt message l =
     (case stop_reason l of Some (c # cs) \<Rightarrow> (Inr (c # cs), l) | _ \<Rightarrow> halt message l)"

fun halt_for :: "exn \<Rightarrow> ledger \<Rightarrow> string result \<times> ledger" where
  "halt_for (BudgetExceeded m) l = stop_or_halt m l"
| "halt_for (PlanStepError code) l = halt code l"
| "halt_for _ l = halt ''plan_step_failed'' l"

text \<open>
  The loop.  On a deadline the code adds a failed receipt for the current step unless it has one;
  the current step has none, because nothing is awaited between a step's success and its receipt.
\<close>

fun run_steps ::
  "(string \<Rightarrow> string) \<Rightarrow> ('w, 'p) plan_runners \<Rightarrow> query_plan \<Rightarrow> context_bundle \<Rightarrow> int \<Rightarrow> string \<Rightarrow> plan_step list \<Rightarrow>
   ('w, plan_execution_result) exec" where
  "run_steps h R qp ctx t checksum [] st = (finish checksum ExecSucceeded None (xs_receipts st) (xs_outputs st), st)"
| "run_steps h R qp ctx t checksum (s # ss) st =
     (case execute_step R qp ctx t s st of
        (Cancelled, st1) \<Rightarrow> (Cancelled, st1)
      | (DeadlineHit, st1) \<Rightarrow>
          (if step_id s \<in> set (map sr_step_id (xs_receipts st1))
           then (let halted = halt ''execution_deadline_exceeded'' (xs_ledger st1) in
                 (case fst halted of Inl e \<Rightarrow> Raised e
                  | Inr code \<Rightarrow> finish checksum ExecDeadlineExceeded (Some code) (xs_receipts st1) (xs_outputs st1),
                  st1\<lparr>xs_ledger := snd halted\<rparr>))
           else fail_with R checksum ExecDeadlineExceeded s (xs_world st) (halt ''execution_deadline_exceeded'' (xs_ledger st1)) st1)
      | (Raised e, st1) \<Rightarrow> fail_with R checksum ExecFailed s (xs_world st) (halt_for e (xs_ledger st1)) st1
      | (Returned output, st1) \<Rightarrow>
          (let st2 = st1\<lparr>xs_outputs := dset (step_id s) output (xs_outputs st1)\<rparr> in
           case succeeded_step h s (elapsed_ms R (xs_world st) (xs_world st2)) output (dget (xs_gateway st2) (step_id s)) of
             Inl e \<Rightarrow> (Raised e, st2)
           | Inr r \<Rightarrow> run_steps h R qp ctx t checksum ss (st2\<lparr>xs_receipts := xs_receipts st2 @ [r]\<rparr>)))"

subsection \<open>The trust boundary\<close>

definition execution_plan_mismatch :: "(string \<Rightarrow> string) \<Rightarrow> query_plan \<Rightarrow> context_bundle \<Rightarrow> execution_plan \<Rightarrow> string option" where
  "execution_plan_mismatch h qp ctx p =
     (if ep_query_plan_sha256 p \<noteq> query_plan_checksum h qp then Some ''execution_plan_query_hash_mismatch''
      else if ep_semantic_release_id p \<noteq> cb_semantic_release_id ctx then Some ''execution_plan_semantic_release_mismatch''
      else if ep_schema_snapshot_id p \<noteq> cb_schema_snapshot_id ctx then Some ''execution_plan_schema_snapshot_mismatch''
      else None)"

definition execution_validation_mismatch ::
  "(string \<Rightarrow> string) \<Rightarrow> plan_validation_record \<Rightarrow> query_plan \<Rightarrow> context_bundle \<Rightarrow>
   execution_plan \<Rightarrow> string \<Rightarrow> string \<Rightarrow> string option" where
  "execution_validation_mismatch h v qp ctx p expected_version expected_checksum =
     (if vr_outcome v \<noteq> VAllow then Some ''execution_plan_validation_denied''
      else if vr_query_plan_sha256 v \<noteq> query_plan_checksum h qp then Some ''execution_plan_query_hash_mismatch''
      else if vr_context_checksum v \<noteq> context_checksum h ctx then Some ''execution_plan_context_hash_mismatch''
      else if vr_execution_plan_sha256 v \<noteq> Some (execution_plan_checksum h p) then Some ''execution_plan_checksum_mismatch''
      else if vr_policy_version v \<noteq> expected_version then Some ''execution_plan_policy_version_mismatch''
      else if vr_policy_checksum v \<noteq> expected_checksum then Some ''execution_plan_policy_checksum_mismatch''
      else None)"

definition failed_result :: "string \<Rightarrow> execution_status \<Rightarrow> string \<Rightarrow> plan_execution_result awaited" where
  "failed_result checksum status code = finish checksum status (Some code) [] []"

text \<open>The first reason not to start, with the status it is reported under.\<close>

definition start_refusal ::
  "(string \<Rightarrow> string) \<Rightarrow> query_plan \<Rightarrow> context_bundle \<Rightarrow> execution_plan \<Rightarrow> plan_validation_record \<Rightarrow> string \<Rightarrow> string \<Rightarrow>
   ledger \<Rightarrow> int \<Rightarrow> (string \<times> execution_status) option" where
  "start_refusal h qp ctx p v expected_version expected_checksum budget deadline =
     (case execution_plan_mismatch h qp ctx p of
        Some code \<Rightarrow> Some (code, ExecFailed)
      | None \<Rightarrow>
          (case execution_validation_mismatch h v qp ctx p expected_version expected_checksum of
             Some code \<Rightarrow> Some (code, ExecFailed)
           | None \<Rightarrow>
               if deadline < 1 then Some (''execution_deadline_unavailable'', ExecDeadlineExceeded)
               else if min deadline (deadline_ms (limits budget)) - policy_reserve_ms (policy budget) < 1
               then Some (''deadline_reserve'', ExecDeadlineExceeded)
               else None))"

text \<open>
  \<open>PlanExecutor.execute\<close>.  The deep snapshots at its start validate the four inputs again; a valid
  input is its own snapshot.
\<close>

definition execute_plan ::
  "(string \<Rightarrow> string) \<Rightarrow> ('w, 'p) plan_runners \<Rightarrow> query_plan \<Rightarrow> context_bundle \<Rightarrow> execution_plan \<Rightarrow> plan_validation_record \<Rightarrow>
   string \<Rightarrow> string \<Rightarrow> int \<Rightarrow> ledger \<Rightarrow> 'w \<Rightarrow> plan_execution_result awaited \<times> ledger \<times> 'w" where
  "execute_plan h R qp0 ctx0 p0 v0 expected_version expected_checksum deadline budget w =
     (case mk_query_plan qp0 of Inl e \<Rightarrow> (Raised e, budget, w) | Inr qp \<Rightarrow>
      case mk_context_bundle ctx0 of Inl e \<Rightarrow> (Raised e, budget, w) | Inr ctx \<Rightarrow>
      case mk_execution_plan h p0 of Inl e \<Rightarrow> (Raised e, budget, w) | Inr p \<Rightarrow>
      case mk_plan_validation_record v0 of Inl e \<Rightarrow> (Raised e, budget, w) | Inr v \<Rightarrow>
      let checksum = execution_plan_checksum h p in
      case start_refusal h qp ctx p v expected_version expected_checksum budget deadline of
        Some (code, status) \<Rightarrow>
          (case halt code budget of
             (Inl e, b) \<Rightarrow> (Raised e, b, w)
           | (Inr _, b) \<Rightarrow> (failed_result checksum status code, b, w))
      | None \<Rightarrow>
          let timeout_ms = min deadline (deadline_ms (limits budget)) - policy_reserve_ms (policy budget);
              st0 = \<lparr>xs_outputs = [], xs_receipts = [], xs_gateway = [], xs_ledger = budget, xs_world = w\<rparr> in
          (case ordered_steps p of
             Inl e \<Rightarrow> (Raised e, budget, w)
           | Inr steps \<Rightarrow>
               let (r, st) = run_steps h R qp ctx timeout_ms checksum steps st0 in (r, xs_ledger st, xs_world st)))"

section \<open>The order of execution\<close>

lemma dset_new: "k \<notin> fst ` set d \<Longrightarrow> dset k v d = d @ [(k, v)]"
  by (induction d) auto

lemma steps_by_id_distinct:
  assumes "distinct (map step_id ss)"
  shows "steps_by_id ss = map (\<lambda>s. (step_id s, s)) ss"
proof -
  have "fold (\<lambda>s. dset (step_id s) s) ss acc = acc @ map (\<lambda>s. (step_id s, s)) ss"
    if "distinct (map step_id ss)" "step_id ` set ss \<inter> fst ` set acc = {}" for acc
    using that
  proof (induction ss arbitrary: acc)
    case (Cons s ss)
    then have "dset (step_id s) s acc = acc @ [(step_id s, s)]" by (intro dset_new) auto
    then show ?case using Cons.IH[of "acc @ [(step_id s, s)]"] Cons.prems by auto
  qed simp
  from this[of "[]"] show ?thesis using assms by (simp add: steps_by_id_def)
qed

definition pending_of :: "(string, plan_step) dict \<Rightarrow> string list \<Rightarrow> (string \<times> string list) list" where
  "pending_of b r = map (\<lambda>(i, s). (i, depends_on s)) (filter (\<lambda>(i, s). i \<notin> set r) b)"

lemma ready_steps_pending: "ready_steps b r = ready_ids r (pending_of b r)"
proof -
  have "map fst (filter (\<lambda>(i, s). i \<notin> set r \<and> set (depends_on s) \<subseteq> set r) b) =
      map fst (filter (\<lambda>(i, ds). set ds \<subseteq> set r) (pending_of b r))"
    by (induction b) (auto simp: pending_of_def)
  then show ?thesis by (simp add: ready_steps_def ready_ids_def)
qed

lemma pending_of_append:
  "filter (\<lambda>(i, ds). i \<notin> set q) (pending_of b r) = pending_of b (r @ q)"
  by (induction b) (auto simp: pending_of_def)

lemma pending_of_Nil_iff:
  assumes "distinct (map fst b)" "distinct r" "set r \<subseteq> fst ` set b"
  shows "pending_of b r = [] \<longleftrightarrow> \<not> length r < length b"
proof -
  have c: "card (set r) = length r" "card (fst ` set b) = length b"
    using assms(1,2) by (metis distinct_card, metis distinct_card length_map list.set_map)
  have "pending_of b r = [] \<longleftrightarrow> fst ` set b \<subseteq> set r" by (auto simp: pending_of_def filter_empty_conv)
  also have "\<dots> \<longleftrightarrow> \<not> length r < length b"
    using assms(3) c card_mono[of "set r" "fst ` set b"] card_subset_eq[of "fst ` set b" "set r"]
      card_mono[of "fst ` set b" "set r"] by auto
  finally show ?thesis .
qed

lemma ready_distinct:
  assumes "distinct (map fst b)"
  shows "distinct (ready_steps b r)" "set (ready_steps b r) \<subseteq> fst ` set b - set r"
  using assms by (auto simp: ready_steps_def distinct_map_filter)

text \<open>The executor's loop follows the validator's loop step by step.\<close>

lemma order_resolve:
  assumes "distinct (map fst b)" "distinct r" "set r \<subseteq> fst ` set b"
  shows "order_loop b r =
    map_sum (\<lambda>_. PlanStepError ''execution_plan_dependency_cycle'') id (resolve_loop r (pending_of b r))"
  using assms
proof (induction b r rule: order_loop.induct)
  case (1 b r)
  let ?r = "ready_steps b r"
  show ?case
  proof (cases "length r < length b")
    case False
    then show ?thesis using pending_of_Nil_iff[OF 1(2-4)] by (simp add: order_loop.simps[of b r] resolve_loop.simps[of r])
  next
    case True
    then have p: "pending_of b r \<noteq> []" using pending_of_Nil_iff[OF 1(2-4)] by simp
    show ?thesis
    proof (cases "?r = []")
      case True
      then show ?thesis using \<open>length r < length b\<close> p
        by (simp add: order_loop.simps[of b r] resolve_loop.simps[of r] ready_steps_pending)
    next
      case False
      have "distinct (r @ ?r)" "set (r @ ?r) \<subseteq> fst ` set b" using ready_distinct[OF 1(2), of r] 1(3,4) by auto
      from 1(1)[OF True refl False 1(2) this] show ?thesis using True False p
        by (simp add: order_loop.simps[of b r] resolve_loop.simps[of r] Let_def ready_steps_pending pending_of_append)
    qed
  qed
qed

lemma mk_execution_plan_ok:
  assumes "mk_execution_plan h p = Inr q"
  shows "q = p" "distinct (map step_id (ep_steps p))" "length_in 1 16 (ep_steps p)"
    "\<And>s. s \<in> set (ep_steps p) \<Longrightarrow> \<not> step_bad h s"
    "\<And>s r. s \<in> set (ep_steps p) \<Longrightarrow> r \<in> set (step_refs s) \<Longrightarrow> ref_root r \<in> set (depends_on s)"
    "\<exists>out. resolve_loop [] (dependency_table (ep_steps p)) = Inr out"
proof -
  have v: "\<forall>(b, e) \<in> set [(\<not> is_hex64 (ep_query_plan_sha256 p), FieldError ''query_plan_sha256''),
      (\<not> length_in 1 128 (ep_policy_version p), FieldError ''policy_version''),
      (\<not> length_in 1 16 (ep_steps p) \<or> list_ex (step_bad h) (ep_steps p), FieldError ''steps'')]. \<not> b"
    "validate_typed_dag p = Inr q"
    using assms by (auto simp: mk_execution_plan_def validated_eval split: if_splits)
  from v(2) have d: "q = p" "distinct (map step_id (ep_steps p))" "step_failure (map step_id (ep_steps p)) (ep_steps p) = None"
    "\<exists>out. resolve_loop [] (dependency_table (ep_steps p)) = Inr out" by (simp_all add: validate_typed_dag_Inr)
  show "q = p" "distinct (map step_id (ep_steps p))" "\<exists>out. resolve_loop [] (dependency_table (ep_steps p)) = Inr out"
    by (rule d(1) d(2) d(4))+
  show "length_in 1 16 (ep_steps p)" using v(1) by simp
  show "\<not> step_bad h s" if "s \<in> set (ep_steps p)" for s using v(1) that by (auto simp: list_ex_iff)
  show "ref_root r \<in> set (depends_on s)" if "s \<in> set (ep_steps p)" "r \<in> set (step_refs s)" for s r
    using d(3) that by (simp add: step_failure_None)
qed

lemma before_prefix:
  assumes "before ds i (us @ i # vs)" "distinct (us @ i # vs)" shows "set ds \<subseteq> set us"
proof -
  obtain as bs where "us @ i # vs = as @ i # bs" "set ds \<subseteq> set as" using assms(1) by (auto simp: before_def)
  moreover have "i \<notin> set us" "i \<notin> set vs" using assms(2) by auto
  ultimately show ?thesis by (simp add: append_Cons_eq_iff)
qed

lemma ordered_steps_ok:
  assumes "mk_execution_plan h p = Inr q"
  obtains ss where "ordered_steps p = Inr ss" "mset ss = mset (ep_steps p)"
    "\<forall>us s vs. ss = us @ s # vs \<longrightarrow> set (depends_on s) \<subseteq> step_id ` set us"
proof -
  note ok = mk_execution_plan_ok[OF assms]
  let ?b = "map (\<lambda>s. (step_id s, s)) (ep_steps p)"
  have b: "steps_by_id (ep_steps p) = ?b" by (rule steps_by_id_distinct[OF ok(2)])
  obtain out where out: "resolve_loop [] (dependency_table (ep_steps p)) = Inr out" using ok(6) by blast
  have "pending_of ?b [] = dependency_table (ep_steps p)" by (induction "ep_steps p") (auto simp: pending_of_def dependency_table_def)
  then have o: "order_loop ?b [] = Inr out" using order_resolve[of ?b "[]"] ok(2) out by (simp add: comp_def)
  have t: "mset out = mset (map step_id (ep_steps p))" "\<forall>(i, ds) \<in> set (dependency_table (ep_steps p)). before ds i out"
    using resolve_loop_order[OF out] ok(2) by auto
  define ss where "ss = map (\<lambda>i. the (dget ?b i)) out"
  have at: "the (dget ?b (step_id s)) = s" if "s \<in> set (ep_steps p)" for s
  proof -
    have "dget ?b (step_id s) = Some s" using that ok(2) by (intro map_of_is_SomeI) (auto simp: comp_def)
    then show ?thesis by simp
  qed
  have "mset ss = image_mset (\<lambda>i. the (dget ?b i)) (mset (map step_id (ep_steps p)))" using t(1) by (simp add: ss_def flip: t(1))
  also have "\<dots> = mset (map (\<lambda>s. the (dget ?b (step_id s))) (ep_steps p))" by (simp add: image_mset.compositionality comp_def)
  also have "map (\<lambda>s. the (dget ?b (step_id s))) (ep_steps p) = ep_steps p" by (rule map_idI) (rule at)
  finally have m: "mset ss = mset (ep_steps p)" .
  have "set out = step_id ` set (ep_steps p)" using t(1) by (metis list.set_map set_mset_mset)
  then have ids: "map step_id ss = out" by (auto simp: ss_def comp_def at intro!: map_idI)
  have d: "distinct out" using t(1) ok(2) by (metis mset_eq_imp_distinct_iff)
  have "set (depends_on s) \<subseteq> step_id ` set us" if "ss = us @ s # vs" for us s vs
  proof -
    have "s \<in> set (ep_steps p)" using m that by (metis in_set_conv_decomp mset_eq_setD)
    then have "before (depends_on s) (step_id s) out" using t(2) by auto
    then show ?thesis using before_prefix[of "depends_on s" "step_id s" "map step_id us" "map step_id vs"] ids d that by auto
  qed
  moreover have "ordered_steps p = Inr ss" using o b by (simp add: ordered_steps_def ss_def)
  ultimately show thesis using that m by blast
qed

text \<open>C29. Execution order: for every plan the validator accepts, the ordering loop of the executor ends
  without the dependency-cycle error and yields every step exactly once, each after all its
  dependencies and after the steps its input references start at.\<close>

theorem ordered_steps_topological:
  assumes "mk_execution_plan h p = Inr q"
  shows "\<exists>ss. ordered_steps q = Inr ss \<and> mset ss = mset (ep_steps q) \<and> distinct (map step_id ss) \<and>
    (\<forall>us s vs. ss = us @ s # vs \<longrightarrow> set (depends_on s) \<subseteq> step_id ` set us \<and> ref_root ` set (step_refs s) \<subseteq> step_id ` set us)"
proof -
  note ok = mk_execution_plan_ok[OF assms]
  obtain ss where ss: "ordered_steps p = Inr ss" "mset ss = mset (ep_steps p)"
    "\<forall>us s vs. ss = us @ s # vs \<longrightarrow> set (depends_on s) \<subseteq> step_id ` set us"
    by (rule ordered_steps_ok[OF assms])
  have "distinct (map step_id ss)" using ok(2) ss(2) by (metis mset_map mset_eq_imp_distinct_iff)
  moreover have "ref_root ` set (step_refs s) \<subseteq> step_id ` set us" if "ss = us @ s # vs" for us s vs
  proof -
    have "s \<in> set (ep_steps p)" using ss(2) that by (metis in_set_conv_decomp mset_eq_setD)
    then show ?thesis using ok(5) ss(3) that by blast
  qed
  ultimately show ?thesis using ss ok(1) by blast
qed

theorem ordered_steps_topological_witness:
  "\<exists>ss. ordered_steps demo_plan = Inr ss \<and> mset ss = mset (ep_steps demo_plan) \<and>
     ss = [FetchMetric fetch_won, Verify (check_step ''check'' ''won'')]"
proof -
  obtain ss where ss: "ordered_steps demo_plan = Inr ss" "mset ss = mset (ep_steps demo_plan)"
    using ordered_steps_topological[OF demo_plan_ok] by blast
  have "ordered_steps demo_plan = Inr [FetchMetric fetch_won, Verify (check_step ''check'' ''won'')]" by code_simp
  with ss show ?thesis by simp
qed

end
