(* ===== verification/Authorization.thy ===== *)
theory Authorization
  imports Plan_Executor
begin

text \<open>
  Request identity and authorization (\<open>contracts.py\<close>: \<open>RequestIdentity\<close>, \<open>RequestContext\<close>,
  \<open>AuthorizationContext\<close>, \<open>AuthorizationDecision\<close>, \<open>evaluate_authorization\<close>; \<open>ownership.py\<close>).

  A \<open>frozenset\<close> of names is the list of its elements in iteration order.  A configurable mapping is
  its lookup function, which may raise; a carried value is a context object, a JSON value or some
  other object.
\<close>

section \<open>Contracts\<close>

record request_identity =
  ri_request_id :: string
  ri_user_id :: string
  ri_roles :: "string list"
  ri_permissions :: "string list"
  ri_auth_epoch :: "int option"

definition mk_request_identity :: "request_identity \<Rightarrow> request_identity result" where
  "mk_request_identity i = validated
     [(\<not> length_in 1 256 (ri_user_id i), FieldError ''user_id''),
      (opt_bad (\<lambda>n. 0 \<le> n) (ri_auth_epoch i), FieldError ''auth_epoch'')] i"

datatype scope_level = CITY_COMPANY | AREA | TEAM | EMPLOYEE

fun scope_level_text :: "scope_level \<Rightarrow> string" where
  "scope_level_text CITY_COMPANY = ''city_company''"
| "scope_level_text AREA = ''area''"
| "scope_level_text TEAM = ''team''"
| "scope_level_text EMPLOYEE = ''employee''"

record authorization_context =
  ac_authorization_revision :: string
  ac_agent_enabled :: bool
  ac_scope_level :: scope_level
  ac_allowed_scope_ids :: "string list"

definition mk_authorization_context :: "authorization_context \<Rightarrow> authorization_context result" where
  "mk_authorization_context c = validated
     [(\<not> length_in 1 256 (ac_authorization_revision c), FieldError ''authorization_revision''),
      (blank (ac_authorization_revision c), ValueError ''authorization revision must be non-blank''),
      (list_ex blank (ac_allowed_scope_ids c), ValueError ''allowed scope identifiers must be non-empty''),
      (\<not> distinct (ac_allowed_scope_ids c), ValueError ''allowed scope identifiers must be unique within a scope'')] c"

abbreviation authorization_ok :: "authorization_context \<Rightarrow> bool" where
  "authorization_ok c \<equiv> mk_authorization_context c = Inr c"

definition authorization_json :: "authorization_context \<Rightarrow> (string \<times> json) list" where
  "authorization_json c =
     [(''schema_version'', JStr ''1.0''), (''authorization_revision'', JStr (ac_authorization_revision c)),
      (''agent_enabled'', JBool (ac_agent_enabled c)), (''scope_level'', JStr (scope_level_text (ac_scope_level c))),
      (''allowed_scope_ids'', JList (map JStr (ac_allowed_scope_ids c)))]"

definition authorization_checksum :: "(string \<Rightarrow> string) \<Rightarrow> authorization_context \<Rightarrow> string" where
  "authorization_checksum sha256 c = checksum_of sha256 (jobj (authorization_json c))"

record request_context =
  rq_identity :: request_identity
  rq_thread_id :: string
  rq_trace_id :: string
  rq_deadline_ms :: int
  rq_authorization :: "authorization_context option"

definition deployment_scope :: string where "deployment_scope = ''default''"

definition mk_request_context :: "request_context \<Rightarrow> request_context result" where
  "mk_request_context c = validated
     [(\<not> is_ok (mk_request_identity (rq_identity c)), FieldError ''identity''),
      (\<not> length_in 1 256 (rq_trace_id c), FieldError ''trace_id''),
      (rq_deadline_ms c < 1 \<or> 120000 < rq_deadline_ms c, FieldError ''deadline_ms''),
      (opt_bad (\<lambda>a. is_ok (mk_authorization_context a)) (rq_authorization c), FieldError ''authorization'')] c"

section \<open>Decisions\<close>

datatype authorization_outcome = AuthAllow | AuthDeny

record authorization_decision =
  ad_outcome :: authorization_outcome
  ad_reason :: "string option"
  ad_authorization_revision :: "string option"

definition authorization_denied_reason :: string where
  "authorization_denied_reason = ''authorization_denied''"

definition mk_authorization_decision :: "authorization_decision \<Rightarrow> authorization_decision result" where
  "mk_authorization_decision d = validated
     ([(opt_bad (\<lambda>r. r = authorization_denied_reason) (ad_reason d), FieldError ''reason''),
       (opt_bad (length_in 1 256) (ad_authorization_revision d), FieldError ''authorization_revision'')] @
      (case ad_outcome d of
         AuthDeny \<Rightarrow>
           [(ad_reason d = None, ValueError ''deny decision requires a reason''),
            (ad_authorization_revision d \<noteq> None, ValueError ''deny decision must not carry a revision'')]
       | AuthAllow \<Rightarrow>
           [(ad_reason d \<noteq> None, ValueError ''allow decision cannot carry a reason''),
            (ad_authorization_revision d = None, ValueError ''allow decision requires an authorization revision'')])) d"

definition authorization_denied :: authorization_decision where
  "authorization_denied = \<lparr>ad_outcome = AuthDeny, ad_reason = Some authorization_denied_reason,
     ad_authorization_revision = None\<rparr>"

definition evaluate_authorization ::
  "authorization_context option \<Rightarrow> string option \<Rightarrow> scope_level option \<Rightarrow> string option \<Rightarrow> authorization_decision result" where
  "evaluate_authorization context expected_revision requested_scope_level requested_scope_id =
     (case context of
        None \<Rightarrow> Inr authorization_denied
      | Some c \<Rightarrow>
          if \<not> ac_agent_enabled c then Inr authorization_denied
          else if ac_allowed_scope_ids c = [] then Inr authorization_denied
          else if expected_revision \<noteq> None \<and> Some (ac_authorization_revision c) \<noteq> expected_revision
            then Inr authorization_denied
          else if (requested_scope_level = None) \<noteq> (requested_scope_id = None) then Inr authorization_denied
          else if (case (requested_scope_level, requested_scope_id) of
                     (Some l, Some i) \<Rightarrow> l \<noteq> ac_scope_level c \<or> i \<notin> set (ac_allowed_scope_ids c)
                   | _ \<Rightarrow> False) then Inr authorization_denied
          else mk_authorization_decision
                 \<lparr>ad_outcome = AuthAllow, ad_reason = None,
                  ad_authorization_revision = Some (ac_authorization_revision c)\<rparr>)"

section \<open>Thread namespacing\<close>

text \<open>
  \<open>urllib.parse.quote(text, safe='')\<close>: the UTF-8 bytes of the text, each an unreserved character or a
  percent sign and two upper-case hexadecimal digits.
\<close>

definition utf8 :: "char \<Rightarrow> nat list" where
  "utf8 c = (let n = of_char c in if n < 128 then [n] else [192 + n div 64, 128 + n mod 64])"

definition unreserved :: "nat \<Rightarrow> bool" where
  "unreserved b \<longleftrightarrow> (48 \<le> b \<and> b \<le> 57) \<or> (65 \<le> b \<and> b \<le> 90) \<or> (97 \<le> b \<and> b \<le> 122) \<or> b \<in> {45, 46, 95, 126}"

definition upper_hex :: "nat \<Rightarrow> char" where
  "upper_hex n = char_of (if n < 10 then 48 + n else 55 + n)"

definition quote_byte :: "nat \<Rightarrow> string" where
  "quote_byte b = (if unreserved b then [char_of b] else [CHR ''%'', upper_hex (b div 16), upper_hex (b mod 16)])"

definition percent_quote :: "string \<Rightarrow> string" where
  "percent_quote s = concat (map quote_byte (concat (map utf8 s)))"

definition internal_thread_id :: "request_context \<Rightarrow> string" where
  "internal_thread_id c =
     deployment_scope @ '':'' @ percent_quote (ri_user_id (rq_identity c)) @ '':'' @ rq_thread_id c"

section \<open>The runtime configuration\<close>

definition authorization_config_key :: string where
  "authorization_config_key = ''authorization_context''"

definition identity_json :: "request_identity \<Rightarrow> json" where
  "identity_json i = JObj
     [(''request_id'', JStr (ri_request_id i)), (''user_id'', JStr (ri_user_id i)),
      (''roles'', JList (map JStr (ri_roles i))), (''permissions'', JList (map JStr (ri_permissions i))),
      (''auth_epoch'', jopt JInt (ri_auth_epoch i))]"

definition request_context_dump :: "request_context \<Rightarrow> (string, json) dict" where
  "request_context_dump c =
     [(''identity'', identity_json (rq_identity c)), (''deployment_scope'', JStr deployment_scope),
      (''thread_id'', JStr (rq_thread_id c)), (''trace_id'', JStr (rq_trace_id c)),
      (''deadline_ms'', JInt (rq_deadline_ms c)),
      (''authorization'', jopt (\<lambda>a. JObj (authorization_json a)) (rq_authorization c))]"

definition runtime_config :: "request_context \<Rightarrow> (string, json) dict" where
  "runtime_config c =
     (let i = rq_identity c;
          request_payload = dpop ''authorization'' (request_context_dump c);
          configurable =
            [(''thread_id'', JStr (internal_thread_id c)), (''request_identity'', identity_json i),
             (''request_context'', JObj request_payload), (''auth_user_id'', JStr (ri_user_id i)),
             (''auth_user_roles'', JList (map JStr (sort (ri_roles i)))),
             (''auth_user_permissions'', JList (map JStr (sort (ri_permissions i))))]
      in case rq_authorization c of
           None \<Rightarrow> configurable
         | Some a \<Rightarrow> dset authorization_config_key (JObj (authorization_json a)) configurable)"

datatype config_value = CarriedContext authorization_context | CarriedJson json | CarriedOther

type_synonym configurable = "string \<Rightarrow> config_value option result"

definition configurable_of :: "(string, json) dict \<Rightarrow> configurable" where
  "configurable_of d k = Inr (map_option CarriedJson (dget d k))"

text \<open>\<open>AuthorizationContext.model_validate_json\<close>: strict types, no further keys, then the validators.\<close>

fun text_of :: "json \<Rightarrow> string option" where
  "text_of (JStr s) = Some s"
| "text_of _ = None"

fun texts_of :: "json \<Rightarrow> string list option" where
  "texts_of (JList js) = (if list_all (\<lambda>j. text_of j \<noteq> None) js then Some (map (\<lambda>j. the (text_of j)) js) else None)"
| "texts_of _ = None"

fun flag_of :: "json \<Rightarrow> bool option" where
  "flag_of (JBool b) = Some b"
| "flag_of _ = None"

definition scope_level_of :: "string \<Rightarrow> scope_level option" where
  "scope_level_of s = find (\<lambda>l. scope_level_text l = s) [CITY_COMPANY, AREA, TEAM, EMPLOYEE]"

definition parsed_field :: "(json \<Rightarrow> 'a option) \<Rightarrow> 'a option \<Rightarrow> (string, json) dict \<Rightarrow> string \<Rightarrow> 'a result" where
  "parsed_field parse fallback d k =
     (case dget d k of
        None \<Rightarrow> (case fallback of None \<Rightarrow> Inl (FieldError k) | Some v \<Rightarrow> Inr v)
      | Some j \<Rightarrow> (case parse j of None \<Rightarrow> Inl (FieldError k) | Some v \<Rightarrow> Inr v))"

definition authorization_keys :: "string list" where
  "authorization_keys =
     [''schema_version'', ''authorization_revision'', ''agent_enabled'', ''scope_level'', ''allowed_scope_ids'']"

definition parse_authorization_context :: "(string, json) dict \<Rightarrow> authorization_context result" where
  "parse_authorization_context d =
     (case parsed_field (\<lambda>j. if j = JStr ''1.0'' then Some () else None) (Some ()) d ''schema_version'' of Inl e \<Rightarrow> Inl e | Inr _ \<Rightarrow>
      case parsed_field text_of None d ''authorization_revision'' of Inl e \<Rightarrow> Inl e | Inr revision \<Rightarrow>
      case parsed_field flag_of None d ''agent_enabled'' of Inl e \<Rightarrow> Inl e | Inr enabled \<Rightarrow>
      case parsed_field (\<lambda>j. Option.bind (text_of j) scope_level_of) None d ''scope_level'' of Inl e \<Rightarrow> Inl e | Inr level \<Rightarrow>
      case parsed_field texts_of (Some []) d ''allowed_scope_ids'' of Inl e \<Rightarrow> Inl e | Inr ids \<Rightarrow>
      if \<not> fst ` set d \<subseteq> set authorization_keys then Inl (FieldError ''extra'')
      else mk_authorization_context
             \<lparr>ac_authorization_revision = revision, ac_agent_enabled = enabled, ac_scope_level = level,
              ac_allowed_scope_ids = ids\<rparr>)"

definition authorization_context_from_config :: "configurable \<Rightarrow> authorization_context option" where
  "authorization_context_from_config lookup =
     (case lookup authorization_config_key of
        Inl _ \<Rightarrow> None
      | Inr (Some (CarriedContext c)) \<Rightarrow> Some c
      | Inr (Some (CarriedJson (JObj d))) \<Rightarrow>
          (case parse_authorization_context d of Inl _ \<Rightarrow> None | Inr c \<Rightarrow> Some c)
      | _ \<Rightarrow> None)"

definition evaluate_config_authorization ::
  "configurable \<Rightarrow> bool \<Rightarrow> string option \<Rightarrow> scope_level option \<Rightarrow> string option \<Rightarrow> authorization_decision option result" where
  "evaluate_config_authorization lookup authorization_required expected_revision requested_scope_level requested_scope_id =
     (let context = authorization_context_from_config lookup in
      if context = None \<and> \<not> authorization_required then Inr None
      else map_sum id Some
        (evaluate_authorization context expected_revision requested_scope_level requested_scope_id))"

definition bind_execution_receipt_authorization ::
  "execution_receipt \<Rightarrow> authorization_decision option \<Rightarrow> execution_receipt result" where
  "bind_execution_receipt_authorization receipt decision =
     (case decision of
        None \<Rightarrow> Inr receipt
      | Some d \<Rightarrow>
          if ad_outcome d = AuthDeny
          then Inl (ValueError (''cannot bind a deny decision to an execution receipt: '' @
                 ''authorization_revision may only be stamped from an allow decision''))
          else Inr (receipt\<lparr>rc_authorization_revision := ad_authorization_revision d\<rparr>))"

section \<open>One key per user and thread\<close>

lemma utf8_bytes: "set (utf8 c) \<subseteq> {..<256}"
proof -
  have "(of_char c :: nat) < 256" using of_char_mod_256[of c, where 'a = nat] by (metis mod_less_divisor zero_less_numeral)
  then have "(of_char c :: nat) div 64 < 4" by (simp add: div_less_iff_less_mult)
  then show ?thesis by (auto simp: utf8_def Let_def)
qed

interpretation utf8: prefix_code utf8 UNIV
proof
  fix c c' :: char and r r' :: "nat list"
  show "utf8 c \<noteq> []" by (simp add: utf8_def Let_def)
  have chars: "c = c'" if "(of_char c :: nat) = of_char c'" using that by simp
  have div_mod: "m = n" if "m div 64 = n div 64" "m mod 64 = n mod 64" for m n :: nat
    using that by (metis div_mult_mod_eq)
  show "utf8 c @ r = utf8 c' @ r' \<Longrightarrow> c = c' \<and> r = r'"
    by (auto simp: utf8_def Let_def split: if_splits intro!: chars intro: div_mod)
qed

lemma upper_hex_inject: "a < 16 \<Longrightarrow> b < 16 \<Longrightarrow> upper_hex a = upper_hex b \<longleftrightarrow> a = b"
  by (auto simp: upper_hex_def dest!: arg_cong[where f = "of_char :: char \<Rightarrow> nat"] split: if_splits)

lemma unreserved_chars:
  assumes "unreserved b" shows "char_of b \<noteq> CHR ''%''" "char_of b \<noteq> CHR '':''"
proof -
  from assms have "(of_char (char_of b :: char) :: nat) = b" by (auto simp: unreserved_def)
  with assms show "char_of b \<noteq> CHR ''%''" "char_of b \<noteq> CHR '':''"
    by (auto simp: unreserved_def dest!: arg_cong[where f = "of_char :: char \<Rightarrow> nat"])
qed

interpretation percent: terminated_code quote_byte "{..<256}" "CHR '':''"
proof
  fix b b' :: nat and r r' :: string
  assume "b \<in> {..<256}"
  show "quote_byte b \<noteq> []" by (simp add: quote_byte_def)
  show "hd (quote_byte b) \<noteq> CHR '':''" by (simp add: quote_byte_def unreserved_chars)
  assume "b \<in> {..<256}" "b' \<in> {..<256}"
  then have small: "b < 256" "b' < 256" by simp_all
  have chars: "b = b'" if "(char_of b :: char) = char_of b'"
    using that small by (auto dest!: arg_cong[where f = "of_char :: char \<Rightarrow> nat"])
  have digits: "b = b'" if "upper_hex (b div 16) = upper_hex (b' div 16)" "upper_hex (b mod 16) = upper_hex (b' mod 16)"
  proof -
    have "b div 16 < 16" "b' div 16 < 16" using small by (simp_all add: div_less_iff_less_mult)
    with that have "b div 16 = b' div 16" "b mod 16 = b' mod 16" by (simp_all add: upper_hex_inject)
    then show ?thesis by (metis div_mult_mod_eq)
  qed
  show "quote_byte b @ r = quote_byte b' @ r' \<Longrightarrow> b = b' \<and> r = r'"
    using chars digits unreserved_chars[of b] unreserved_chars[of b']
    by (auto simp: quote_byte_def split: if_splits)
qed

lemma percent_quote_inject:
  assumes "percent_quote s @ CHR '':'' # r = percent_quote s' @ CHR '':'' # r'"
  shows "s = s' \<and> r = r'"
proof -
  have bytes: "set (concat (map utf8 s)) \<subseteq> {..<256}" for s using utf8_bytes by auto
  from percent.terminated_inject[OF bytes bytes assms[unfolded percent_quote_def]] show ?thesis
    using utf8.words_inject[OF subset_UNIV subset_UNIV] by blast
qed

text \<open>C32. A checkpoint key cannot be reached by another user: two requests have the same internal thread
  id exactly when they have the same user and the same thread, whatever characters the user id holds.\<close>

theorem internal_thread_id_isolates:
  "internal_thread_id c = internal_thread_id d \<longleftrightarrow>
     ri_user_id (rq_identity c) = ri_user_id (rq_identity d) \<and> rq_thread_id c = rq_thread_id d"
proof
  assume "internal_thread_id c = internal_thread_id d"
  then show "ri_user_id (rq_identity c) = ri_user_id (rq_identity d) \<and> rq_thread_id c = rq_thread_id d"
    by (intro percent_quote_inject) (simp add: internal_thread_id_def)
qed (simp add: internal_thread_id_def)

section \<open>Authorization decisions\<close>

text \<open>The declarative reading of an allow: enabled, some scope, the bound revision, typed membership.\<close>

definition permits :: "authorization_context \<Rightarrow> string option \<Rightarrow> scope_level option \<Rightarrow> string option \<Rightarrow> bool" where
  "permits c expected_revision level scope_id \<longleftrightarrow>
     ac_agent_enabled c \<and> ac_allowed_scope_ids c \<noteq> [] \<and>
     expected_revision \<in> {None, Some (ac_authorization_revision c)} \<and>
     (level = None \<and> scope_id = None \<or>
      level = Some (ac_scope_level c) \<and> scope_id \<in> Some ` set (ac_allowed_scope_ids c))"

definition allowed_under :: "authorization_context \<Rightarrow> authorization_decision" where
  "allowed_under c = \<lparr>ad_outcome = AuthAllow, ad_reason = None,
     ad_authorization_revision = Some (ac_authorization_revision c)\<rparr>"

lemma allowed_under_ok: "authorization_ok c \<Longrightarrow> mk_authorization_decision (allowed_under c) = Inr (allowed_under c)"
  by (simp add: mk_authorization_decision_def mk_authorization_context_def allowed_under_def opt_bad_def)

lemma authorization_denied_ok: "mk_authorization_decision authorization_denied = Inr authorization_denied"
  by (simp add: mk_authorization_decision_def authorization_denied_def opt_bad_def)

lemma evaluate_authorization_eq:
  assumes "authorization_ok c"
  shows "evaluate_authorization (Some c) rv l i =
    Inr (if permits c rv l i then allowed_under c else authorization_denied)"
  using allowed_under_ok[OF assms]
  by (auto simp: evaluate_authorization_def permits_def allowed_under_def split: option.splits)

lemma parse_authorization_ok: "parse_authorization_context d = Inr c \<Longrightarrow> authorization_ok c"
  by (auto simp: parse_authorization_context_def mk_authorization_context_def split: sum.splits if_splits)

lemma from_config_ok:
  assumes "\<And>c. lookup authorization_config_key = Inr (Some (CarriedContext c)) \<Longrightarrow> authorization_ok c"
    and "authorization_context_from_config lookup = Some c"
  shows "authorization_ok c"
  using assms parse_authorization_ok
  by (auto simp: authorization_context_from_config_def split: sum.splits option.splits config_value.splits json.splits)

lemma bind_allowed:
  assumes "authorization_ok c" "mk_execution_receipt r = Inr r"
  shows "bind_execution_receipt_authorization r (Some (allowed_under c)) =
      Inr (r\<lparr>rc_authorization_revision := Some (ac_authorization_revision c)\<rparr>)"
    and "is_ok (mk_execution_receipt (r\<lparr>rc_authorization_revision := Some (ac_authorization_revision c)\<rparr>))"
  using assms by (simp_all add: bind_execution_receipt_authorization_def allowed_under_def mk_execution_receipt_def
      mk_authorization_context_def opt_bad_def)

lemma bind_denied: "is_err (bind_execution_receipt_authorization r (Some authorization_denied))"
  by (simp add: bind_execution_receipt_authorization_def authorization_denied_def)

lemma config_authorization_decided:
  assumes carried: "\<And>c. lookup authorization_config_key = Inr (Some (CarriedContext c)) \<Longrightarrow> authorization_ok c"
    and receipt: "mk_execution_receipt r = Inr r"
  shows "(case authorization_context_from_config lookup of
      None \<Rightarrow> evaluate_config_authorization lookup required rv l i =
        Inr (if required then Some authorization_denied else None)
    | Some c \<Rightarrow> authorization_ok c \<and> evaluate_config_authorization lookup required rv l i =
        Inr (Some (if permits c rv l i then allowed_under c else authorization_denied)))"
    and "evaluate_config_authorization lookup required rv l i = Inr (Some d) \<Longrightarrow>
      mk_authorization_decision d = Inr d \<and>
      (case ad_outcome d of
         AuthDeny \<Rightarrow> d = authorization_denied \<and> is_err (bind_execution_receipt_authorization r (Some d))
       | AuthAllow \<Rightarrow> \<exists>c r'. authorization_context_from_config lookup = Some c \<and> permits c rv l i \<and>
           bind_execution_receipt_authorization r (Some d) = Inr r' \<and> mk_execution_receipt r' = Inr r' \<and>
           r' = r\<lparr>rc_authorization_revision := Some (ac_authorization_revision c)\<rparr>)"
proof -
  note ok = from_config_ok[OF carried]
  show decided: "(case authorization_context_from_config lookup of
      None \<Rightarrow> evaluate_config_authorization lookup required rv l i =
        Inr (if required then Some authorization_denied else None)
    | Some c \<Rightarrow> authorization_ok c \<and> evaluate_config_authorization lookup required rv l i =
        Inr (Some (if permits c rv l i then allowed_under c else authorization_denied)))"
    using ok evaluate_authorization_eq
    by (auto simp: evaluate_config_authorization_def evaluate_authorization_def split: option.split)
  assume d: "evaluate_config_authorization lookup required rv l i = Inr (Some d)"
  show "mk_authorization_decision d = Inr d \<and>
      (case ad_outcome d of
         AuthDeny \<Rightarrow> d = authorization_denied \<and> is_err (bind_execution_receipt_authorization r (Some d))
       | AuthAllow \<Rightarrow> \<exists>c r'. authorization_context_from_config lookup = Some c \<and> permits c rv l i \<and>
           bind_execution_receipt_authorization r (Some d) = Inr r' \<and> mk_execution_receipt r' = Inr r' \<and>
           r' = r\<lparr>rc_authorization_revision := Some (ac_authorization_revision c)\<rparr>)"
  proof (cases "d = authorization_denied")
    case True
    then show ?thesis using authorization_denied_ok bind_denied by (simp add: authorization_denied_def)
  next
    case False
    with decided d obtain c where c: "authorization_context_from_config lookup = Some c" "authorization_ok c"
      "permits c rv l i" "d = allowed_under c"
      by (cases "authorization_context_from_config lookup") (auto split: if_splits)
    from bind_allowed[OF c(2) receipt] allowed_under_ok[OF c(2)] c show ?thesis
      by (auto simp: allowed_under_def mk_execution_receipt_def)
  qed
qed

text \<open>C33. The enforcement seam is total and typed.  On any mapping it returns: no decision exactly when
  authorization is not required and no valid context is carried; otherwise a contract-valid decision, an
  allow exactly when a valid context permits the request under the bound revision and the typed scope, and
  in every other case the one canonical denial.  Only an allow can be bound to a receipt, which then
  carries that context's revision and stays valid; binding a denial raises.\<close>

theorem config_authorization_typed:
  assumes "\<And>c. lookup authorization_config_key = Inr (Some (CarriedContext c)) \<Longrightarrow> authorization_ok c"
    and "mk_execution_receipt r = Inr r"
  shows "(case authorization_context_from_config lookup of
      None \<Rightarrow> evaluate_config_authorization lookup required rv l i =
        Inr (if required then Some authorization_denied else None)
    | Some c \<Rightarrow> authorization_ok c \<and> evaluate_config_authorization lookup required rv l i =
        Inr (Some (if permits c rv l i then allowed_under c else authorization_denied))) \<and>
    (\<forall>d. evaluate_config_authorization lookup required rv l i = Inr (Some d) \<longrightarrow>
      mk_authorization_decision d = Inr d \<and>
      (case ad_outcome d of
         AuthDeny \<Rightarrow> d = authorization_denied \<and> is_err (bind_execution_receipt_authorization r (Some d))
       | AuthAllow \<Rightarrow> \<exists>c r'. authorization_context_from_config lookup = Some c \<and> permits c rv l i \<and>
           bind_execution_receipt_authorization r (Some d) = Inr r' \<and> mk_execution_receipt r' = Inr r' \<and>
           r' = r\<lparr>rc_authorization_revision := Some (ac_authorization_revision c)\<rparr>))"
  using config_authorization_decided[OF assms] by blast

lemma scope_level_of_text: "scope_level_of (scope_level_text l) = Some l"
  by (cases l) (simp_all add: scope_level_of_def)

lemma texts_of_JStr: "texts_of (JList (map JStr ss)) = Some ss"
  by (simp add: list.pred_map list.pred_True comp_def)

lemma parse_authorization_json:
  assumes "authorization_ok c" shows "parse_authorization_context (authorization_json c) = Inr c"
  using assms by (cases c) (simp add: parse_authorization_context_def authorization_json_def parsed_field_def
      authorization_keys_def scope_level_of_text texts_of_JStr[simplified])

text \<open>The configuration carries the authorization exactly once: reading it back from the runtime
  configuration of a valid request gives the request's own context (or none), and without that one key the
  configuration is the same as that of the request without authorization.\<close>

theorem runtime_config_carries_authorization:
  assumes "mk_request_context c = Inr c"
  shows "authorization_context_from_config (configurable_of (runtime_config c)) = rq_authorization c \<and>
    dpop authorization_config_key (runtime_config c) = runtime_config (c\<lparr>rq_authorization := None\<rparr>)"
proof
  have "authorization_ok a" if "rq_authorization c = Some a" for a
    using assms that by (auto simp: mk_request_context_def opt_bad_def mk_authorization_context_def)
  then show "authorization_context_from_config (configurable_of (runtime_config c)) = rq_authorization c"
    by (auto simp: authorization_context_from_config_def configurable_of_def runtime_config_def Let_def
        authorization_config_key_def parse_authorization_json split: option.split)
  show "dpop authorization_config_key (runtime_config c) = runtime_config (c\<lparr>rq_authorization := None\<rparr>)"
    by (simp add: runtime_config_def Let_def authorization_config_key_def request_context_dump_def
        internal_thread_id_def split: option.split)
qed

section \<open>A request\<close>

definition demo_authorization :: authorization_context where
  "demo_authorization = \<lparr>ac_authorization_revision = ''rev-1'', ac_agent_enabled = True, ac_scope_level = TEAM,
     ac_allowed_scope_ids = [''12'', ''13'']\<rparr>"

definition demo_request :: request_context where
  "demo_request = \<lparr>rq_identity = \<lparr>ri_request_id = ''r1'', ri_user_id = ''alice'', ri_roles = [''analyst''],
     ri_permissions = [], ri_auth_epoch = None\<rparr>, rq_thread_id = ''t1'', rq_trace_id = ''trace'',
     rq_deadline_ms = 30000, rq_authorization = Some demo_authorization\<rparr>"

definition demo_receipt :: execution_receipt where
  "demo_receipt = \<lparr>rc_datasource = ''wh'', rc_readonly_role = ''ro'', rc_elapsed_ms = 1, rc_row_count = 0,
     rc_plan_cost = None, rc_estimated_rows = None, rc_masking_applied = False, rc_masked_columns = [],
     rc_error_taxonomy = None, rc_sql_fingerprint = [], rc_policy_version = [], rc_allowed = False,
     rc_authorization_revision = None, rc_evidence = no_evidence\<rparr>"

lemma demo_authorization_ok: "authorization_ok demo_authorization"
  by (simp add: mk_authorization_context_def demo_authorization_def length_in_def blank_def strip_def is_space_def)

lemma demo_request_ok: "mk_request_context demo_request = Inr demo_request"
  using demo_authorization_ok
  by (simp add: mk_request_context_def demo_request_def mk_request_identity_def length_in_def opt_bad_def)

lemma demo_receipt_ok: "mk_execution_receipt demo_receipt = Inr demo_receipt"
  by (simp add: mk_execution_receipt_def demo_receipt_def opt_bad_def no_evidence_def evidence_bad_def)

text \<open>Alice's configuration allows team 12 and denies area 12.\<close>

theorem config_authorization_typed_witness:
  "evaluate_config_authorization (configurable_of (runtime_config demo_request)) True (Some ''rev-1'') (Some TEAM) (Some ''12'') =
     Inr (Some (allowed_under demo_authorization)) \<and>
   evaluate_config_authorization (configurable_of (runtime_config demo_request)) False None (Some AREA) (Some ''12'') =
     Inr (Some authorization_denied) \<and>
   mk_authorization_decision (allowed_under demo_authorization) = Inr (allowed_under demo_authorization)"
proof -
  let ?lookup = "configurable_of (runtime_config demo_request)"
  have carried: "\<And>c. ?lookup authorization_config_key = Inr (Some (CarriedContext c)) \<Longrightarrow> authorization_ok c"
    by (auto simp: configurable_of_def)
  have read: "authorization_context_from_config ?lookup = Some demo_authorization" by code_simp
  have decide: "evaluate_config_authorization ?lookup required rv l i =
      Inr (Some (if permits demo_authorization rv l i then allowed_under demo_authorization else authorization_denied))" for required rv l i
    using config_authorization_typed[where lookup = ?lookup and required = required and rv = rv and l = l and i = i, OF carried demo_receipt_ok]
    by (simp add: read)
  have first: "evaluate_config_authorization ?lookup True (Some ''rev-1'') (Some TEAM) (Some ''12'') =
      Inr (Some (allowed_under demo_authorization))"
    using decide[where required = True and rv = "Some ''rev-1''" and l = "Some TEAM" and i = "Some ''12''"] by (simp add: permits_def demo_authorization_def)
  moreover have "evaluate_config_authorization ?lookup False None (Some AREA) (Some ''12'') = Inr (Some authorization_denied)"
    using decide[where required = False and rv = None and l = "Some AREA" and i = "Some ''12''"] by (simp add: permits_def demo_authorization_def)
  ultimately show ?thesis using config_authorization_typed[where lookup = ?lookup and required = True and rv = "Some ''rev-1''" and l = "Some TEAM" and i = "Some ''12''",
      OF carried demo_receipt_ok] first by simp
qed

theorem runtime_config_carries_authorization_witness:
  "authorization_context_from_config (configurable_of (runtime_config demo_request)) = Some demo_authorization \<and>
   dpop authorization_config_key (runtime_config demo_request) = runtime_config (demo_request\<lparr>rq_authorization := None\<rparr>)"
  using runtime_config_carries_authorization[OF demo_request_ok] by (simp add: demo_request_def)

end
