(* ===== verification/Plan_Run.thy ===== *)
theory Plan_Run
  imports Plan_Executor
begin

text \<open>
  What a run of the plan executor guarantees, for any runners that keep their side of the interface:
  objects they return are valid instances of their classes, and the error codes they raise are
  non-blank and fit the error field of a step receipt.  The rules \<open>good_*\<close> follow the structure of
  the step code.
\<close>

section \<open>What runners promise\<close>

definition code_ok :: "exn \<Rightarrow> bool" where
  "code_ok e \<longleftrightarrow> (case e of PlanStepError c \<Rightarrow> length_in 1 128 (strip c) | BudgetExceeded m \<Rightarrow> length_in 1 128 (strip m) | _ \<Rightarrow> True)"

definition awaited_ok :: "('a \<Rightarrow> bool) \<Rightarrow> 'a awaited \<Rightarrow> bool" where
  "awaited_ok P r \<longleftrightarrow> (case r of Returned a \<Rightarrow> P a | Raised e \<Rightarrow> code_ok e | _ \<Rightarrow> True)"

definition receipt_ok :: "execution_receipt \<Rightarrow> bool" where
  "receipt_ok r \<longleftrightarrow> mk_execution_receipt r = Inr r \<and> \<not> opt_bad (length_in 0 128) (rc_error_taxonomy r)"

definition runners_ok :: "('w, 'p) plan_runners \<Rightarrow> bool" where
  "runners_ok R \<longleftrightarrow>
     (\<forall>s qp ctx w. awaited_ok (\<lambda>p. mk_prepared_metric_step p = Inr p) (fst (metric_prepare R s qp ctx w))) \<and>
     (\<forall>p t w. awaited_ok (\<lambda>res. receipt_ok (ms_receipt res)) (fst (metric_execute R p t w))) \<and>
     (\<forall>run s i w. trusted_calculation_runner R = Some run \<longrightarrow> awaited_ok (\<lambda>_. True) (fst (run s i w))) \<and>
     (\<forall>run s i w. ad_hoc_calculation_runner R = Some run \<longrightarrow> awaited_ok (\<lambda>_. True) (fst (run s i w))) \<and>
     (\<forall>s i w. awaited_ok (\<lambda>_. True) (fst (result_verifier R s i w)))"

lemma runners_okD:
  assumes "runners_ok R"
  shows "awaited_ok (\<lambda>p. mk_prepared_metric_step p = Inr p) (fst (metric_prepare R s qp ctx w))"
    "awaited_ok (\<lambda>res. receipt_ok (ms_receipt res)) (fst (metric_execute R p t w))"
    "trusted_calculation_runner R = Some trun \<Longrightarrow> awaited_ok (\<lambda>_. True) (fst (trun ts i w))"
    "ad_hoc_calculation_runner R = Some arun \<Longrightarrow> awaited_ok (\<lambda>_. True) (fst (arun as i w))"
    "awaited_ok (\<lambda>_. True) (fst (result_verifier R vs vi w))"
  using assms by (auto simp: runners_ok_def)

section \<open>Rules for the step code\<close>

definition stop_ok :: "ledger \<Rightarrow> bool" where
  "stop_ok l \<longleftrightarrow> (\<forall>r. stop_reason l = Some r \<longrightarrow> length_in 1 128 r)"

definition ledger_good :: "ledger \<Rightarrow> bool" where
  "ledger_good l \<longleftrightarrow> ledger_inv l \<and> stop_ok l"

definition state_ok :: "'w exec_state \<Rightarrow> bool" where
  "state_ok st \<longleftrightarrow> ledger_good (xs_ledger st) \<and> (\<forall>i g. dget (xs_gateway st) i = Some g \<longrightarrow> \<not> evidence_bad (rc_evidence g))"

definition same_run :: "'w exec_state \<Rightarrow> 'w exec_state \<Rightarrow> bool" where
  "same_run st st' \<longleftrightarrow> xs_outputs st' = xs_outputs st \<and> xs_receipts st' = xs_receipts st \<and>
     limits (xs_ledger st') = limits (xs_ledger st) \<and> sql_executions (xs_ledger st) \<le> sql_executions (xs_ledger st')"

definition good :: "('w, 'a) exec \<Rightarrow> ('a \<Rightarrow> bool) \<Rightarrow> bool" where
  "good m P \<longleftrightarrow> (\<forall>st. state_ok st \<longrightarrow> state_ok (snd (m st)) \<and> same_run st (snd (m st)) \<and> awaited_ok P (fst (m st)))"

lemma goodI:
  assumes "\<And>st. state_ok st \<Longrightarrow> state_ok (snd (m st)) \<and> same_run st (snd (m st)) \<and> awaited_ok P (fst (m st))"
  shows "good m P"
  using assms by (simp add: good_def)

lemma goodD:
  assumes "good m P" "state_ok st" "m st = (r, st')"
  shows "state_ok st'" "same_run st st'" "awaited_ok P r"
  using assms unfolding good_def by (metis fst_conv snd_conv)+

lemma same_run_refl [simp]: "same_run st st"
  by (simp add: same_run_def)

lemma same_run_trans: "same_run a b \<Longrightarrow> same_run b c \<Longrightarrow> same_run a c"
  by (auto simp: same_run_def)

lemma good_bind:
  assumes m: "good m P" and f: "\<And>a. P a \<Longrightarrow> good (f a) Q"
  shows "good (exec_bind m f) Q"
proof (rule goodI)
  fix st :: "'a exec_state" assume st: "state_ok st"
  obtain r st1 where r: "m st = (r, st1)" by (cases "m st") auto
  note m1 = goodD[OF m st r]
  show "state_ok (snd (exec_bind m f st)) \<and> same_run st (snd (exec_bind m f st)) \<and> awaited_ok Q (fst (exec_bind m f st))"
  proof (cases r)
    case (Returned a)
    then have "P a" using m1(3) by (simp add: awaited_ok_def)
    from f[OF this] have "state_ok (snd (f a st1)) \<and> same_run st1 (snd (f a st1)) \<and> awaited_ok Q (fst (f a st1))"
      using m1(1) by (simp add: good_def)
    then show ?thesis using Returned r m1(2) same_run_trans by (auto simp: exec_bind_def)
  qed (use r m1 in \<open>auto simp: exec_bind_def awaited_ok_def\<close>)
qed

lemma good_lift: "awaited_ok P (of_result r) \<Longrightarrow> good (lift_result r) P"
  by (rule goodI) (simp add: lift_result_def)

lemma good_world: "(\<And>w. awaited_ok P (fst (f w))) \<Longrightarrow> good (on_world f) P"
  by (rule goodI) (auto simp: on_world_def state_ok_def same_run_def)

lemma good_state: "(\<And>st. state_ok st \<Longrightarrow> good (m st) P) \<Longrightarrow> good (\<lambda>st. m st st) P"
  by (rule goodI) (simp add: good_def)

lemma good_ledger:
  assumes "\<And>l. ledger_good l \<Longrightarrow> ledger_good (snd (f l)) \<and> limits (snd (f l)) = limits l \<and>
    sql_executions l \<le> sql_executions (snd (f l)) \<and> (\<forall>e. fst (f l) = Inl e \<longrightarrow> code_ok e)"
  shows "good (on_ledger f :: ('w, 'a) exec) (\<lambda>_. True)"
proof (rule goodI)
  fix st :: "'w exec_state" assume "state_ok st"
  with assms[of "xs_ledger st"]
  show "state_ok (snd (on_ledger f st)) \<and> same_run st (snd (on_ledger f st)) \<and> awaited_ok (\<lambda>_. True) (fst (on_ledger f st))"
    by (auto simp: on_ledger_def state_ok_def same_run_def awaited_ok_def of_result_def split: sum.splits)
qed

subsection \<open>Ledger operations\<close>

lemma length_strip: "length (strip s) \<le> length s"
proof -
  have "length (dropWhile P xs) \<le> length xs" for P and xs :: string by (rule length_dropWhile_le)
  then show ?thesis unfolding strip_def by (metis length_rev order_trans)
qed

lemma ledger_good_stop: "ledger_good l \<Longrightarrow> stop_reason l = Some r \<Longrightarrow> length_in 1 128 (strip r) \<and> length_in 1 128 r"
  by (auto simp: ledger_good_def stop_ok_def ledger_inv_def)

lemma halt_ok:
  assumes "ledger_good l" "length_in 1 128 (strip c)"
  obtains code where "fst (halt c l) = Inr code" "length_in 1 128 code" "stop_reason (snd (halt c l)) = Some code"
    "ledger_good (snd (halt c l))" "limits (snd (halt c l)) = limits l" "sql_executions (snd (halt c l)) = sql_executions l"
proof -
  have ne: "strip c \<noteq> []" using assms(2) by (auto simp: length_in_def)
  have "ledger_good (set_stop (strip c) l)"
    using assms ne ledger_inv_set_stop[of l "strip c"] by (auto simp: ledger_good_def stop_ok_def split: option.splits)
  then show ?thesis using that assms ne
    by (cases "stop_reason l") (auto simp: halt_def Let_def ledger_good_def stop_ok_def)
qed

lemma increment_good:
  assumes "ledger_good l" "length_in 1 128 reason" "strip reason = reason"
    and "ledger_inv (snd (increment c limit reason l))"
  shows "ledger_good (snd (increment c limit reason l)) \<and> limits (snd (increment c limit reason l)) = limits l \<and>
    sql_executions l \<le> sql_executions (snd (increment c limit reason l)) \<and>
    (\<forall>e. fst (increment c limit reason l) = Inl e \<longrightarrow> code_ok e)"
proof -
  have "reason \<noteq> []" using assms(2) by (auto simp: length_in_def)
  then show ?thesis using assms ledger_good_stop[OF assms(1)]
    by (cases c) (auto simp: ledger_good_def stop_ok_def increment_def ensure_active_def snd_halt code_ok_def split: option.splits if_splits)
qed

lemma begin_sql_execution_good:
  assumes "ledger_good l"
  shows "ledger_good (snd (begin_sql_execution l)) \<and> limits (snd (begin_sql_execution l)) = limits l \<and>
    sql_executions l \<le> sql_executions (snd (begin_sql_execution l)) \<and> (\<forall>e. fst (begin_sql_execution l) = Inl e \<longrightarrow> code_ok e)"
  unfolding begin_sql_execution_def
proof (rule increment_good[OF assms])
  show "ledger_inv (snd (increment SqlExecutions (max_sql_executions (limits l)) ''sql_execution_budget_exhausted'' l))"
    by (rule ledger_inv_increment) (use assms in \<open>simp_all add: ledger_good_def\<close>)
qed (simp_all add: length_in_def)

lemma record_sql_candidate_good:
  assumes "ledger_good l"
  shows "ledger_good (snd (record_sql_candidate fp l)) \<and> limits (snd (record_sql_candidate fp l)) = limits l \<and>
    sql_executions l \<le> sql_executions (snd (record_sql_candidate fp l)) \<and>
    (\<forall>e. fst (record_sql_candidate fp l) = Inl e \<longrightarrow> code_ok e)"
  using assms ledger_inv_sql_candidate[of l fp] ledger_good_stop[OF assms]
  by (auto simp: ledger_good_def record_sql_candidate_def increment_def ensure_active_def snd_halt code_ok_def stop_ok_def
      length_in_def Let_def split: option.splits if_splits)

lemma observe_join_hops_good:
  assumes "ledger_good l"
  shows "ledger_good (snd (observe_join_hops n l)) \<and> limits (snd (observe_join_hops n l)) = limits l \<and>
    sql_executions l \<le> sql_executions (snd (observe_join_hops n l)) \<and> (\<forall>e. fst (observe_join_hops n l) = Inl e \<longrightarrow> code_ok e)"
  using assms ledger_inv_join_hops[of l n] ledger_good_stop[OF assms]
  by (auto simp: ledger_good_def observe_join_hops_def ensure_active_def snd_halt code_ok_def stop_ok_def
      length_in_def split: option.splits if_splits)

text \<open>The stop reason \<open>record_sql_candidate\<close> reports is the ledger's.\<close>

lemma record_sql_candidate_reason:
  assumes "ledger_good l" "fst (record_sql_candidate fp l) = Inr (Some r)" shows "code_ok (BudgetExceeded r)"
proof -
  have "stop_reason (snd (record_sql_candidate fp l)) = Some r"
    using assms(2) by (auto simp: record_sql_candidate_def Let_def split: if_splits prod.splits sum.splits)
  then show ?thesis using ledger_good_stop record_sql_candidate_good[OF assms(1), of fp] by (auto simp: code_ok_def)
qed

lemma good_record_sql_candidate:
  "good (on_ledger (record_sql_candidate fp)) (\<lambda>stop. \<forall>r. stop = Some r \<longrightarrow> code_ok (BudgetExceeded r))"
proof (rule goodI)
  fix st :: "'w exec_state" assume st: "state_ok st"
  then have l: "ledger_good (xs_ledger st)" by (simp add: state_ok_def)
  have "good (on_ledger (record_sql_candidate fp) :: ('w, string option) exec) (\<lambda>_. True)"
    by (rule good_ledger) (rule record_sql_candidate_good)
  then have "state_ok (snd (on_ledger (record_sql_candidate fp) st)) \<and> same_run st (snd (on_ledger (record_sql_candidate fp) st)) \<and>
      awaited_ok (\<lambda>_. True) (fst (on_ledger (record_sql_candidate fp) st))" using st by (simp add: good_def)
  then show "state_ok (snd (on_ledger (record_sql_candidate fp) st)) \<and> same_run st (snd (on_ledger (record_sql_candidate fp) st)) \<and>
      awaited_ok (\<lambda>stop. \<forall>r. stop = Some r \<longrightarrow> code_ok (BudgetExceeded r)) (fst (on_ledger (record_sql_candidate fp) st))"
    using record_sql_candidate_reason[OF l] by (auto simp: awaited_ok_def on_ledger_def of_result_def split: sum.splits)
qed

subsection \<open>The four kinds of step\<close>

lemma awaited_ok_err [simp]: "awaited_ok P (of_result (Inl e)) \<longleftrightarrow> code_ok e" "awaited_ok P (of_result (Inr a)) \<longleftrightarrow> P a"
  by (simp_all add: awaited_ok_def of_result_def)

lemma strip_literal: "s \<noteq> [] \<Longrightarrow> \<not> is_space (hd s) \<Longrightarrow> \<not> is_space (last s) \<Longrightarrow> strip s = s"
proof -
  assume a: "s \<noteq> []" "\<not> is_space (hd s)" "\<not> is_space (last s)"
  then have "dropWhile is_space s = s" by (cases s) auto
  moreover have "dropWhile is_space (rev s) = rev s" using a by (cases s rule: rev_cases) auto
  ultimately show ?thesis by (simp add: strip_def)
qed

lemma literal_codes [simp]:
  "code_ok (PlanStepError ''plan_step_output_not_json'')" "code_ok (PlanStepError ''execution_input_ref_missing'')"
  "code_ok (PlanStepError ''trusted_calculation_unavailable'')" "code_ok (PlanStepError ''ad_hoc_calculation_unavailable'')"
  "code_ok (PlanStepError ''ad_hoc_calculation_scalar_input_required'')"
  "code_ok (PlanStepError ''execution_receipt_fingerprint_mismatch'')" "code_ok (PlanStepError ''execution_receipt_policy_missing'')"
  "code_ok (PlanStepError ''execution_receipt_identity_missing'')"
  by (simp_all add: code_ok_def strip_literal is_space_def length_in_def)

lemma plan_step_error_ok: "length c \<le> 128 \<Longrightarrow> code_ok (plan_step_error c)"
  using length_strip[of c] by (auto simp: plan_step_error_def code_ok_def Let_def length_in_def Suc_le_eq)

lemma receipt_failure_ok: "receipt_ok r \<Longrightarrow> receipt_failure p r = Some e \<Longrightarrow> code_ok e"
  by (auto simp: receipt_failure_def receipt_ok_def opt_bad_def length_in_def split: if_splits option.splits intro!: plan_step_error_ok)

lemma good_json: "good (lift_result (json_value v)) (\<lambda>_. True)"
  by (rule good_lift) (auto simp: json_value_def split: option.splits)

lemma resolve_refs_err: "resolve_refs outputs rs = Inl e \<Longrightarrow> e = ref_missing"
proof (induction rs)
  case (Cons r rs)
  have "walk_ref v ps = Inl e' \<Longrightarrow> e' = ref_missing" for v ps e'
    by (induction v ps rule: walk_ref.induct) (auto split: option.splits if_splits)
  then have "resolve_ref r outputs = Inl e' \<Longrightarrow> e' = ref_missing" for e'
    by (auto simp: resolve_ref_def Let_def split: option.splits)
  with Cons show ?case by (auto split: sum.splits)
qed simp

lemma good_refs: "good (lift_result (resolve_refs outputs rs)) (\<lambda>_. True)"
  by (rule good_lift) (cases "resolve_refs outputs rs"; auto dest: resolve_refs_err simp: ref_missing_def)

lemma good_inputs: "good (lift_result (resolve_inputs outputs refs)) (\<lambda>_. True)"
  by (rule good_lift, unfold resolve_inputs_def)
    (cases "resolve_refs outputs (map snd refs)"; auto dest: resolve_refs_err simp: ref_missing_def)

lemma good_fetch:
  fixes R :: "('w, 'p) plan_runners"
  assumes "runners_ok R" shows "good (execute_fetch R qp ctx t s) (\<lambda>_. True)"
proof -
  have store: "good (\<lambda>st :: 'w exec_state. lift_result (json_value v) (st\<lparr>xs_gateway := dset i g (xs_gateway st)\<rparr>)) (\<lambda>_. True)"
    if "receipt_ok g" for v i g
  proof (rule goodI)
    fix st :: "'w exec_state" assume "state_ok st"
    then have "state_ok (st\<lparr>xs_gateway := dset i g (xs_gateway st)\<rparr>)"
      using that by (auto simp: state_ok_def receipt_ok_def mk_execution_receipt_def)
    moreover have "awaited_ok (\<lambda>_. True) (of_result (json_value v))" by (auto simp: json_value_def split: option.splits)
    ultimately show "state_ok (snd (lift_result (json_value v) (st\<lparr>xs_gateway := dset i g (xs_gateway st)\<rparr>))) \<and>
        same_run st (snd (lift_result (json_value v) (st\<lparr>xs_gateway := dset i g (xs_gateway st)\<rparr>))) \<and>
        awaited_ok (\<lambda>_. True) (fst (lift_result (json_value v) (st\<lparr>xs_gateway := dset i g (xs_gateway st)\<rparr>)))"
      by (simp add: lift_result_def same_run_def)
  qed
  have post: "good (case receipt_failure p (ms_receipt res) of Some e \<Rightarrow> lift_result (Inl e)
      | None \<Rightarrow> (\<lambda>st :: 'w exec_state. lift_result (json_value (ms_value res)) (st\<lparr>xs_gateway := dset i (ms_receipt res) (xs_gateway st)\<rparr>))) (\<lambda>_. True)"
    if "receipt_ok (ms_receipt res)" for p :: "'p prepared_metric_step" and res i
    using that store receipt_failure_ok by (auto split: option.splits intro!: good_lift)
  let ?post = "\<lambda>p res. case receipt_failure p (ms_receipt res) of Some e \<Rightarrow> lift_result (Inl e)
      | None \<Rightarrow> (\<lambda>st. lift_result (json_value (ms_value res)) (st\<lparr>xs_gateway := dset (fm_step_id s) (ms_receipt res) (xs_gateway st)\<rparr>))"
  have run: "good (exec_bind (on_world (metric_execute R p t)) (?post p)) (\<lambda>_. True)" for p
    by (rule good_bind[OF good_world[OF runners_okD(2)[OF assms]] post])
  have begin': "good (exec_bind (on_ledger begin_sql_execution) (\<lambda>_. exec_bind (on_world (metric_execute R p t)) (?post p))) (\<lambda>_. True)" for p
    by (rule good_bind[OF good_ledger[OF begin_sql_execution_good] run])
  have joins: "good (exec_bind (on_ledger (observe_join_hops (pm_join_hops p))) (\<lambda>_.
      exec_bind (on_ledger begin_sql_execution) (\<lambda>_. exec_bind (on_world (metric_execute R p t)) (?post p)))) (\<lambda>_. True)" for p
    by (rule good_bind[OF good_ledger[OF observe_join_hops_good] begin'])
  show ?thesis unfolding execute_fetch_def
  proof (rule good_bind[OF good_world[OF runners_okD(1)[OF assms]]], rule good_bind[OF good_record_sql_candidate])
    fix p stop assume "\<forall>r. stop = Some r \<longrightarrow> code_ok (BudgetExceeded r)"
    then show "good (case stop of Some reason \<Rightarrow> lift_result (Inl (BudgetExceeded reason))
      | None \<Rightarrow> exec_bind (on_ledger (observe_join_hops (pm_join_hops p))) (\<lambda>_.
          exec_bind (on_ledger begin_sql_execution) (\<lambda>_. exec_bind (on_world (metric_execute R p t)) (?post p)))) (\<lambda>_. True)"
      using joins by (cases stop) (auto intro!: good_lift)
  qed
qed

lemma good_step:
  assumes "runners_ok R" shows "good (execute_step R qp ctx t s) (\<lambda>_. True)"
proof (cases s)
  case (FetchMetric x)
  then show ?thesis using good_fetch[OF assms] by simp
next
  case (TrustedCalculation x)
  have "good (\<lambda>st. exec_bind (lift_result (resolve_inputs (xs_outputs st) (tc_input_refs x))) (\<lambda>inputs.
      exec_bind (on_world (run x inputs)) (\<lambda>output. lift_result (json_value output))) st) (\<lambda>_. True)"
    if "trusted_calculation_runner R = Some run" for run
    by (rule good_state, rule good_bind[OF good_inputs], rule good_bind[OF good_world[OF runners_okD(3)[OF assms that]] good_json])
  then show ?thesis using TrustedCalculation by (auto simp: execute_trusted_def split: option.splits intro!: good_lift)
next
  case (AdHocCalculation x)
  have "good (\<lambda>st. exec_bind (lift_result (resolve_inputs (xs_outputs st) (ah_input_refs x))) (\<lambda>inputs.
      if list_ex (\<lambda>v. \<not> is_scalar v) (map snd inputs)
      then lift_result (Inl (PlanStepError ''ad_hoc_calculation_scalar_input_required''))
      else exec_bind (on_world (run x inputs)) (\<lambda>output. lift_result (json_value output))) st) (\<lambda>_. True)"
    if "ad_hoc_calculation_runner R = Some run" for run
  proof (rule good_state, rule good_bind[OF good_inputs], split if_split, intro conjI impI)
    show "good (exec_bind (on_world (run x inputs)) (\<lambda>output. lift_result (json_value output))) (\<lambda>_. True)" for inputs
      by (rule good_bind[OF good_world[OF runners_okD(4)[OF assms that]] good_json])
  qed (rule good_lift, simp)
  then show ?thesis using AdHocCalculation by (auto simp: execute_ad_hoc_def split: option.splits intro!: good_lift)
next
  case (Verify x)
  have "good (\<lambda>st. exec_bind (lift_result (resolve_refs (xs_outputs st) (vs_input_refs x))) (\<lambda>inputs.
      exec_bind (on_world (result_verifier R x inputs)) (\<lambda>output. lift_result (json_value output))) st) (\<lambda>_. True)"
    by (rule good_state, rule good_bind[OF good_refs], rule good_bind[OF good_world[OF runners_okD(5)[OF assms]] good_json])
  moreover have "execute_step R qp ctx t s = (\<lambda>st. exec_bind (lift_result (resolve_refs (xs_outputs st) (vs_input_refs x))) (\<lambda>inputs.
      exec_bind (on_world (result_verifier R x inputs)) (\<lambda>output. lift_result (json_value output))) st)"
    using Verify by (auto simp: execute_verify_def fun_eq_iff)
  ultimately show ?thesis by simp
qed

section \<open>Receipts\<close>

lemma step_bad_id: "\<not> step_bad h s \<Longrightarrow> plan_step_id (step_id s)"
  by (cases s) (auto simp: mk_fetch_metric_step_def mk_trusted_calculation_step_def mk_ad_hoc_calculation_step_def mk_verify_step_def Let_def)

lemma no_evidence_ok [simp]: "\<not> evidence_bad no_evidence"
  by (simp add: evidence_bad_def no_evidence_def opt_bad_def)

lemma failed_step_ok:
  assumes "plan_step_id (step_id s)" "length_in 1 128 code"
  shows "failed_step s ms code = Inr ((blank_receipt s ms)\<lparr>sr_error_code := Some code\<rparr>)"
  using assms by (simp add: failed_step_def mk_plan_step_receipt_def blank_receipt_def opt_bad_def ad_hoc_provenance_def declared_def Let_def)

lemma calculation_id_length: "calculation_id_ok s \<Longrightarrow> length_in 1 128 s"
  by (cases s) (auto simp: calculation_id_ok_def length_in_def)

lemma succeeded_step_ok:
  assumes s: "\<not> step_bad h s" and h: "\<And>t. is_hex64 (h t)" and g: "\<And>x. g = Some x \<Longrightarrow> \<not> evidence_bad (rc_evidence x)"
  obtains r where "succeeded_step h s ms j g = Inr r" "sr_step_id r = step_id s" "sr_succeeded r" "sr_kind r = kind_of_step s"
proof -
  let ?r = "(with_calculation h s (blank_receipt s ms))\<lparr>sr_succeeded := True, sr_output_digest := Some (json_digest h j),
      sr_evidence := (case g of None \<Rightarrow> no_evidence | Some g \<Rightarrow> rc_evidence g)\<rparr>"
  have e: "\<not> evidence_bad (case g of None \<Rightarrow> no_evidence | Some g \<Rightarrow> rc_evidence g)" using g by (auto split: option.splits)
  have d: "is_hex64 (json_digest h j)" "is_hex64 (spec_checksum h c)" "is_hex64 (binding_checksum h b)" for c b
    by (simp_all add: json_digest_def spec_checksum_def binding_checksum_def checksum_of_def h)
  have "mk_plan_step_receipt ?r = Inr ?r"
    using s step_bad_id[OF s] e d calculation_id_length
    by (cases s) (auto simp: mk_plan_step_receipt_def blank_receipt_def ad_hoc_provenance_def declared_def opt_bad_def Let_def
        mk_trusted_calculation_step_def mk_ad_hoc_calculation_step_def split: option.splits)
  then show thesis
    by (intro that[of ?r]) (cases s; simp add: succeeded_step_def blank_receipt_def)+
qed

lemma state_receipt:
  assumes "\<not> step_bad h s" "\<And>t. is_hex64 (h t)" "state_ok st"
  obtains r where "succeeded_step h s ms j (dget (xs_gateway st) (step_id s)) = Inr r"
    "sr_step_id r = step_id s" "sr_succeeded r" "sr_kind r = kind_of_step s"
proof (rule succeeded_step_ok[OF assms(1,2)])
  show "\<not> evidence_bad (rc_evidence x)" if "dget (xs_gateway st) (step_id s) = Some x" for x
    using assms(3) that by (auto simp: state_ok_def)
qed

lemma finish_ok:
  assumes "is_hex64 c" "length rs \<le> 16" "distinct (map sr_step_id rs)" "\<And>r. r \<in> set rs \<Longrightarrow> plan_step_id (sr_step_id r)"
    and "map fst outputs = map sr_step_id (filter sr_succeeded rs)"
    and "status = ExecSucceeded \<and> stop = None \<and> rs \<noteq> [] \<and> list_all sr_succeeded rs \<or>
      status \<noteq> ExecSucceeded \<and> (\<exists>code. stop = Some code \<and> length_in 1 128 code)"
  defines "x \<equiv> \<lparr>px_record = \<lparr>xr_execution_plan_checksum = c, xr_status = status, xr_step_receipts = rs,
      xr_output_step_ids = map fst outputs, xr_stop_reason = stop\<rparr>, px_outputs = outputs\<rparr>"
  shows "finish c status stop rs outputs = Returned x" "mk_plan_execution_record (px_record x) = Inr (px_record x)"
proof -
  have "length (filter sr_succeeded rs) \<le> 16" using assms(2) length_filter_le[of sr_succeeded rs] by linarith
  then have *: "mk_plan_execution_record \<lparr>xr_execution_plan_checksum = c, xr_status = status, xr_step_receipts = rs,
      xr_output_step_ids = map sr_step_id (filter sr_succeeded rs), xr_stop_reason = stop\<rparr> =
    Inr \<lparr>xr_execution_plan_checksum = c, xr_status = status, xr_step_receipts = rs,
      xr_output_step_ids = map sr_step_id (filter sr_succeeded rs), xr_stop_reason = stop\<rparr>"
    using assms(1-4,6) by (auto simp: mk_plan_execution_record_def length_in_def opt_bad_def list_all_iff list_ex_iff Let_def)
  then show "finish c status stop rs outputs = Returned x" "mk_plan_execution_record (px_record x) = Inr (px_record x)"
    by (simp_all add: finish_def of_result_def x_def assms(5))
qed

section \<open>Halting and fetching\<close>

lemma halt_for_ok:
  assumes "ledger_good l" "code_ok e"
  obtains code where "fst (halt_for e l) = Inr code" "length_in 1 128 code" "stop_reason (snd (halt_for e l)) = Some code"
    "ledger_good (snd (halt_for e l))" "limits (snd (halt_for e l)) = limits l" "sql_executions (snd (halt_for e l)) = sql_executions l"
proof -
  note result = that
  have default: "thesis" if "halt_for e l = halt c l" "length_in 1 128 (strip c)" for c
    by (rule halt_ok[OF assms(1) that(2)], rule result, simp_all only: that(1))
  have stopped: "thesis" if "halt_for e l = (Inr c, l)" "stop_reason l = Some c" for c
    by (rule result[of c]) (use that assms(1) in \<open>auto simp: ledger_good_def stop_ok_def\<close>)
  have literal: "length_in 1 128 (strip ''plan_step_failed'')" by (simp add: strip_literal is_space_def length_in_def)
  show thesis
  proof (cases e)
    case (BudgetExceeded m)
    show thesis
    proof (cases "stop_reason l")
      case None
      then show ?thesis using BudgetExceeded assms(2) default[of m] by (simp add: stop_or_halt_def code_ok_def)
    next
      case (Some r)
      then have "r \<noteq> []" using assms(1) by (auto simp: ledger_good_def stop_ok_def length_in_def)
      then show ?thesis using BudgetExceeded Some stopped[of r] by (cases r) (simp_all add: stop_or_halt_def)
    qed
  next
    case (PlanStepError c)
    then show thesis using assms(2) default[of c] by (simp add: code_ok_def)
  qed (use default[OF _ literal] in simp_all)
qed

lemma begin_sql_execution_Inr:
  "fst (begin_sql_execution l) = Inr u \<Longrightarrow> sql_executions (snd (begin_sql_execution l)) = sql_executions l + 1"
  by (auto simp: begin_sql_execution_def increment_def split: option.splits if_splits)

lemma exec_bind_Returned:
  "exec_bind m f st = (Returned b, st') \<longleftrightarrow> (\<exists>a st1. m st = (Returned a, st1) \<and> f a st1 = (Returned b, st'))"
  by (auto simp: exec_bind_def split: prod.splits awaited.splits)

lemma candidate_executions: "sql_executions (snd (record_sql_candidate fp l)) = sql_executions l"
  by (auto simp: record_sql_candidate_def increment_def ensure_active_def snd_halt Let_def split: option.splits if_splits)

lemma join_hops_executions: "sql_executions (snd (observe_join_hops n l)) = sql_executions l"
  by (auto simp: observe_join_hops_def ensure_active_def snd_halt split: option.splits if_splits)

text \<open>A fetch that returns has used exactly one SQL execution of the budget.\<close>

lemma fetch_counts:
  assumes "execute_fetch R qp ctx t s st = (Returned j, st')"
  shows "sql_executions (xs_ledger st') = sql_executions (xs_ledger st) + 1"
proof -
  obtain p st1 stop st2 where 1: "on_world (metric_prepare R s qp ctx) st = (Returned p, st1)"
    "on_ledger (record_sql_candidate (pm_sql_fingerprint p)) st1 = (Returned stop, st2)"
    and r: "(case stop of Some reason \<Rightarrow> lift_result (Inl (BudgetExceeded reason))
     | None \<Rightarrow>
         exec_bind (on_ledger (observe_join_hops (pm_join_hops p))) (\<lambda>_.
         exec_bind (on_ledger begin_sql_execution) (\<lambda>_.
         exec_bind (on_world (metric_execute R p t)) (\<lambda>res.
         case receipt_failure p (ms_receipt res) of
           Some e \<Rightarrow> lift_result (Inl e)
         | None \<Rightarrow> (\<lambda>st. lift_result (json_value (ms_value res))
               (st\<lparr>xs_gateway := dset (fm_step_id s) (ms_receipt res) (xs_gateway st)\<rparr>)))))) st2 = (Returned j, st')"
    using assms unfolding execute_fetch_def exec_bind_Returned by blast
  have "stop = None" using r by (cases stop) (auto simp: lift_result_def of_result_def)
  then obtain u st3 v st4 res st5 where 2: "on_ledger (observe_join_hops (pm_join_hops p)) st2 = (Returned u, st3)"
    "on_ledger begin_sql_execution st3 = (Returned v, st4)" "on_world (metric_execute R p t) st4 = (Returned res, st5)"
    and e: "(case receipt_failure p (ms_receipt res) of
           Some e \<Rightarrow> lift_result (Inl e)
         | None \<Rightarrow> (\<lambda>st. lift_result (json_value (ms_value res))
               (st\<lparr>xs_gateway := dset (fm_step_id s) (ms_receipt res) (xs_gateway st)\<rparr>))) st5 = (Returned j, st')"
    using r by (auto simp: exec_bind_Returned)
  have "xs_ledger st' = xs_ledger st5" using e by (auto simp: lift_result_def split: option.splits)
  moreover have "sql_executions (xs_ledger st4) = sql_executions (xs_ledger st3) + 1"
    using 2(2) begin_sql_execution_Inr[of "xs_ledger st3"] by (auto simp: on_ledger_def of_result_def split: sum.splits)
  ultimately show ?thesis using 1 2(1,3) candidate_executions join_hops_executions by (auto simp: on_world_def on_ledger_def)
qed

section \<open>Runs\<close>

text \<open>What the returned result looks like for the ordered steps \<open>ss\<close>.\<close>

definition run_shape :: "plan_step list \<Rightarrow> plan_execution_result \<Rightarrow> bool" where
  "run_shape ss x \<longleftrightarrow> (let r = px_record x; rs = xr_step_receipts r in
     mk_plan_execution_record r = Inr r \<and> length rs \<le> length ss \<and> map sr_step_id rs = map step_id (take (length rs) ss) \<and>
     list_all sr_succeeded (butlast rs) \<and> map fst (px_outputs x) = xr_output_step_ids r \<and>
     (xr_status r = ExecSucceeded \<longleftrightarrow> length rs = length ss \<and> list_all sr_succeeded rs))"

definition fetch_successes :: "plan_step_receipt list \<Rightarrow> int" where
  "fetch_successes rs = int (length (filter (\<lambda>r. sr_succeeded r \<and> sr_kind r = KFetchMetric) rs))"

text \<open>The state after the steps \<open>dn\<close> have succeeded, with \<open>base\<close> SQL executions used before the run.\<close>

definition progress :: "int \<Rightarrow> plan_step list \<Rightarrow> 'w exec_state \<Rightarrow> bool" where
  "progress base dn st \<longleftrightarrow> state_ok st \<and> map fst (xs_outputs st) = map step_id dn \<and>
     map sr_step_id (xs_receipts st) = map step_id dn \<and> list_all sr_succeeded (xs_receipts st) \<and>
     fetch_successes (xs_receipts st) \<le> sql_executions (xs_ledger st) - base"

definition run_post :: "int \<Rightarrow> route_budget \<Rightarrow> plan_step list \<Rightarrow> plan_execution_result awaited \<times> 'w exec_state \<Rightarrow> bool" where
  "run_post base cap ss out \<longleftrightarrow> (case out of (r, st) \<Rightarrow>
     ledger_good (xs_ledger st) \<and> limits (xs_ledger st) = cap \<and> base \<le> sql_executions (xs_ledger st) \<and>
     (r = Cancelled \<or> (\<exists>x. r = Returned x \<and> run_shape ss x \<and>
        fetch_successes (xr_step_receipts (px_record x)) \<le> sql_executions (xs_ledger st) - base \<and>
        (xr_status (px_record x) \<noteq> ExecSucceeded \<longrightarrow>
           stop_reason (xs_ledger st) \<noteq> None \<and> stop_reason (xs_ledger st) = xr_stop_reason (px_record x)))))"

lemma fetch_successes_append:
  "fetch_successes (rs @ [r]) = fetch_successes rs + (if sr_succeeded r \<and> sr_kind r = KFetchMetric then 1 else 0)"
  by (simp add: fetch_successes_def)

lemma fetch_successes_nonneg [simp]: "0 \<le> fetch_successes rs"
  by (simp add: fetch_successes_def)

lemma filter_all: "list_all P xs \<Longrightarrow> filter P xs = xs"
  by (induction xs) auto

lemma fail_with_post:
  assumes p: "progress base dn st" and ss: "distinct (map step_id (dn @ s # rest))" "length (dn @ s # rest) \<le> 16"
    and ids: "\<And>x. x \<in> set (dn @ s # rest) \<Longrightarrow> plan_step_id (step_id x)" and c: "is_hex64 c" and status: "status \<noteq> ExecSucceeded"
    and halted: "fst halted = Inr code" "length_in 1 128 code" "stop_reason (snd halted) = Some code"
      "ledger_good (snd halted)" "limits (snd halted) = cap" "sql_executions (snd halted) = sql_executions (xs_ledger st)"
  shows "run_post base cap (dn @ s # rest) (fail_with R c status s started halted st)"
proof -
  let ?r = "(blank_receipt s (elapsed_ms R started (xs_world st)))\<lparr>sr_error_code := Some code\<rparr>"
  let ?rs = "xs_receipts st @ [?r]"
  have r: "sr_step_id ?r = step_id s" "\<not> sr_succeeded ?r" by (simp_all add: blank_receipt_def)
  have p': "map fst (xs_outputs st) = map step_id dn" "map sr_step_id (xs_receipts st) = map step_id dn"
    "list_all sr_succeeded (xs_receipts st)" "fetch_successes (xs_receipts st) \<le> sql_executions (xs_ledger st) - base"
    using p by (simp_all add: progress_def)
  have len: "length (xs_receipts st) = length dn" using p'(2) by (metis length_map)
  have rid: "map sr_step_id ?rs = map step_id (dn @ [s])" using p'(2) r(1) by simp
  have f: "failed_step s (elapsed_ms R started (xs_world st)) code = Inr ?r"
    using ids[of s] halted(2) by (intro failed_step_ok) simp_all
  have "plan_step_id (sr_step_id q)" if "q \<in> set ?rs" for q
  proof -
    have "sr_step_id q \<in> set (map step_id (dn @ [s]))" using that rid by (metis in_set_conv_decomp list.set_map image_eqI)
    then show ?thesis using ids by auto
  qed
  moreover have "distinct (map sr_step_id ?rs)" unfolding rid using ss(1) by simp
  moreover have "map fst (xs_outputs st) = map sr_step_id (filter sr_succeeded ?rs)"
    using p'(1-3) r(2) by (simp add: filter_all)
  ultimately have fin: "finish c status (Some code) ?rs (xs_outputs st) = Returned \<lparr>px_record = \<lparr>xr_execution_plan_checksum = c,
      xr_status = status, xr_step_receipts = ?rs, xr_output_step_ids = map fst (xs_outputs st), xr_stop_reason = Some code\<rparr>,
      px_outputs = xs_outputs st\<rparr>"
    "mk_plan_execution_record \<lparr>xr_execution_plan_checksum = c,
      xr_status = status, xr_step_receipts = ?rs, xr_output_step_ids = map fst (xs_outputs st), xr_stop_reason = Some code\<rparr> =
     Inr \<lparr>xr_execution_plan_checksum = c,
      xr_status = status, xr_step_receipts = ?rs, xr_output_step_ids = map fst (xs_outputs st), xr_stop_reason = Some code\<rparr>"
    using finish_ok[OF c, of ?rs "xs_outputs st" status "Some code"] ss(2) len status halted(2) by (simp_all add: list_all_iff)
  have "fetch_successes ?rs \<le> sql_executions (snd halted) - base"
    using p'(4) halted(6) r(2) fetch_successes_append[of "xs_receipts st" ?r] by simp
  moreover have "base \<le> sql_executions (snd halted)" using p'(4) halted(6) fetch_successes_nonneg[of "xs_receipts st"] by linarith
  ultimately show ?thesis using halted f fin rid r p'(3) len status
    by (simp add: run_post_def fail_with_def Let_def run_shape_def)
qed

lemma run_steps_post:
  assumes R: "runners_ok R" and h: "\<And>t. is_hex64 (h t)" and c: "is_hex64 c"
    and "distinct (map step_id (dn @ rest))" "length (dn @ rest) \<le> 16" "\<And>x. x \<in> set (dn @ rest) \<Longrightarrow> \<not> step_bad h x"
    and "dn @ rest \<noteq> []" "progress base dn st" "limits (xs_ledger st) = cap"
  shows "run_post base cap (dn @ rest) (run_steps h R qp ctx t c rest st)"
  using assms(4-)
proof (induction rest arbitrary: dn st)
  case Nil
  have p: "map fst (xs_outputs st) = map step_id dn" "map sr_step_id (xs_receipts st) = map step_id dn"
    "list_all sr_succeeded (xs_receipts st)" "fetch_successes (xs_receipts st) \<le> sql_executions (xs_ledger st) - base"
    "ledger_good (xs_ledger st)"
    using Nil(5) by (simp_all add: progress_def state_ok_def)
  have len: "length (xs_receipts st) = length dn" using p(2) by (metis length_map)
  have ne: "xs_receipts st \<noteq> []" using len Nil(4) by auto
  have "plan_step_id (sr_step_id q)" if "q \<in> set (xs_receipts st)" for q
  proof -
    have "sr_step_id q \<in> set (map step_id dn)" using that p(2) by (metis list.set_map image_eqI)
    then show ?thesis using Nil(3) step_bad_id[of h] by auto
  qed
  then have fin: "finish c ExecSucceeded None (xs_receipts st) (xs_outputs st) = Returned \<lparr>px_record = \<lparr>xr_execution_plan_checksum = c,
      xr_status = ExecSucceeded, xr_step_receipts = xs_receipts st, xr_output_step_ids = map fst (xs_outputs st), xr_stop_reason = None\<rparr>,
      px_outputs = xs_outputs st\<rparr>"
    "mk_plan_execution_record \<lparr>xr_execution_plan_checksum = c,
      xr_status = ExecSucceeded, xr_step_receipts = xs_receipts st, xr_output_step_ids = map fst (xs_outputs st), xr_stop_reason = None\<rparr> =
     Inr \<lparr>xr_execution_plan_checksum = c,
      xr_status = ExecSucceeded, xr_step_receipts = xs_receipts st, xr_output_step_ids = map fst (xs_outputs st), xr_stop_reason = None\<rparr>"
    using finish_ok[OF c, of "xs_receipts st" "xs_outputs st" ExecSucceeded None] Nil(1,2) p len ne by (auto simp: filter_all)
  have "list_all sr_succeeded (butlast (xs_receipts st))" using p(3) by (auto simp: list_all_iff dest: in_set_butlastD)
  moreover have "base \<le> sql_executions (xs_ledger st)" using p(4) fetch_successes_nonneg[of "xs_receipts st"] by linarith
  ultimately show ?case using fin p len Nil(6) by (simp add: run_post_def run_shape_def Let_def)
next
  case (Cons s rest)
  obtain r1 st1 where run: "execute_step R qp ctx t s st = (r1, st1)" by (cases "execute_step R qp ctx t s st")
  have st: "state_ok st" using Cons.prems(5) by (simp add: progress_def)
  note g = goodD[OF good_step[OF R] st run]
  have p1: "progress base dn st1" using Cons.prems(5) g(1,2) by (auto simp: progress_def same_run_def)
  have cap1: "limits (xs_ledger st1) = cap" using g(2) Cons.prems(6) by (simp add: same_run_def)
  have l1: "ledger_good (xs_ledger st1)" using g(1) by (simp add: state_ok_def)
  have ids: "\<And>x. x \<in> set (dn @ s # rest) \<Longrightarrow> plan_step_id (step_id x)" using Cons.prems(3) step_bad_id by blast
  note failing = fail_with_post[OF p1 Cons.prems(1,2) ids c]
  show ?case
  proof (cases r1)
    case Cancelled
    moreover have "base \<le> sql_executions (xs_ledger st1)"
      using p1 fetch_successes_nonneg[of "xs_receipts st1"] unfolding progress_def by linarith
    ultimately show ?thesis using run l1 cap1 by (simp add: run_post_def)
  next
    case DeadlineHit
    have fresh: "step_id s \<notin> set (map sr_step_id (xs_receipts st1))" using p1 Cons.prems(1) by (auto simp: progress_def)
    have lit: "length_in 1 128 (strip ''execution_deadline_exceeded'')" by (simp add: strip_literal is_space_def length_in_def)
    obtain code where "fst (halt ''execution_deadline_exceeded'' (xs_ledger st1)) = Inr code" "length_in 1 128 code"
      "stop_reason (snd (halt ''execution_deadline_exceeded'' (xs_ledger st1))) = Some code"
      "ledger_good (snd (halt ''execution_deadline_exceeded'' (xs_ledger st1)))"
      "limits (snd (halt ''execution_deadline_exceeded'' (xs_ledger st1))) = limits (xs_ledger st1)"
      "sql_executions (snd (halt ''execution_deadline_exceeded'' (xs_ledger st1))) = sql_executions (xs_ledger st1)"
      by (rule halt_ok[OF l1 lit])
    then show ?thesis using failing[of ExecDeadlineExceeded] run DeadlineHit fresh cap1 by simp
  next
    case (Raised e)
    then have "code_ok e" using g(3) by (simp add: awaited_ok_def)
    then obtain code where "fst (halt_for e (xs_ledger st1)) = Inr code" "length_in 1 128 code"
      "stop_reason (snd (halt_for e (xs_ledger st1))) = Some code" "ledger_good (snd (halt_for e (xs_ledger st1)))"
      "limits (snd (halt_for e (xs_ledger st1))) = limits (xs_ledger st1)"
      "sql_executions (snd (halt_for e (xs_ledger st1))) = sql_executions (xs_ledger st1)"
      by (rule halt_for_ok[OF l1])
    then show ?thesis using failing[of ExecFailed] run Raised cap1 by simp
  next
    case (Returned j)
    let ?st2 = "st1\<lparr>xs_outputs := dset (step_id s) j (xs_outputs st1)\<rparr>"
    obtain r where r: "succeeded_step h s (elapsed_ms R (xs_world st) (xs_world st1)) j (dget (xs_gateway st1) (step_id s)) = Inr r"
      "sr_step_id r = step_id s" "sr_succeeded r" "sr_kind r = kind_of_step s"
      using Cons.prems(3)[of s] by (rule_tac state_receipt[OF _ h g(1)]) auto
    let ?st3 = "?st2\<lparr>xs_receipts := xs_receipts st1 @ [r]\<rparr>"
    have new: "step_id s \<notin> fst ` set (xs_outputs st1)"
      using p1 Cons.prems(1) unfolding progress_def by (metis distinct_append disjoint_iff list.set_intros(1) list.set_map list.simps(9) map_append)
    have "fetch_successes (xs_receipts st1 @ [r]) \<le> sql_executions (xs_ledger st1) - base"
    proof (cases s)
      case (FetchMetric f)
      then have "sql_executions (xs_ledger st1) = sql_executions (xs_ledger st) + 1"
        using run Returned by (intro fetch_counts) simp
      then show ?thesis using Cons.prems(5) g(2) by (simp add: fetch_successes_append progress_def same_run_def)
    qed (use p1 r(4) in \<open>simp_all add: fetch_successes_append progress_def\<close>)
    then have "progress base (dn @ [s]) ?st3"
      using p1 r(2,3) new by (simp add: progress_def state_ok_def dset_new)
    from Cons.IH[of "dn @ [s]" ?st3, OF _ _ _ _ this] Cons.prems cap1
    have "run_post base cap ((dn @ [s]) @ rest) (run_steps h R qp ctx t c rest ?st3)" by simp
    then show ?thesis using run Returned r(1) by simp
  qed
qed

section \<open>The executor\<close>

lemma start_refusal_ok:
  assumes "start_refusal h qp ctx p v ev ec b d = Some (code, status)"
  shows "length_in 1 128 (strip code)" "length_in 1 128 code" "status \<noteq> ExecSucceeded"
proof -
  have "code \<in> {''execution_plan_query_hash_mismatch'', ''execution_plan_semantic_release_mismatch'', ''execution_plan_schema_snapshot_mismatch'',
      ''execution_plan_validation_denied'', ''execution_plan_context_hash_mismatch'', ''execution_plan_checksum_mismatch'',
      ''execution_plan_policy_version_mismatch'', ''execution_plan_policy_checksum_mismatch'', ''execution_deadline_unavailable'', ''deadline_reserve''} \<and>
      status \<noteq> ExecSucceeded"
    using assms unfolding start_refusal_def execution_plan_mismatch_def execution_validation_mismatch_def
    by (auto split: option.splits if_splits)
  moreover from this have "strip code = code" by (auto intro!: strip_literal simp: is_space_def)
  ultimately show "length_in 1 128 (strip code)" "length_in 1 128 code" "status \<noteq> ExecSucceeded" by (auto simp: length_in_def)
qed

lemma mset_set: "mset xs = mset ys \<Longrightarrow> set xs = set ys" "mset xs = mset ys \<Longrightarrow> length xs = length ys"
  by (metis set_mset_mset) (metis size_mset)

lemma refused_record:
  assumes "is_hex64 c" "length_in 1 128 code" "status \<noteq> ExecSucceeded"
  defines "x \<equiv> \<lparr>px_record = \<lparr>xr_execution_plan_checksum = c, xr_status = status, xr_step_receipts = [],
      xr_output_step_ids = [], xr_stop_reason = Some code\<rparr>, px_outputs = []\<rparr>"
  shows "failed_result c status code = Returned x" "ss \<noteq> [] \<Longrightarrow> run_shape ss x"
proof -
  note f = finish_ok[OF assms(1), of "[]" "[]" status "Some code"]
  show "failed_result c status code = Returned x" using f assms(2,3) by (simp add: failed_result_def x_def)
  show "run_shape ss x" if "ss \<noteq> []" using f assms(2,3) that by (simp add: x_def run_shape_def)
qed

text \<open>For valid inputs an execution is refused before any step, or it is a run over the ordered steps.\<close>

lemma execute_plan_cases:
  assumes R: "runners_ok R" and h: "\<forall>t. is_hex64 (h t)" and b: "ledger_inv b" "stop_ok b"
    and valid: "mk_query_plan qp = Inr qp" "mk_context_bundle ctx = Inr ctx" "mk_execution_plan h p = Inr p"
      "mk_plan_validation_record v = Inr v"
    and run: "execute_plan h R qp ctx p v ev ec d b w = (r, b', w')"
  obtains (refused) ss x code status where "ordered_steps p = Inr ss" "mset ss = mset (ep_steps p)"
      "start_refusal h qp ctx p v ev ec b d = Some (code, status)" "r = Returned x" "run_shape ss x" "w' = w"
      "px_outputs x = []" "xr_step_receipts (px_record x) = []" "xr_status (px_record x) \<noteq> ExecSucceeded"
      "xr_stop_reason (px_record x) = Some code" "b' = snd (halt code b)" "stop_reason b' \<noteq> None" "ledger_good b'"
      "limits b' = limits b"
  | (ran) ss st where "ordered_steps p = Inr ss" "mset ss = mset (ep_steps p)" "start_refusal h qp ctx p v ev ec b d = None"
      "run_post (sql_executions b) (limits b) ss (r, st)" "xs_ledger st = b'" "xs_world st = w'"
proof -
  have hb: "ledger_good b" using b by (simp add: ledger_good_def)
  obtain ss where ss: "ordered_steps p = Inr ss" "mset ss = mset (ep_steps p)" by (rule ordered_steps_ok[OF valid(3)])
  note ok = mk_execution_plan_ok[OF valid(3)]
  have d: "distinct (map step_id ss)" using ok(2) ss(2) by (metis mset_map mset_eq_imp_distinct_iff)
  have n: "length ss \<le> 16" "ss \<noteq> []" using ok(3) mset_set(2)[OF ss(2)] by (auto simp: length_in_def)
  have c: "is_hex64 (execution_plan_checksum h p)" using h by (simp add: execution_plan_checksum_def checksum_of_def)
  let ?st = "\<lparr>xs_outputs = [], xs_receipts = [], xs_gateway = [], xs_ledger = b, xs_world = w\<rparr>"
  show thesis
  proof (cases "start_refusal h qp ctx p v ev ec b d")
    case None
    have "progress (sql_executions b) [] ?st" using hb by (simp add: progress_def state_ok_def fetch_successes_def)
    moreover have "\<not> step_bad h x" if "x \<in> set ss" for x using ok(4) that mset_set(1)[OF ss(2)] by simp
    ultimately have post: "run_post (sql_executions b) (limits b) ([] @ ss) (run_steps h R qp ctx t (execution_plan_checksum h p) ss ?st)" for t
      using d n h by (intro run_steps_post[OF R _ c]) simp_all
    obtain st where "run_steps h R qp ctx (min d (deadline_ms (limits b)) - policy_reserve_ms (policy b)) (execution_plan_checksum h p) ss ?st = (r, st)"
      "xs_ledger st = b'" "xs_world st = w'"
      using run None valid ss(1) by (auto simp: execute_plan_def Let_def split: prod.splits)
    with post[of "min d (deadline_ms (limits b)) - policy_reserve_ms (policy b)"] show thesis using ran[OF ss] None by simp
  next
    case (Some cs)
    obtain code status where cs: "cs = (code, status)" by (cases cs)
    note code = start_refusal_ok[OF Some[unfolded cs]]
    obtain kept where halted: "fst (halt code b) = Inr kept" "stop_reason (snd (halt code b)) = Some kept" "ledger_good (snd (halt code b))"
      "limits (snd (halt code b)) = limits b" "sql_executions (snd (halt code b)) = sql_executions b"
      by (rule halt_ok[OF hb code(1)])
    have "halt code b = (Inr kept, snd (halt code b))" using halted(1) by (metis prod.collapse)
    then have "r = failed_result (execution_plan_checksum h p) status code" "b' = snd (halt code b)" "w' = w"
      using run valid Some cs by (auto simp: execute_plan_def Let_def split: prod.splits sum.splits)
    then show thesis using refused_record[OF c code(2,3)] n(2) Some cs halted code(3) by (intro refused[OF ss]) auto
  qed
qed

text \<open>C26. Every execution is accounted for: with valid inputs and runners that keep their interface, the
  executor never raises.  Unless it is cancelled from outside it returns a record that satisfies its
  contract: the receipts name a prefix of the topological order, all but the last succeeded, the
  outputs are those of the successful steps, and the status is success exactly when every step of
  the plan has succeeded; a failure leaves the budget stopped.\<close>

theorem execute_returns_valid_record:
  assumes "runners_ok R" "\<forall>t. is_hex64 (h t)" "ledger_inv b" "stop_ok b"
    and "mk_query_plan qp = Inr qp" "mk_context_bundle ctx = Inr ctx" "mk_execution_plan h p = Inr p"
      "mk_plan_validation_record v = Inr v"
    and "execute_plan h R qp ctx p v ev ec d b w = (r, b', w')"
  shows "r = Cancelled \<or> (\<exists>x ss. r = Returned x \<and> ordered_steps p = Inr ss \<and> mset ss = mset (ep_steps p) \<and> run_shape ss x \<and>
    (xr_status (px_record x) \<noteq> ExecSucceeded \<longrightarrow> stop_reason b' \<noteq> None))"
proof (cases rule: execute_plan_cases[OF assms])
  case (1 ss x code status)
  then show ?thesis by blast
next
  case (2 ss st)
  then show ?thesis by (auto simp: run_post_def)
qed

text \<open>C30. Execution stays within the budget: a run keeps the ledger within its route's limits, and every
  successful fetch it reports has used an SQL execution of its own, so their number is at most what
  the ledger had left.\<close>

theorem execute_within_budget:
  assumes "runners_ok R" "\<forall>t. is_hex64 (h t)" "ledger_inv b" "stop_ok b"
    and "mk_query_plan qp = Inr qp" "mk_context_bundle ctx = Inr ctx" "mk_execution_plan h p = Inr p"
      "mk_plan_validation_record v = Inr v"
    and "execute_plan h R qp ctx p v ev ec d b w = (r, b', w')"
  shows "ledger_inv b' \<and> limits b' = limits b \<and>
    (case r of Returned x \<Rightarrow> fetch_successes (xr_step_receipts (px_record x)) \<le> max_sql_executions (limits b) - sql_executions b
     | _ \<Rightarrow> True)"
proof (cases rule: execute_plan_cases[OF assms])
  case (1 ss x code status)
  then show ?thesis using assms(3) by (auto simp: ledger_good_def fetch_successes_def ledger_inv_def)
next
  case (2 ss st)
  then have "ledger_inv b'" "limits b' = limits b" by (auto simp: run_post_def ledger_good_def)
  moreover from this have "sql_executions b' \<le> max_sql_executions (limits b)" by (simp add: ledger_inv_def)
  ultimately show ?thesis using 2(4,5) by (auto simp: run_post_def)
qed

text \<open>C27. The trust boundary: if an execution calls any runner, hands out any output or reports success, then
  the supplied validation record allows, names exactly the query plan, context and execution plan
  being run, and carries the policy version and checksum the server expects; and the deadline leaves
  time beyond the reserve.\<close>

theorem execute_only_validated:
  assumes run: "execute_plan h R qp ctx p v ev ec d b w = (r, b', w')"
    and effect: "w' \<noteq> w \<or> (\<exists>x. r = Returned x \<and> (px_outputs x \<noteq> [] \<or> xr_status (px_record x) = ExecSucceeded))"
  shows "vr_outcome v = VAllow \<and> vr_query_plan_sha256 v = query_plan_checksum h qp \<and> ep_query_plan_sha256 p = query_plan_checksum h qp \<and>
    vr_context_checksum v = context_checksum h ctx \<and> ep_semantic_release_id p = cb_semantic_release_id ctx \<and>
    ep_schema_snapshot_id p = cb_schema_snapshot_id ctx \<and> vr_execution_plan_sha256 v = Some (execution_plan_checksum h p) \<and>
    vr_policy_version v = ev \<and> vr_policy_checksum v = ec \<and>
    policy_reserve_ms (policy b) < min d (deadline_ms (limits b)) \<and> 1 \<le> d"
proof -
  have same: "mk_query_plan qp = Inr q \<Longrightarrow> q = qp" "mk_context_bundle ctx = Inr c \<Longrightarrow> c = ctx"
    "mk_plan_validation_record v = Inr u \<Longrightarrow> u = v" for q c u
    by (auto simp: mk_query_plan_def mk_context_bundle_def mk_plan_validation_record_def)
  have "start_refusal h qp ctx p v ev ec b d = None"
  proof (rule ccontr)
    assume "start_refusal h qp ctx p v ev ec b d \<noteq> None"
    then obtain code status where some: "start_refusal h qp ctx p v ev ec b d = Some (code, status)" by auto
    note code = start_refusal_ok[OF some]
    have "w' = w \<and> (\<forall>x. r = Returned x \<longrightarrow> px_outputs x = [] \<and> xr_status (px_record x) \<noteq> ExecSucceeded)"
    proof (cases "is_ok (mk_query_plan qp) \<and> is_ok (mk_context_bundle ctx) \<and> is_ok (mk_execution_plan h p) \<and> is_ok (mk_plan_validation_record v)")
      case True
      then have "mk_query_plan qp = Inr qp" "mk_context_bundle ctx = Inr ctx" "mk_execution_plan h p = Inr p" "mk_plan_validation_record v = Inr v"
        using same mk_execution_plan_ok(1) by auto
      then have "w' = w \<and> (r = failed_result (execution_plan_checksum h p) status code \<or> (\<exists>e. r = Raised e))"
        using run some by (auto simp: execute_plan_def Let_def split: prod.splits sum.splits)
      moreover have "px_outputs x = [] \<and> xr_status (px_record x) = status" if "failed_result c status code = Returned x" for c x
        using that by (auto simp: failed_result_def finish_def of_result_def mk_plan_execution_record_def Let_def validated_eval split: if_splits)
      ultimately show ?thesis using code(3) by auto
    next
      case False
      then show ?thesis using run by (auto simp: execute_plan_def split: sum.splits)
    qed
    with effect show False by blast
  qed
  then show ?thesis
    by (auto simp: start_refusal_def execution_plan_mismatch_def execution_validation_mismatch_def split: option.splits if_splits)
qed


section \<open>A concrete execution\<close>

definition demo_receipt :: execution_receipt where
  "demo_receipt = \<lparr>rc_datasource = ''gold'', rc_readonly_role = ''ro'', rc_elapsed_ms = 3, rc_row_count = 1, rc_plan_cost = None,
     rc_estimated_rows = None, rc_masking_applied = False, rc_masked_columns = [], rc_error_taxonomy = None,
     rc_sql_fingerprint = replicate 64 CHR ''a'', rc_policy_version = ''p1'', rc_allowed = True, rc_authorization_revision = None,
     rc_evidence = no_evidence\<rparr>"

definition demo_runners :: "(nat, unit) plan_runners" where
  "demo_runners = \<lparr>
     metric_prepare = (\<lambda>s qp ctx w. (Returned \<lparr>pm_sql_fingerprint = replicate 64 CHR ''a'', pm_join_hops = 0, pm_payload = (),
        pm_dependency_fetch = False\<rparr>, w + 1)),
     metric_execute = (\<lambda>p t w. (Returned \<lparr>ms_value = Some (JInt 3), ms_receipt = demo_receipt\<rparr>, w + 2)),
     trusted_calculation_runner = None, ad_hoc_calculation_runner = Some runtime_calculation_runner,
     result_verifier = typed_result_verifier, rounded_ms = (\<lambda>a b. int b - int a)\<rparr>"

definition demo_context :: context_bundle where
  "demo_context = \<lparr>cb_semantic_release_id = ''r'', cb_schema_snapshot_id = ''s'', cb_domains = [''sales''], cb_asset_ids = [''a1''],
     cb_approved_relation_ids = [], cb_approved_edge_ids = [], cb_resolution_status = RResolved, cb_unresolved_slots = [],
     cb_conflict_ids = [], cb_degradation_flags = [], cb_token_cost = 0, cb_evidence_count = 0\<rparr>"

definition demo_validation :: plan_validation_record where
  "demo_validation = \<lparr>vr_policy_version = ''p1'', vr_policy_checksum = replicate 64 CHR ''0'', vr_outcome = VAllow,
     vr_query_plan_sha256 = replicate 64 CHR ''0'', vr_context_checksum = replicate 64 CHR ''0'',
     vr_execution_plan_sha256 = Some (replicate 64 CHR ''0''), vr_issues = []\<rparr>"

definition demo_execution :: "plan_execution_result awaited \<times> ledger \<times> nat" where
  "demo_execution = execute_plan zero_hash demo_runners (sample_plan []) demo_context demo_plan demo_validation ''p1'' (replicate 64 CHR ''0'')
     20000 (new_ledger Fast default_policy) 0"

text \<open>The error codes of the evaluator and of the verifier fit a receipt.\<close>

definition evaluator_codes :: "string list" where
  "evaluator_codes = base_codes @ boundary_codes @ [''calculation_input_missing'', ''calculation_parameter_missing'',
     ''calculation_condition_unsupported'', ''calculation_expression_too_large'', ''calculation_expression_too_deep'']"

lemma evaluation_codes:
  "errs_in (set evaluator_codes) (condition ins ps e)" "errs_in (set evaluator_codes) (states ins ps cs)"
  "errs_in (set evaluator_codes) (evaluate ins ps e)" "errs_in (set evaluator_codes) (branches ins ps ws els)"
proof (induction ins ps e and ins ps cs and ins ps e and ins ps ws els rule: condition_states_evaluate_branches.induct)
  case (1 ins ps op a)
  then show ?case by (cases "evaluate ins ps a") auto
next
  case (2 ins ps op a b)
  then show ?case by (cases "evaluate ins ps a"; cases "evaluate ins ps b") auto
next
  case (3 ins ps cs)
  then show ?case by (cases "states ins ps cs") simp_all
next
  case (4 ins ps cs)
  then show ?case by (cases "states ins ps cs") simp_all
next
  case (10 ins ps r)
  then show ?case by (auto intro!: errs_in_reference simp: evaluator_codes_def base_codes_def)
next
  case (11 ins ps n)
  then show ?case by (auto intro!: errs_in_reference simp: evaluator_codes_def base_codes_def)
next
  case (14 ins ps a v)
  then show ?case by (cases "evaluate ins ps a") auto
next
  case (16 ins ps op a b)
  have "set base_codes \<subseteq> set evaluator_codes" by (auto simp: evaluator_codes_def)
  then show ?case using 16 by (simp add: errs_in_obind errs_in_apply_binary)
next
  case (18 ins ps els)
  then show ?case by (cases els) simp_all
qed (simp_all add: errs_in_obind apply_precision_def evaluator_codes_def base_codes_def split: condition_state.splits)

lemma require_bounded_codes: "require_bounded e = Some c \<Longrightarrow> c \<in> set evaluator_codes"
  by (auto simp: require_bounded_def evaluator_codes_def split: sum.splits if_splits)

lemma evaluate_calculation_codes:
  assumes "evaluate_calculation spec ins b = Inl e" obtains c where "e = CalculationRuntimeError c" "c \<in> set evaluator_codes"
proof (cases "require_bounded (cs_expression spec)")
  case (Some c)
  then show thesis using assms that[of c] require_bounded_codes[OF Some] by (auto simp: evaluate_calculation_def)
next
  case None
  have "errs_in (set evaluator_codes) (obind (evaluate ins (binding_parameters b) (cs_expression spec)) (\<lambda>exact.
      case cs_precision spec of None \<Rightarrow> Value \<lparr>er_value = exact, er_precision = None\<rparr>
      | Some p \<Rightarrow> obind (apply_precision exact p (case cs_rounding spec of None \<Rightarrow> HalfUp | Some r \<Rightarrow> r))
          (\<lambda>v. Value \<lparr>er_value = v, er_precision = Some p\<rparr>)))"
    using evaluation_codes(3) by (auto intro!: errs_in_obind simp: apply_precision_def split: option.splits)
  from errs_in_boundary[OF this] obtain c where "e = CalculationRuntimeError c"
    "c \<in> set evaluator_codes \<or> c \<in> set boundary_codes \<or> c \<in> set base_codes"
    using assms None by (auto simp: evaluate_calculation_def)
  moreover from this have "c \<in> set evaluator_codes" by (auto simp: evaluator_codes_def)
  ultimately show thesis by (intro that)
qed

lemma evaluator_codes_length: "c \<in> set evaluator_codes \<Longrightarrow> length c \<le> 128"
  by (auto simp: evaluator_codes_def base_codes_def boundary_codes_def)

lemma runtime_runner_ok: "awaited_ok (\<lambda>_. True) (fst (runtime_calculation_runner s i w))"
proof (cases "evaluate_calculation (ah_calculation_spec s) (map (\<lambda>(k, v). (k, scalar_of_json v)) i) (Some (ah_execution_binding s))")
  case (Inl e)
  obtain c where "e = CalculationRuntimeError c" "length c \<le> 128"
    using evaluate_calculation_codes[OF Inl] evaluator_codes_length by metis
  then show ?thesis using Inl plan_step_error_ok by (simp add: runtime_calculation_runner_def awaited_ok_def)
qed (simp add: runtime_calculation_runner_def awaited_ok_def)

lemma typed_verifier_ok: "awaited_ok (\<lambda>_. True) (fst (typed_result_verifier s i w))"
  by (simp add: typed_result_verifier_def awaited_ok_def code_ok_def strip_literal is_space_def length_in_def)

lemma demo_runners_ok: "runners_ok demo_runners"
  using runtime_runner_ok typed_verifier_ok
  by (auto simp: runners_ok_def demo_runners_def awaited_ok_def receipt_ok_def
      mk_prepared_metric_step_def mk_execution_receipt_def demo_receipt_def opt_bad_def is_hex64_def is_hex_def is_digit_def list_all_length)

lemma demo_inputs_ok:
  "mk_context_bundle demo_context = Inr demo_context" "mk_plan_validation_record demo_validation = Inr demo_validation"
  "ledger_inv (new_ledger Fast default_policy)" "stop_ok (new_ledger Fast default_policy)" "\<forall>t. is_hex64 (zero_hash t)"
  using ledger_inv_new[OF default_policy_ok] zero_hash_hex
  by (simp_all add: mk_context_bundle_def demo_context_def unique_checks_def blank_def strip_def is_space_def length_in_def
      mk_plan_validation_record_def demo_validation_def opt_bad_def is_hex64_def is_hex_def is_digit_def list_all_length
      stop_ok_def new_ledger_def)

lemmas demo_run = demo_runners_ok demo_inputs_ok(5,3,4) sample_plan_ok(1) demo_inputs_ok(1) demo_plan_ok demo_inputs_ok(2)

lemma demo_order: "ordered_steps demo_plan = Inr [FetchMetric fetch_won, Verify (check_step ''check'' ''won'')]"
  by code_simp

lemma demo_refusal:
  "start_refusal zero_hash (sample_plan []) demo_context demo_plan demo_validation ''p1'' (replicate 64 CHR ''0'')
     (new_ledger Fast default_policy) 20000 = None"
  by (simp add: start_refusal_def execution_plan_mismatch_def execution_validation_mismatch_def query_plan_checksum_def
      context_checksum_def execution_plan_checksum_def checksum_of_def zero_hash_def demo_context_def demo_plan_def plan_with_def
      demo_validation_def new_ledger_def limits_def default_policy_def bootstrap_route_budget_def route_deadline_ms_def)

lemma demo_fetch:
  assumes "xs_ledger st = new_ledger Fast default_policy"
  shows "\<exists>l. execute_step demo_runners qp ctx t (FetchMetric fetch_won) st =
    (Returned (JInt 3), st\<lparr>xs_ledger := l, xs_world := Suc (Suc (Suc (xs_world st))), xs_gateway := dset ''won'' demo_receipt (xs_gateway st)\<rparr>)"
  using assms
  by (simp add: execute_fetch_def exec_bind_def on_world_def on_ledger_def demo_runners_def record_sql_candidate_def increment_def
      ensure_active_def new_ledger_def limits_def default_policy_def bootstrap_route_budget_def of_result_def lift_result_def
      observe_join_hops_def begin_sql_execution_def receipt_failure_def demo_receipt_def json_value_def fetch_won_def
      strip_def is_space_def blank_def Let_def dget_or_def halt_def) (rule exI, rule refl)

lemma demo_verify:
  assumes "xs_outputs st = [(''won'', JInt 3)]"
  shows "execute_step demo_runners qp ctx t (Verify (check_step ''check'' ''won'')) st =
    (Returned (JObj [(''verified'', JBool True), (''invariant_ids'', strings_json [''typed_result_present''])]), st)"
  using assms
  by (simp add: execute_verify_def exec_bind_def lift_result_def of_result_def on_world_def demo_runners_def check_step_def
      resolve_ref_def typed_result_verifier_def supported_invariants_def json_value_def)

lemma run_steps_next:
  assumes "execute_step R qp ctx t s st = (Returned j, st1)" "\<not> step_bad h s" "\<And>t. is_hex64 (h t)" "state_ok st1"
  shows "\<exists>rs. run_steps h R qp ctx t c (s # ss) st =
    run_steps h R qp ctx t c ss (st1\<lparr>xs_outputs := dset (step_id s) j (xs_outputs st1), xs_receipts := rs\<rparr>)"
proof -
  obtain r where "succeeded_step h s (elapsed_ms R (xs_world st) (xs_world st1)) j (dget (xs_gateway st1) (step_id s)) = Inr r"
    by (rule state_receipt[OF assms(2-4)])
  then show ?thesis using assms(1) by auto
qed

lemma demo_world: "snd (snd demo_execution) = 3"
proof -
  let ?st = "\<lparr>xs_outputs = [], xs_receipts = [], xs_gateway = [], xs_ledger = new_ledger Fast default_policy, xs_world = 0 :: nat\<rparr>"
  let ?run = "run_steps zero_hash demo_runners (sample_plan []) demo_context t (execution_plan_checksum zero_hash demo_plan)"
  have mem: "FetchMetric fetch_won \<in> set (ep_steps demo_plan)" "Verify (check_step ''check'' ''won'') \<in> set (ep_steps demo_plan)"
    by (simp_all add: demo_plan_def plan_with_def)
  note ok = mk_execution_plan_ok(4)[OF demo_plan_ok mem(1)] mk_execution_plan_ok(4)[OF demo_plan_ok mem(2)]
  have "state_ok ?st" using demo_inputs_ok(3,4) by (simp add: state_ok_def ledger_good_def)
  note good = goodD(1)[OF good_step[OF demo_runners_ok] this]
  have "xs_world (snd (run_steps zero_hash demo_runners (sample_plan []) demo_context t c
      [FetchMetric fetch_won, Verify (check_step ''check'' ''won'')] ?st)) = 3" for t c
  proof -
    obtain l where f: "execute_step demo_runners (sample_plan []) demo_context t (FetchMetric fetch_won) ?st =
        (Returned (JInt 3), ?st\<lparr>xs_ledger := l, xs_world := Suc (Suc (Suc 0)), xs_gateway := [(''won'', demo_receipt)]\<rparr>)"
      using demo_fetch[of ?st "sample_plan []" demo_context t] by (auto simp del: execute_step.simps)
    note g = good[OF f]
    obtain rs where 1: "run_steps zero_hash demo_runners (sample_plan []) demo_context t c
        [FetchMetric fetch_won, Verify (check_step ''check'' ''won'')] ?st =
      run_steps zero_hash demo_runners (sample_plan []) demo_context t c [Verify (check_step ''check'' ''won'')]
        (?st\<lparr>xs_outputs := [(''won'', JInt 3)], xs_receipts := rs, xs_ledger := l, xs_world := Suc (Suc (Suc 0)), xs_gateway := [(''won'', demo_receipt)]\<rparr>)"
      using run_steps_next[OF f ok(1) zero_hash_hex g, of c "[Verify (check_step ''check'' ''won'')]"]
      by (auto simp del: run_steps.simps simp: fetch_won_def)
    let ?st2 = "?st\<lparr>xs_outputs := [(''won'', JInt 3)], xs_receipts := rs, xs_ledger := l, xs_world := Suc (Suc (Suc 0)), xs_gateway := [(''won'', demo_receipt)]\<rparr>"
    have "state_ok ?st2" using g by (simp add: state_ok_def)
    then show ?thesis using 1 run_steps_next[OF demo_verify[of ?st2 "sample_plan []" demo_context t] ok(2) zero_hash_hex, of c "[]"]
      by (auto simp del: run_steps.simps(2) execute_step.simps)
  qed
  then show ?thesis
    unfolding demo_execution_def execute_plan_def using demo_run demo_refusal demo_order
    by (simp add: Let_def case_prod_beta del: run_steps.simps)
qed

theorem execute_returns_valid_record_witness:
  "\<exists>x. fst demo_execution = Cancelled \<or> fst demo_execution = Returned x \<and>
     run_shape [FetchMetric fetch_won, Verify (check_step ''check'' ''won'')] x"
proof -
  obtain r b w where run: "demo_execution = (r, b, w)" by (metis prod.exhaust)
  from execute_returns_valid_record[OF demo_run run[unfolded demo_execution_def]] demo_order
  show ?thesis unfolding run by auto
qed

theorem execute_within_budget_witness:
  "limits (fst (snd demo_execution)) = limits (new_ledger Fast default_policy) \<and> ledger_inv (fst (snd demo_execution))"
proof -
  obtain r b w where run: "demo_execution = (r, b, w)" by (metis prod.exhaust)
  from execute_within_budget[OF demo_run run[unfolded demo_execution_def]] show ?thesis unfolding run by simp
qed

theorem execute_only_validated_witness:
  "snd (snd demo_execution) \<noteq> 0 \<and> vr_outcome demo_validation = VAllow \<and>
   vr_query_plan_sha256 demo_validation = query_plan_checksum zero_hash (sample_plan [])"
proof -
  obtain r b w where run: "demo_execution = (r, b, w)" by (metis prod.exhaust)
  have "w \<noteq> 0" using demo_world unfolding run by simp
  from execute_only_validated[OF run[unfolded demo_execution_def] disjI1[OF this]] this show ?thesis unfolding run by simp
qed

definition demo_sum :: calculation_spec where
  "demo_sum = sample_spec\<lparr>cs_expression := BinaryOperand Add (InputRefOperand ''won'') (InputRefOperand ''all''), cs_precision := None\<rparr>"

definition demo_ad_hoc :: ad_hoc_calculation_step where
  "demo_ad_hoc = \<lparr>ah_step_id = ''rate'', ah_calculation_spec = demo_sum, ah_execution_binding = sample_binding ''2024-02-29'',
     ah_input_refs = [(''won'', ''won''), (''all'', ''all'')], ah_depends_on = [''won'', ''all''], ah_derived_output_id = ''x''\<rparr>"

definition demo_state :: "nat exec_state" where
  "demo_state = \<lparr>xs_outputs = [(''won'', JInt 3), (''all'', JInt 4)], xs_receipts = [], xs_gateway = [],
     xs_ledger = new_ledger Fast default_policy, xs_world = 0\<rparr>"


end
