(* ===== verification/Candidates.thy ===== *)
theory Candidates
  imports Plan_Executor "HOL-Library.Product_Lexorder"
begin

text \<open>
  Candidate verification and selection (\<open>orchestration/candidates.py\<close>): canonical rowset hashes, the ordered
  hard gates against server-side expected evidence, and the choice among the candidates that pass.

  The policy engine of the query gateway parses SQL with a third-party parser: it is an argument that
  returns the fingerprint of an accepted statement and parameters.  A finite float cell is its
  \<open>.17g\<close> text, a date cell its ISO text, a datetime cell its ISO text in UTC with the awareness flag;
  \<open>CellOther\<close> is any value of another type.
\<close>

section \<open>Canonical rowsets\<close>

datatype cell =
    CellNone
  | CellBool bool
  | CellInt int
  | CellStr string
  | CellFloat "string option"
  | CellDecimal "decimal option"
  | CellDatetime bool string
  | CellDate string
  | CellDict "(string \<times> cell) list"
  | CellList "cell list"
  | CellOther

text \<open>\<open>format(value, "f")\<close>, then \<open>rstrip("0").rstrip(".")\<close> after a point.\<close>

definition fixed_text :: "decimal \<Rightarrow> string" where
  "fixed_text d =
     (let ds = nat_str (coeff d); n = length ds; k = nat (- expo d) in
      (if negative d then ''-'' else []) @
      (if 0 \<le> expo d then (if coeff d = 0 then ''0'' else ds @ replicate (nat (expo d)) CHR ''0'')
       else if k < n then take (n - k) ds @ ''.'' @ drop (n - k) ds
       else ''0.'' @ replicate (k - n) CHR ''0'' @ ds))"

definition rstrip :: "char \<Rightarrow> string \<Rightarrow> string" where
  "rstrip c s = rev (dropWhile (\<lambda>x. x = c) (rev s))"

definition decimal_text :: "decimal \<Rightarrow> string" where
  "decimal_text d =
     (let rendered = fixed_text d;
          stripped = (if CHR ''.'' \<in> set rendered then rstrip CHR ''.'' (rstrip CHR ''0'' rendered) else rendered)
      in if coeff d = 0 then ''0'' else stripped)"

definition tagged :: "string \<Rightarrow> json \<Rightarrow> json" where
  "tagged t j = JObj [(t, j)]"

fun normalize_value :: "cell \<Rightarrow> json result" where
  "normalize_value CellNone = Inr JNull"
| "normalize_value (CellBool b) = Inr (JBool b)"
| "normalize_value (CellInt i) = Inr (JInt i)"
| "normalize_value (CellStr s) = Inr (JStr s)"
| "normalize_value (CellFloat None) = Inl (ValueError ''nonfinite float is not canonical'')"
| "normalize_value (CellFloat (Some t)) = Inr (tagged ''$float'' (JStr t))"
| "normalize_value (CellDecimal None) = Inl (ValueError ''nonfinite decimal is not canonical'')"
| "normalize_value (CellDecimal (Some d)) = Inr (tagged ''$decimal'' (JStr (decimal_text d)))"
| "normalize_value (CellDatetime aware t) = Inr (tagged (if aware then ''$datetime_utc'' else ''$datetime_local'') (JStr t))"
| "normalize_value (CellDate t) = Inr (tagged ''$date'' (JStr t))"
| "normalize_value (CellDict kvs) =
     map_sum id (\<lambda>ps. tagged ''$object'' (JList (map (\<lambda>(k, j). JList [JStr k, j]) (sort_key fst ps))))
       (all_results (map (\<lambda>(k, v). map_sum id (Pair k) (normalize_value v)) kvs))"
| "normalize_value (CellList vs) = map_sum id JList (all_results (map normalize_value vs))"
| "normalize_value CellOther = Inl (ValueError ''unsupported canonical value type'')"

fun row_keys :: "cell \<Rightarrow> string set option" where
  "row_keys (CellDict kvs) = Some (fst ` set kvs)"
| "row_keys _ = None"

definition rowset_sha256 :: "(string \<Rightarrow> string) \<Rightarrow> cell list \<Rightarrow> string result" where
  "rowset_sha256 sha256 rowset =
     (if list_ex (\<lambda>r. row_keys r = None) rowset then Inl (ValueError ''rowset must contain string-keyed rows'')
      else if rowset \<noteq> [] \<and> list_ex (\<lambda>r. row_keys r \<noteq> row_keys (hd rowset)) rowset
      then Inl (ValueError ''rowset columns must be consistent'')
      else map_sum id (\<lambda>js. sha256 (json_text (JList (sort_key json_text js)))) (all_results (map normalize_value rowset)))"

section \<open>Candidates and evidence\<close>

datatype gate_name = PolicyGate | SemanticGate | SqlGate | ExplainGate | ExecutionGate

fun gate_text :: "gate_name \<Rightarrow> string" where
  "gate_text PolicyGate = ''policy''"
| "gate_text SemanticGate = ''semantic''"
| "gate_text SqlGate = ''sql''"
| "gate_text ExplainGate = ''explain''"
| "gate_text ExecutionGate = ''execution''"

definition gate_order :: "gate_name list" where
  "gate_order = [PolicyGate, SemanticGate, SqlGate, ExplainGate, ExecutionGate]"

record gate_outcome =
  go_gate :: gate_name
  go_passed :: bool

datatype candidate_source = DeterministicCandidate | SemanticCandidate

record candidate_metadata =
  cm_candidate_id :: string
  cm_origin :: candidate_source
  cm_sql_fingerprint :: string
  cm_semantic_signature :: string
  cm_relation_ids :: "string list"
  cm_source_kind :: source_kind
  cm_join_hops :: int
  cm_estimated_rows :: int
  cm_estimated_cost :: py_float

text \<open>\<open>[a-z][a-z0-9_.-]{0,127}\<close>\<close>

definition safe_id :: "string \<Rightarrow> bool" where
  "safe_id s = calculation_id_ok s"

definition mk_candidate_metadata :: "candidate_metadata \<Rightarrow> candidate_metadata result" where
  "mk_candidate_metadata m = validated
     [(\<not> is_hex64 (cm_sql_fingerprint m) \<or> \<not> is_hex64 (cm_semantic_signature m), ValueError ''candidate evidence requires SHA256''),
      (\<not> safe_id (cm_candidate_id m) \<or> cm_relation_ids m = [] \<or> list_ex (\<lambda>i. \<not> safe_id i) (cm_relation_ids m) \<or>
       \<not> distinct (cm_relation_ids m) \<or> cm_join_hops m < 0 \<or> cm_estimated_rows m < 0 \<or>
       (case cm_estimated_cost m of Finite q \<Rightarrow> q < 0 | _ \<Rightarrow> True), ValueError ''invalid candidate metadata'')] m"

record 'b candidate =
  ca_metadata :: candidate_metadata
  ca_gates :: "gate_outcome list"
  ca_execution_receipt :: execution_receipt
  ca_sql :: string
  ca_rowset :: "cell list"
  ca_bind_params :: 'b

record candidate_expected_evidence =
  ee_metadata :: candidate_metadata
  ee_policy_version :: string
  ee_readonly_role :: string
  ee_source_id :: string
  ee_source_checkpoint :: "string option"
  ee_selection_reason :: selection_reason
  ee_source_degradation :: "string list"

definition mk_candidate_expected_evidence :: "candidate_expected_evidence \<Rightarrow> candidate_expected_evidence result" where
  "mk_candidate_expected_evidence e =
     (case mk_candidate_metadata (ee_metadata e) of Inl x \<Rightarrow> Inl x | Inr _ \<Rightarrow> validated
        [(ee_policy_version e = [] \<or> ee_readonly_role e = [] \<or> ee_source_id e = [], ValueError ''expected authority must be explicit'')] e)"

record candidate_receipt =
  cp_metadata :: candidate_metadata
  cp_rowset_sha256 :: "string option"
  cp_gates :: "gate_outcome list"
  cp_failure_code :: "string option"

abbreviation hard_gates_passed :: "candidate_receipt \<Rightarrow> bool" where
  "hard_gates_passed r \<equiv> cp_failure_code r = None"

record candidate_decision =
  cd_winner :: "candidate_receipt option"
  cd_needs_hitl :: bool
  cd_reason :: string
  cd_receipts :: "candidate_receipt list"

definition decision_status :: "candidate_decision \<Rightarrow> string" where
  "decision_status d = (if cd_winner d \<noteq> None then ''accepted'' else if cd_needs_hitl d then ''hitl'' else ''rejected'')"

definition candidate_capacity :: "nat \<Rightarrow> route_name \<Rightarrow> route_budget \<Rightarrow> bool \<Rightarrow> string option" where
  "candidate_capacity n r budget capacity_available =
     (if n < 1 then Some ''candidate_count_invalid''
      else if n > (if r = Deep then 2 else 1) then Some ''candidate_limit_exceeded''
      else if int n > max_sql_candidates budget \<or> int n > max_sql_executions budget then Some ''candidate_budget_exhausted''
      else if n = 2 \<and> \<not> capacity_available then Some ''candidate_capacity_unavailable''
      else None)"

section \<open>Verification\<close>

type_synonym 'b policy_engine = "string \<Rightarrow> 'b \<Rightarrow> string option"

text \<open>\<open>CandidateVerifier.__init__\<close>: each expected entry is stored under its candidate's id.\<close>

definition mk_candidate_verifier :: "(string, candidate_expected_evidence) dict \<Rightarrow> (string, candidate_expected_evidence) dict result" where
  "mk_candidate_verifier expected =
     (case all_results (map (mk_candidate_expected_evidence \<circ> snd) expected) of Inl e \<Rightarrow> Inl e | Inr _ \<Rightarrow> validated
        [(list_ex (\<lambda>(k, e). k \<noteq> cm_candidate_id (ee_metadata e)) expected, ValueError ''expected candidate identity mismatch'')] expected)"

definition invalid_metadata :: candidate_metadata where
  "invalid_metadata = \<lparr>cm_candidate_id = ''invalid'', cm_origin = DeterministicCandidate,
     cm_sql_fingerprint = replicate 64 CHR ''0'', cm_semantic_signature = replicate 64 CHR ''0'', cm_relation_ids = [''invalid''],
     cm_source_kind = ApprovedDetail, cm_join_hops = 0, cm_estimated_rows = 0, cm_estimated_cost = Finite 0\<rparr>"

definition sql_failure :: "'b policy_engine \<Rightarrow> 'b candidate \<Rightarrow> string option" where
  "sql_failure engine c =
     (case engine (ca_sql c) (ca_bind_params c) of
        None \<Rightarrow> Some ''sql_denied''
      | Some fingerprint \<Rightarrow> if fingerprint \<noteq> cm_sql_fingerprint (ca_metadata c) then Some ''sql_fingerprint_mismatch'' else None)"

text \<open>The loop over \<open>GATE_ORDER\<close>: the outcomes so far and the failure that ends it.\<close>

fun gate_loop :: "string option \<Rightarrow> gate_name list \<Rightarrow> gate_outcome list \<Rightarrow> gate_outcome list \<Rightarrow> gate_outcome list \<times> string option" where
  "gate_loop sql [] gates outcomes = (outcomes, if gates = [] then None else Some ''gate_order_invalid'')"
| "gate_loop sql (n # ns) [] outcomes = (outcomes, Some ''gate_order_invalid'')"
| "gate_loop sql (n # ns) (g # gs) outcomes =
     (if go_gate g \<noteq> n then (outcomes, Some ''gate_order_invalid'')
      else if \<not> go_passed g then (outcomes @ [g], Some (gate_text n @ ''_denied''))
      else if n = SqlGate \<and> sql \<noteq> None then (outcomes @ [g], sql)
      else gate_loop sql ns gs (outcomes @ [g]))"

definition evidence_mismatch :: "execution_receipt \<Rightarrow> candidate_expected_evidence \<Rightarrow> candidate_metadata \<Rightarrow> string \<Rightarrow> nat \<Rightarrow> bool" where
  "evidence_mismatch r e m digest rows \<longleftrightarrow>
     \<not> rc_allowed r \<or> rc_error_taxonomy r \<noteq> None \<or> rc_policy_version r \<noteq> ee_policy_version e \<or>
     rc_readonly_role r \<noteq> ee_readonly_role e \<or> ge_source_id (rc_evidence r) \<noteq> Some (ee_source_id e) \<or>
     ge_source_checkpoint (rc_evidence r) \<noteq> ee_source_checkpoint e \<or>
     ge_selection_reason (rc_evidence r) \<noteq> Some (ee_selection_reason e) \<or>
     ge_source_degradation (rc_evidence r) \<noteq> ee_source_degradation e \<or> rc_sql_fingerprint r \<noteq> cm_sql_fingerprint m \<or>
     ge_semantic_signature (rc_evidence r) \<noteq> Some (cm_semantic_signature m) \<or>
     ge_source_kind (rc_evidence r) \<noteq> Some (cm_source_kind m) \<or> ge_rowset_sha256 (rc_evidence r) \<noteq> Some digest \<or>
     rc_row_count r \<noteq> rows \<or> map_option int (rc_estimated_rows r) \<noteq> Some (cm_estimated_rows m) \<or>
     rc_plan_cost r \<noteq> Some (cm_estimated_cost m)"

definition failed_candidate :: "candidate_metadata \<Rightarrow> gate_outcome list \<Rightarrow> string \<Rightarrow> candidate_receipt" where
  "failed_candidate m gates code = \<lparr>cp_metadata = m, cp_rowset_sha256 = None, cp_gates = gates, cp_failure_code = Some code\<rparr>"

definition verify ::
  "(string \<Rightarrow> string) \<Rightarrow> 'b policy_engine \<Rightarrow> (string, candidate_expected_evidence) dict \<Rightarrow> 'b candidate \<Rightarrow> candidate_receipt" where
  "verify sha256 engine expected c =
     (case mk_candidate_metadata (ca_metadata c) of
        Inl _ \<Rightarrow> failed_candidate invalid_metadata [] ''candidate_invalid''
      | Inr m \<Rightarrow>
          (case mk_execution_receipt (ca_execution_receipt c) of
             Inl _ \<Rightarrow> failed_candidate m [] ''candidate_invalid''
           | Inr receipt \<Rightarrow>
               (case dget expected (cm_candidate_id m) of
                  None \<Rightarrow> failed_candidate m [] ''candidate_authority_missing''
                | Some e \<Rightarrow>
                    if m \<noteq> ee_metadata e then failed_candidate m [] ''candidate_authority_mismatch''
                    else
                      (case gate_loop (sql_failure engine c) gate_order (ca_gates c) [] of
                         (outcomes, Some code) \<Rightarrow> failed_candidate m outcomes code
                       | (outcomes, None) \<Rightarrow>
                           (case rowset_sha256 sha256 (ca_rowset c) of
                              Inl _ \<Rightarrow> failed_candidate m outcomes ''rowset_invalid''
                            | Inr digest \<Rightarrow>
                                if evidence_mismatch receipt e m digest (length (ca_rowset c))
                                then failed_candidate m outcomes ''execution_evidence_mismatch''
                                else \<lparr>cp_metadata = m, cp_rowset_sha256 = Some digest, cp_gates = outcomes, cp_failure_code = None\<rparr>)))))"

section \<open>Selection\<close>

definition cost_of :: "py_float \<Rightarrow> rat" where
  "cost_of c = (case c of Finite q \<Rightarrow> q | _ \<Rightarrow> 0)"

definition preference_key :: "candidate_metadata \<Rightarrow> bool \<times> nat \<times> int \<times> int \<times> rat \<times> string" where
  "preference_key m = (cm_source_kind m \<noteq> ApprovedAggregate, length (cm_relation_ids m), cm_join_hops m, cm_estimated_rows m,
     cost_of (cm_estimated_cost m), cm_candidate_id m)"

text \<open>\<open>min(items, key=...)\<close>: the first item with the least key.\<close>

fun min_by :: "('a \<Rightarrow> 'k :: linorder) \<Rightarrow> 'a \<Rightarrow> 'a list \<Rightarrow> 'a" where
  "min_by key x [] = x"
| "min_by key x (y # ys) = min_by key (if key y < key x then y else x) ys"

definition within_join_budget :: "route_budget \<Rightarrow> candidate_receipt \<Rightarrow> candidate_receipt" where
  "within_join_budget budget r =
     (if cm_join_hops (cp_metadata r) \<le> max_join_hops budget then r
      else failed_candidate (cp_metadata r) [] ''join_budget_exhausted'')"

definition rejected :: "bool \<Rightarrow> string \<Rightarrow> candidate_receipt list \<Rightarrow> candidate_decision" where
  "rejected hitl reason receipts = \<lparr>cd_winner = None, cd_needs_hitl = hitl, cd_reason = reason, cd_receipts = receipts\<rparr>"

definition select_candidate ::
  "(string \<Rightarrow> string) \<Rightarrow> 'b policy_engine \<Rightarrow> (string, candidate_expected_evidence) dict \<Rightarrow> 'b candidate list \<Rightarrow> route_name \<Rightarrow>
   route_budget \<Rightarrow> bool \<Rightarrow> candidate_decision" where
  "select_candidate sha256 engine expected candidates r budget capacity_available =
     (case candidate_capacity (length candidates) r budget capacity_available of
        Some failure \<Rightarrow> rejected False failure []
      | None \<Rightarrow>
          let verified = map (verify sha256 engine expected) candidates;
              valid_ids = map (cm_candidate_id \<circ> cp_metadata) (filter (\<lambda>x. cp_failure_code x \<noteq> Some ''candidate_invalid'') verified)
          in if \<not> distinct valid_ids then rejected False ''duplicate_candidate_id'' verified
             else
               let receipts = map (within_join_budget budget) verified;
                   eligible = filter hard_gates_passed receipts
               in (case eligible of
                     [] \<Rightarrow> rejected False ''no_candidate_passed_hard_gates'' receipts
                   | x # xs \<Rightarrow>
                       if 1 < card (set (map (cm_semantic_signature \<circ> cp_metadata) eligible))
                       then rejected True ''semantic_divergence'' receipts
                       else if 1 < card (set (map cp_rowset_sha256 eligible))
                       then rejected True ''rowset_divergence'' receipts
                       else \<lparr>cd_winner = Some (min_by (preference_key \<circ> cp_metadata) x xs), cd_needs_hitl = False,
                             cd_reason = ''accepted'', cd_receipts = receipts\<rparr>))"

section \<open>The hash does not depend on the order of rows\<close>

lemma normalize_json_ok: "normalize_value v = Inr j \<Longrightarrow> json_ok j"
proof (induction v arbitrary: j rule: normalize_value.induct)
  case (11 kvs)
  from "11.prems" obtain ps where
    ps: "all_results (map (\<lambda>(k, v). map_sum id (Pair k) (normalize_value v)) kvs) = Inr ps"
    and j: "j = tagged ''$object'' (JList (map (\<lambda>(k, j). JList [JStr k, j]) (sort_key fst ps)))"
    by (cases "all_results (map (\<lambda>(k, v). map_sum id (Pair k) (normalize_value v)) kvs)") auto
  have "json_ok (snd p)" if "p \<in> set ps" for p
  proof -
    from all_results_elem(1)[OF ps that] obtain k v where "(k, v) \<in> set kvs" "normalize_value v = Inr (snd p)"
      by (auto simp: map_sum_Inr_iff)
    then show ?thesis using "11.IH" by blast
  qed
  with j show ?case by (auto simp: tagged_def list_all_iff)
next
  case (12 vs)
  from "12.prems" obtain js where js: "all_results (map normalize_value vs) = Inr js" "j = JList js"
    by (auto simp: map_sum_Inr_iff)
  have "json_ok k" if "k \<in> set js" for k using all_results_elem(1)[OF js(1) that] "12.IH" by blast
  then show ?case using js(2) by (simp add: list_all_iff)
qed (auto simp: tagged_def)

lemma sort_key_inj:
  assumes "mset xs = mset ys" "inj_on f (set xs)" shows "sort_key f xs = sort_key f ys"
proof -
  have sets: "set xs = set ys" using assms(1) by (rule mset_eq_setD)
  have sorted: "map f (sort_key f zs) = sort (map f zs)" for zs by (rule properties_for_sort[symmetric]) simp_all
  have "sort (map f xs) = sort (map f ys)" using assms(1) by (intro properties_for_sort) simp_all
  then have "map f (sort_key f xs) = map f (sort_key f ys)" by (simp only: sorted)
  then show ?thesis by (rule map_inj_on) (use assms(2) sets in simp)
qed

lemma all_results_mset:
  assumes "mset xs = mset ys" "all_results (map f xs) = Inr us"
  obtains vs where "all_results (map f ys) = Inr vs" "mset us = mset vs"
proof -
  from assms(2) have all2: "list_all2 (\<lambda>x y. f x = Inr y) xs us" by (simp add: all_results_Inr)
  then have us: "us = map (projr \<circ> f) xs" by (induction rule: list_all2_induct) auto
  have "f x = Inr (projr (f x))" if "x \<in> set ys" for x
    using all_results_elem(2)[OF assms(2), of x] that mset_eq_setD[OF assms(1)] by auto
  then have "all_results (map f ys) = Inr (map (projr \<circ> f) ys)"
    by (simp add: all_results_Inr list_all2_conv_all_nth)
  moreover have "mset us = mset (map (projr \<circ> f) ys)" using assms(1) us by simp
  ultimately show ?thesis using that by blast
qed

lemma rowset_sha256_mset:
  assumes rows: "mset rs = mset ss" and ok: "rowset_sha256 h rs = Inr d" shows "rowset_sha256 h ss = Inr d"
proof -
  have sets: "set rs = set ss" using rows by (rule mset_eq_setD)
  from ok obtain js where js: "all_results (map normalize_value rs) = Inr js" "d = h (json_text (JList (sort_key json_text js)))"
    and good: "\<not> list_ex (\<lambda>r. row_keys r = None) rs" "\<not> (rs \<noteq> [] \<and> list_ex (\<lambda>r. row_keys r \<noteq> row_keys (hd rs)) rs)"
    by (auto simp: rowset_sha256_def map_sum_Inr_iff split: if_splits)
  from all_results_mset[OF rows js(1)] obtain ks where ks: "all_results (map normalize_value ss) = Inr ks" "mset js = mset ks" .
  have "json_ok j" if "j \<in> set js" for j
    using all_results_elem(1)[OF js(1) that] normalize_json_ok by blast
  then have "inj_on json_text (set js)" by (auto intro!: inj_onI json_text_inject)
  with ks(2) have "sort_key json_text js = sort_key json_text ks" by (intro sort_key_inj)
  moreover have "\<not> list_ex (\<lambda>r. row_keys r = None) ss" using good(1) sets by (simp add: list_ex_iff)
  moreover have "\<not> (ss \<noteq> [] \<and> list_ex (\<lambda>r. row_keys r \<noteq> row_keys (hd ss)) ss)"
  proof -
    have "row_keys a = row_keys (hd rs)" if "a \<in> set rs" for a using good(2) that by (auto simp: list_ex_iff)
    then have "row_keys a = row_keys b" if "a \<in> set ss" "b \<in> set ss" for a b using that sets by metis
    then show ?thesis unfolding list_ex_iff by (meson hd_in_set)
  qed
  ultimately show ?thesis using js(2) ks(1) by (simp add: rowset_sha256_def)
qed

section \<open>What verification proves\<close>

lemma gate_loop_ok:
  "gate_loop sql ns gs outs = (res, None) \<Longrightarrow>
   map go_gate gs = ns \<and> list_all go_passed gs \<and> (SqlGate \<in> set ns \<longrightarrow> sql = None) \<and> res = outs @ gs"
  by (induction sql ns gs outs arbitrary: res rule: gate_loop.induct) (auto split: if_splits)

text \<open>A receipt that agrees in every field with what the server expected, with the candidate's metadata and with its rows.\<close>

definition receipt_fits :: "execution_receipt \<Rightarrow> candidate_expected_evidence \<Rightarrow> candidate_metadata \<Rightarrow> string \<Rightarrow> nat \<Rightarrow> bool" where
  "receipt_fits r e m digest rows \<longleftrightarrow>
     rc_allowed r \<and> rc_error_taxonomy r = None \<and> rc_policy_version r = ee_policy_version e \<and> rc_readonly_role r = ee_readonly_role e \<and>
     ge_source_id (rc_evidence r) = Some (ee_source_id e) \<and> ge_source_checkpoint (rc_evidence r) = ee_source_checkpoint e \<and>
     ge_selection_reason (rc_evidence r) = Some (ee_selection_reason e) \<and> ge_source_degradation (rc_evidence r) = ee_source_degradation e \<and>
     rc_sql_fingerprint r = cm_sql_fingerprint m \<and> ge_semantic_signature (rc_evidence r) = Some (cm_semantic_signature m) \<and>
     ge_source_kind (rc_evidence r) = Some (cm_source_kind m) \<and> ge_rowset_sha256 (rc_evidence r) = Some digest \<and>
     rc_row_count r = rows \<and> map_option int (rc_estimated_rows r) = Some (cm_estimated_rows m) \<and> rc_plan_cost r = Some (cm_estimated_cost m)"

lemma evidence_mismatch_iff: "evidence_mismatch r e m digest rows \<longleftrightarrow> \<not> receipt_fits r e m digest rows"
  by (auto simp: evidence_mismatch_def receipt_fits_def)

text \<open>The evidence behind a receipt without a failure.\<close>

definition proven ::
  "(string \<Rightarrow> string) \<Rightarrow> 'b policy_engine \<Rightarrow> (string, candidate_expected_evidence) dict \<Rightarrow> 'b candidate \<Rightarrow> candidate_receipt \<Rightarrow> bool" where
  "proven h engine expected c x \<longleftrightarrow>
     cp_metadata x = ca_metadata c \<and> mk_candidate_metadata (ca_metadata c) = Inr (ca_metadata c) \<and>
     map go_gate (cp_gates x) = gate_order \<and> list_all go_passed (cp_gates x) \<and> cp_gates x = ca_gates c \<and>
     engine (ca_sql c) (ca_bind_params c) = Some (cm_sql_fingerprint (ca_metadata c)) \<and>
     (\<exists>e digest. dget expected (cm_candidate_id (ca_metadata c)) = Some e \<and> ee_metadata e = ca_metadata c \<and>
        rowset_sha256 h (ca_rowset c) = Inr digest \<and> cp_rowset_sha256 x = Some digest \<and>
        receipt_fits (ca_execution_receipt c) e (ca_metadata c) digest (length (ca_rowset c)))"

lemma verify_proven:
  assumes "hard_gates_passed (verify h engine expected c)" shows "proven h engine expected c (verify h engine expected c)"
proof -
  let ?v = "verify h engine expected c"
  from assms obtain m where m: "mk_candidate_metadata (ca_metadata c) = Inr m"
    by (cases "mk_candidate_metadata (ca_metadata c)") (auto simp: verify_def failed_candidate_def)
  then have mm: "m = ca_metadata c" by (auto simp: mk_candidate_metadata_def)
  from assms m obtain r where r: "mk_execution_receipt (ca_execution_receipt c) = Inr r"
    by (cases "mk_execution_receipt (ca_execution_receipt c)") (auto simp: verify_def failed_candidate_def)
  then have rr: "r = ca_execution_receipt c" by (auto simp: mk_execution_receipt_def)
  from assms m r obtain e where e: "dget expected (cm_candidate_id m) = Some e" "m = ee_metadata e"
    by (cases "dget expected (cm_candidate_id m)") (auto simp: verify_def failed_candidate_def split: if_splits)
  obtain outs f where loop: "gate_loop (sql_failure engine c) gate_order (ca_gates c) [] = (outs, f)" by (rule prod.exhaust)
  from assms m r e loop have f: "f = None" by (cases f) (auto simp: verify_def failed_candidate_def)
  from assms m r e loop f obtain d where d: "rowset_sha256 h (ca_rowset c) = Inr d"
    by (cases "rowset_sha256 h (ca_rowset c)") (auto simp: verify_def failed_candidate_def)
  have ok: "\<not> evidence_mismatch r e m d (length (ca_rowset c))"
    using assms m r e loop f d by (auto simp: verify_def failed_candidate_def split: if_splits)
  have v: "?v = \<lparr>cp_metadata = m, cp_rowset_sha256 = Some d, cp_gates = outs, cp_failure_code = None\<rparr>"
    using m r e loop f d ok by (simp add: verify_def)
  from gate_loop_ok[OF loop[unfolded f]] have gates: "map go_gate (ca_gates c) = gate_order" "list_all go_passed (ca_gates c)"
    "sql_failure engine c = None" "outs = ca_gates c" by (simp_all add: gate_order_def)
  from gates(3) have "engine (ca_sql c) (ca_bind_params c) = Some (cm_sql_fingerprint (ca_metadata c))"
    by (auto simp: sql_failure_def split: option.splits if_splits)
  then show ?thesis using v gates e d ok mm m rr by (simp add: proven_def evidence_mismatch_iff)
qed

section \<open>What selection guarantees\<close>

lemma min_by_least:
  "min_by key x xs \<in> set (x # xs) \<and> (\<forall>y \<in> set (x # xs). key (min_by key x xs) \<le> key y)"
proof (induction key x xs rule: min_by.induct)
  case (2 key x y ys)
  show ?case
  proof (cases "key y < key x")
    case True
    with 2 have "key (min_by key y ys) \<le> key x" by (auto intro: order_trans less_imp_le)
    with True 2 show ?thesis by auto
  next
    case False
    with 2 have "key (min_by key x ys) \<le> key y" by (auto simp: not_less intro: order_trans)
    with False 2 show ?thesis by auto
  qed
qed simp

definition receipts_of ::
  "(string \<Rightarrow> string) \<Rightarrow> 'b policy_engine \<Rightarrow> (string, candidate_expected_evidence) dict \<Rightarrow> route_budget \<Rightarrow> 'b candidate list \<Rightarrow> candidate_receipt list" where
  "receipts_of h engine expected budget cs = map (within_join_budget budget \<circ> verify h engine expected) cs"

definition valid_ids :: "(string \<Rightarrow> string) \<Rightarrow> 'b policy_engine \<Rightarrow> (string, candidate_expected_evidence) dict \<Rightarrow> 'b candidate list \<Rightarrow> string list" where
  "valid_ids h engine expected cs = map (cm_candidate_id \<circ> cp_metadata)
     (filter (\<lambda>x. cp_failure_code x \<noteq> Some ''candidate_invalid'') (map (verify h engine expected) cs))"

lemma select_candidate_eq:
  "select_candidate h engine expected cs r budget free =
     (case candidate_capacity (length cs) r budget free of
        Some failure \<Rightarrow> rejected False failure []
      | None \<Rightarrow>
          if \<not> distinct (valid_ids h engine expected cs) then rejected False ''duplicate_candidate_id'' (map (verify h engine expected) cs)
          else (case filter hard_gates_passed (receipts_of h engine expected budget cs) of
                  [] \<Rightarrow> rejected False ''no_candidate_passed_hard_gates'' (receipts_of h engine expected budget cs)
                | x # xs \<Rightarrow>
                    if 1 < card ((cm_semantic_signature \<circ> cp_metadata) ` set (x # xs))
                    then rejected True ''semantic_divergence'' (receipts_of h engine expected budget cs)
                    else if 1 < card (cp_rowset_sha256 ` set (x # xs))
                    then rejected True ''rowset_divergence'' (receipts_of h engine expected budget cs)
                    else \<lparr>cd_winner = Some (min_by (preference_key \<circ> cp_metadata) x xs), cd_needs_hitl = False,
                          cd_reason = ''accepted'', cd_receipts = receipts_of h engine expected budget cs\<rparr>))"
  by (simp add: select_candidate_def receipts_of_def valid_ids_def Let_def comp_assoc split: option.split list.split)

lemma eligible_receipt:
  assumes "x \<in> set (filter hard_gates_passed (receipts_of h engine expected budget cs))"
  obtains c where "c \<in> set cs" "x = verify h engine expected c" "proven h engine expected c x"
    "cm_join_hops (cp_metadata x) \<le> max_join_hops budget"
proof -
  from assms obtain c where c: "c \<in> set cs" "x = within_join_budget budget (verify h engine expected c)" "hard_gates_passed x"
    by (auto simp: receipts_of_def)
  then have "x = verify h engine expected c" "cm_join_hops (cp_metadata x) \<le> max_join_hops budget"
    by (auto simp: within_join_budget_def failed_candidate_def split: if_splits)
  with c show ?thesis using that verify_proven by metis
qed

lemma card_image_le_one:
  assumes "finite A" "\<not> 1 < card (f ` A)" "a \<in> A" "b \<in> A" shows "f a = f b"
proof -
  have "card (f ` A) \<le> Suc 0" using assms(2) by simp
  then have "\<forall>u \<in> f ` A. \<forall>v \<in> f ` A. u = v" by (rule card_le_Suc0_iff_eq[OF finite_imageI[OF assms(1)], THEN iffD1])
  then show ?thesis using assms(3,4) by blast
qed

text \<open>C37. Whatever wins was proven: an accepted candidate is one of those given, its metadata is the server's own for that
  id, it passed all five gates in order, the policy engine accepted its statement with its fingerprint, and its
  receipt matches the expected evidence and the hash of its rows.  The number of candidates and the joins are within
  the budget, every candidate that passed agrees on the meaning and the rows, and none is preferred to the winner.\<close>

theorem accepted_candidate_proven:
  assumes "cd_winner (select_candidate h engine expected cs r budget free) = Some w"
  shows "(\<exists>c \<in> set cs. w = verify h engine expected c \<and> proven h engine expected c w) \<and>
    cm_join_hops (cp_metadata w) \<le> max_join_hops budget \<and>
    int (length cs) \<le> max_sql_candidates budget \<and> int (length cs) \<le> max_sql_executions budget \<and>
    length cs \<le> (if r = Deep then 2 else 1) \<and>
    (\<forall>x \<in> set (filter hard_gates_passed (receipts_of h engine expected budget cs)).
       cm_semantic_signature (cp_metadata x) = cm_semantic_signature (cp_metadata w) \<and> cp_rowset_sha256 x = cp_rowset_sha256 w \<and>
       preference_key (cp_metadata w) \<le> preference_key (cp_metadata x))"
proof -
  let ?el = "filter hard_gates_passed (receipts_of h engine expected budget cs)"
  from assms have cap: "candidate_capacity (length cs) r budget free = None"
    by (auto simp: select_candidate_eq rejected_def split: option.splits)
  from assms cap obtain x xs where el: "?el = x # xs"
    by (cases ?el) (auto simp: select_candidate_eq rejected_def split: if_splits)
  from assms cap el have agree: "\<not> 1 < card ((cm_semantic_signature \<circ> cp_metadata) ` set (x # xs))" "\<not> 1 < card (cp_rowset_sha256 ` set (x # xs))"
    and w: "w = min_by (preference_key \<circ> cp_metadata) x xs"
    by (auto simp: select_candidate_eq rejected_def simp del: set_simps split: if_splits)
  have least: "w \<in> set (x # xs)" "\<And>y. y \<in> set (x # xs) \<Longrightarrow> preference_key (cp_metadata w) \<le> preference_key (cp_metadata y)"
    using min_by_least[of "preference_key \<circ> cp_metadata" x xs] w by auto
  from least(1) have "w \<in> set ?el" by (simp only: el)
  then obtain c where c: "c \<in> set cs" "w = verify h engine expected c" "proven h engine expected c w" "cm_join_hops (cp_metadata w) \<le> max_join_hops budget"
    by (rule eligible_receipt)
  have same: "cm_semantic_signature (cp_metadata y) = cm_semantic_signature (cp_metadata w) \<and> cp_rowset_sha256 y = cp_rowset_sha256 w \<and>
      preference_key (cp_metadata w) \<le> preference_key (cp_metadata y)" if "y \<in> set ?el" for y
    using that[unfolded el] least card_image_le_one[OF _ agree(1), of y w] card_image_le_one[OF _ agree(2), of y w] by simp
  from cap have "int (length cs) \<le> max_sql_candidates budget" "int (length cs) \<le> max_sql_executions budget" "length cs \<le> (if r = Deep then 2 else 1)"
    by (auto simp: candidate_capacity_def split: if_splits)
  with c same show ?thesis by blast
qed

section \<open>The order of candidates does not matter\<close>

lemma not_invalid_ids:
  assumes "distinct (valid_ids h engine expected cs)"
    and "x \<in> set (filter hard_gates_passed (receipts_of h engine expected budget cs))"
    and "y \<in> set (filter hard_gates_passed (receipts_of h engine expected budget cs))"
    and "cm_candidate_id (cp_metadata x) = cm_candidate_id (cp_metadata y)"
  shows "x = y"
proof -
  let ?ok = "filter (\<lambda>x. cp_failure_code x \<noteq> Some ''candidate_invalid'') (map (verify h engine expected) cs)"
  have "x \<in> set ?ok" if "x \<in> set (filter hard_gates_passed (receipts_of h engine expected budget cs))" for x
    using that by (auto simp: receipts_of_def within_join_budget_def failed_candidate_def split: if_splits)
  with assms(2,3) have in_ok: "x \<in> set ?ok" "y \<in> set ?ok" by blast+
  from assms(1) have inj: "inj_on (cm_candidate_id \<circ> cp_metadata) (set ?ok)" unfolding valid_ids_def distinct_map by blast
  from assms(4) have "(cm_candidate_id \<circ> cp_metadata) x = (cm_candidate_id \<circ> cp_metadata) y" by simp
  from inj_onD[OF inj this in_ok] show ?thesis .
qed

lemma min_by_unique:
  assumes "set (x # xs) = set (y # ys)" and "inj_on key (set (x # xs))"
  shows "min_by key x xs = min_by key y ys"
proof -
  note a = min_by_least[of key x xs] and b = min_by_least[of key y ys]
  have "key (min_by key x xs) = key (min_by key y ys)" using a b assms(1) by (metis order_antisym)
  then show ?thesis using a b assms by (metis inj_onD)
qed

text \<open>C38. The decision does not depend on the order in which candidates are given: the same candidates in another
  order give the same winner, the same need for a human and the same reason.\<close>

theorem selection_order_free:
  assumes "mset cs = mset ds"
  shows "cd_winner (select_candidate h engine expected cs r budget free) = cd_winner (select_candidate h engine expected ds r budget free) \<and>
    cd_needs_hitl (select_candidate h engine expected cs r budget free) = cd_needs_hitl (select_candidate h engine expected ds r budget free) \<and>
    cd_reason (select_candidate h engine expected cs r budget free) = cd_reason (select_candidate h engine expected ds r budget free)"
proof -
  let ?el = "\<lambda>cs. filter hard_gates_passed (receipts_of h engine expected budget cs)"
  have len: "length cs = length ds" using assms by (rule mset_eq_length)
  have ids: "distinct (valid_ids h engine expected cs) = distinct (valid_ids h engine expected ds)"
    by (rule mset_eq_imp_distinct_iff) (simp add: valid_ids_def assms)
  have els: "set (?el cs) = set (?el ds)" using mset_eq_setD[OF assms] by (simp add: receipts_of_def)
  show ?thesis
  proof (cases "?el cs")
    case Nil
    then have "?el ds = []" using els by (metis set_empty)
    with Nil len ids show ?thesis by (simp add: select_candidate_eq rejected_def split: option.split)
  next
    case (Cons x xs)
    then obtain y ys where ds: "?el ds = y # ys" using els by (cases "?el ds") auto
    have sets: "set (x # xs) = set (y # ys)" using els by (simp only: Cons ds)
    have "min_by (preference_key \<circ> cp_metadata) x xs = min_by (preference_key \<circ> cp_metadata) y ys"
      if "distinct (valid_ids h engine expected cs)"
      using sets by (rule min_by_unique)
        (use not_invalid_ids[OF that, of _ budget, unfolded Cons] in \<open>auto simp: inj_on_def preference_key_def\<close>)
    with Cons ds len ids show ?thesis
      by (auto simp: select_candidate_eq sets rejected_def simp del: set_simps split: option.split)
  qed
qed

section \<open>A selection between two candidates\<close>

definition zeros :: string where "zeros = replicate 64 CHR ''0''"

definition sample_metadata :: "string \<Rightarrow> int \<Rightarrow> candidate_metadata" where
  "sample_metadata i rows = \<lparr>cm_candidate_id = i, cm_origin = DeterministicCandidate, cm_sql_fingerprint = zeros,
     cm_semantic_signature = zeros, cm_relation_ids = [''sales''], cm_source_kind = ApprovedAggregate, cm_join_hops = 0,
     cm_estimated_rows = rows, cm_estimated_cost = Finite 1\<rparr>"

definition sample_candidate :: "string \<Rightarrow> int \<Rightarrow> unit candidate" where
  "sample_candidate i rows = \<lparr>ca_metadata = sample_metadata i rows, ca_gates = map (\<lambda>g. \<lparr>go_gate = g, go_passed = True\<rparr>) gate_order,
     ca_execution_receipt = \<lparr>rc_datasource = ''wh'', rc_readonly_role = ''ro'', rc_elapsed_ms = 1, rc_row_count = 1,
       rc_plan_cost = Some (Finite 1), rc_estimated_rows = Some (nat rows), rc_masking_applied = False, rc_masked_columns = [],
       rc_error_taxonomy = None, rc_sql_fingerprint = zeros, rc_policy_version = ''p1'', rc_allowed = True,
       rc_authorization_revision = None, rc_evidence = no_evidence\<lparr>ge_rowset_sha256 := Some zeros, ge_source_kind := Some ApprovedAggregate,
         ge_source_id := Some ''sales'', ge_selection_reason := Some FreshApprovedAggregate, ge_semantic_signature := Some zeros\<rparr>\<rparr>,
     ca_sql = ''select 1'', ca_rowset = [CellDict [(''n'', CellInt 1)]], ca_bind_params = ()\<rparr>"

definition sample_evidence :: "string \<Rightarrow> int \<Rightarrow> candidate_expected_evidence" where
  "sample_evidence i rows = \<lparr>ee_metadata = sample_metadata i rows, ee_policy_version = ''p1'', ee_readonly_role = ''ro'',
     ee_source_id = ''sales'', ee_source_checkpoint = None, ee_selection_reason = FreshApprovedAggregate, ee_source_degradation = []\<rparr>"

definition sample_expected :: "(string, candidate_expected_evidence) dict" where
  "sample_expected = [(''a'', sample_evidence ''a'' 20), (''b'', sample_evidence ''b'' 10)]"

definition sample_budget :: route_budget where
  "sample_budget = \<lparr>deadline_ms = 1000, max_model_calls = 0, max_sql_candidates = 2, max_sql_executions = 2, max_join_hops = 1, max_repairs = 0\<rparr>"

abbreviation sample_select :: "unit candidate list \<Rightarrow> candidate_decision" where
  "sample_select cs \<equiv> select_candidate (\<lambda>_. zeros) (\<lambda>_ _. Some zeros) sample_expected cs Deep sample_budget True"

lemma sample_selected: "map_option (cm_candidate_id \<circ> cp_metadata) (cd_winner (sample_select [sample_candidate ''a'' 20, sample_candidate ''b'' 10])) = Some ''b''"
  by code_simp

theorem accepted_candidate_proven_witness:
  "\<exists>w. cd_winner (sample_select [sample_candidate ''a'' 20, sample_candidate ''b'' 10]) = Some w \<and>
     cm_candidate_id (cp_metadata w) = ''b'' \<and> cm_join_hops (cp_metadata w) \<le> 1"
proof -
  from sample_selected obtain w where w: "cd_winner (sample_select [sample_candidate ''a'' 20, sample_candidate ''b'' 10]) = Some w"
    "cm_candidate_id (cp_metadata w) = ''b''" by auto
  from accepted_candidate_proven[OF w(1)] have "cm_join_hops (cp_metadata w) \<le> 1" by (simp add: sample_budget_def)
  with w show ?thesis by blast
qed

theorem selection_order_free_witness:
  "map_option (cm_candidate_id \<circ> cp_metadata) (cd_winner (sample_select [sample_candidate ''b'' 10, sample_candidate ''a'' 20])) = Some ''b''"
proof -
  have "mset [sample_candidate ''a'' 20, sample_candidate ''b'' 10] = mset [sample_candidate ''b'' 10, sample_candidate ''a'' 20]" by simp
  from selection_order_free[OF this] sample_selected show ?thesis by metis
qed

end
