(* ===== verification/Custom_Calculation.thy ===== *)
theory Custom_Calculation
  imports Definition_Service Calculation_Runtime Plan_Contract
begin

text \<open>
  Running a reusable definition: the calculation core (\<open>orchestration/custom_calculation_execution.py\<close>), the
  governed input resolver (\<open>orchestration/governed_calculation_inputs.py\<close>) and the service that joins them to the
  definition store (\<open>artifacts/custom_definition_execution_service.py\<close>).  The fetcher of governed values, the
  only seam to live data, is a function on a world state; pydantic's text of a timestamp is an argument.
  The resolver protocol is the locale \<open>governed_resolver\<close>.
\<close>

section \<open>Timestamps\<close>

text \<open>A \<open>datetime\<close>: microseconds since the first instant of year 1 on the local clock, and its UTC offset if it is
  aware.  \<open>astimezone(UTC)\<close> raises outside the years 1 to 9999.\<close>

record py_datetime =
  dt_local :: int
  dt_offset :: "int option"

definition max_instant :: int where
  "max_instant = 3652059 * 86400000000"

definition astimezone_utc :: "py_datetime \<Rightarrow> py_datetime result" where
  "astimezone_utc t =
     (let u = dt_local t - (case dt_offset t of None \<Rightarrow> 0 | Some d \<Rightarrow> d)
      in if 0 \<le> u \<and> u < max_instant then Inr \<lparr>dt_local = u, dt_offset = Some 0\<rparr>
         else Inl (OverflowError ''date value out of range''))"

section \<open>Resolved inputs\<close>

datatype input_status = InputResolved | InputUnavailable

fun input_status_text :: "input_status \<Rightarrow> string" where
  "input_status_text InputResolved = ''resolved''"
| "input_status_text InputUnavailable = ''unavailable''"

datatype resolved_scalar = RsDec decimal | RsInt int | RsStr string

fun runtime_scalar :: "resolved_scalar \<Rightarrow> scalar" where
  "runtime_scalar (RsDec d) = VDec d"
| "runtime_scalar (RsInt i) = VInt i"
| "runtime_scalar (RsStr s) = VStr s"

fun resolved_scalar_json :: "resolved_scalar \<Rightarrow> json" where
  "resolved_scalar_json (RsDec d) = JStr (dec_str d)"
| "resolved_scalar_json (RsInt i) = JInt i"
| "resolved_scalar_json (RsStr s) = JStr s"

record resolved_calculation_input =
  rv_role :: string
  rv_metric_key :: string
  rv_status :: input_status
  rv_value :: "resolved_scalar option"
  rv_unit :: string
  rv_data_as_of :: "py_datetime option"
  rv_time_range :: "time_range option"
  rv_provenance :: input_provenance
  rv_source_id :: "string option"
  rv_receipt_step_id :: "string option"
  rv_fact_id :: "string option"

definition mk_resolved_calculation_input :: "resolved_calculation_input \<Rightarrow> resolved_calculation_input result" where
  "mk_resolved_calculation_input r = validated
     [(\<not> role_name (rv_role r), FieldError ''role''),
      (\<not> length_in 1 256 (rv_metric_key r), FieldError ''metric_key''),
      (case rv_value r of Some (RsStr s) \<Rightarrow> length s > 256 | _ \<Rightarrow> False,
       ValueError ''resolved calculation input string is too large''),
      (\<not> length_in 1 64 (rv_unit r), FieldError ''unit''),
      (opt_bad (\<lambda>t. mk_time_range t = Inr t) (rv_time_range r), FieldError ''time_range''),
      (opt_bad calculation_id_ok (rv_source_id r), FieldError ''source_id''),
      (opt_bad plan_step_id (rv_receipt_step_id r), FieldError ''receipt_step_id''),
      (opt_bad is_hex64 (rv_fact_id r), FieldError ''fact_id''),
      (rv_status r = InputUnavailable \<and> rv_value r \<noteq> None, ValueError ''unavailable calculation input cannot carry a value'')] r"

definition opt_json :: "('a \<Rightarrow> json) \<Rightarrow> 'a option \<Rightarrow> json" where
  "opt_json f v = (case v of None \<Rightarrow> JNull | Some x \<Rightarrow> f x)"

definition resolved_input_json :: "(py_datetime \<Rightarrow> string) \<Rightarrow> resolved_calculation_input \<Rightarrow> json" where
  "resolved_input_json stamp r = jobj
     [(''role'', JStr (rv_role r)), (''metric_key'', JStr (rv_metric_key r)), (''status'', JStr (input_status_text (rv_status r))),
      (''value'', opt_json resolved_scalar_json (rv_value r)), (''unit'', JStr (rv_unit r)),
      (''data_as_of'', opt_json (\<lambda>t. JStr (stamp t)) (rv_data_as_of r)), (''time_range'', opt_json time_range_json (rv_time_range r)),
      (''provenance'', JStr (provenance_text (rv_provenance r))), (''source_id'', opt_json JStr (rv_source_id r)),
      (''receipt_step_id'', opt_json JStr (rv_receipt_step_id r)), (''fact_id'', opt_json JStr (rv_fact_id r))]"

definition resolved_input_checksum :: "(string \<Rightarrow> string) \<Rightarrow> (py_datetime \<Rightarrow> string) \<Rightarrow> resolved_calculation_input \<Rightarrow> string" where
  "resolved_input_checksum h stamp r = checksum_of h (resolved_input_json stamp r)"

record calculation_input_provenance =
  ip_role :: string
  ip_metric_key :: string
  ip_status :: input_status
  ip_unit :: string
  ip_data_as_of :: "py_datetime option"
  ip_time_range :: "time_range option"
  ip_provenance :: input_provenance
  ip_source_id :: "string option"
  ip_receipt_step_id :: "string option"
  ip_fact_id :: "string option"
  ip_input_checksum :: string

definition mk_calculation_input_provenance :: "calculation_input_provenance \<Rightarrow> calculation_input_provenance result" where
  "mk_calculation_input_provenance p = validated
     [(\<not> role_name (ip_role p), FieldError ''role''),
      (\<not> length_in 1 256 (ip_metric_key p), FieldError ''metric_key''),
      (\<not> length_in 1 64 (ip_unit p), FieldError ''unit''),
      (opt_bad (\<lambda>t. mk_time_range t = Inr t) (ip_time_range p), FieldError ''time_range''),
      (opt_bad calculation_id_ok (ip_source_id p), FieldError ''source_id''),
      (opt_bad plan_step_id (ip_receipt_step_id p), FieldError ''receipt_step_id''),
      (opt_bad is_hex64 (ip_fact_id p), FieldError ''fact_id''),
      (\<not> is_hex64 (ip_input_checksum p), FieldError ''input_checksum'')] p"

definition project_provenance ::
  "(string \<Rightarrow> string) \<Rightarrow> (py_datetime \<Rightarrow> string) \<Rightarrow> resolved_calculation_input \<Rightarrow> calculation_input_provenance result" where
  "project_provenance h stamp r = mk_calculation_input_provenance
     \<lparr>ip_role = rv_role r, ip_metric_key = rv_metric_key r, ip_status = rv_status r, ip_unit = rv_unit r,
      ip_data_as_of = rv_data_as_of r, ip_time_range = rv_time_range r, ip_provenance = rv_provenance r,
      ip_source_id = rv_source_id r, ip_receipt_step_id = rv_receipt_step_id r, ip_fact_id = rv_fact_id r,
      ip_input_checksum = resolved_input_checksum h stamp r\<rparr>"

section \<open>The result\<close>

record custom_calculation_execution_result =
  cx_calculation_id :: string
  cx_spec_checksum :: string
  cx_binding_checksum :: string
  cx_value :: decimal
  cx_unit :: string
  cx_input_provenance :: "calculation_input_provenance list"
  cx_data_as_of :: "py_datetime option"
  cx_time_range :: "time_range option"

definition mk_custom_calculation_execution_result ::
  "custom_calculation_execution_result \<Rightarrow> custom_calculation_execution_result result" where
  "mk_custom_calculation_execution_result x = validated
     [(\<not> calculation_id_ok (cx_calculation_id x), FieldError ''calculation_id''),
      (\<not> is_hex64 (cx_spec_checksum x), FieldError ''spec_checksum''),
      (\<not> is_hex64 (cx_binding_checksum x), FieldError ''binding_checksum''),
      (\<not> length_in 1 64 (cx_unit x), FieldError ''unit''),
      (\<not> length_in 1 32 (cx_input_provenance x), FieldError ''input_provenance''),
      (\<not> distinct (map ip_role (cx_input_provenance x)), ValueError ''calculation result input roles must be unique'')] x"

definition conservative_data_as_of :: "calculation_input_provenance list \<Rightarrow> py_datetime option result" where
  "conservative_data_as_of ps =
     (if list_ex (\<lambda>p. case ip_data_as_of p of None \<Rightarrow> True | Some t \<Rightarrow> dt_offset t = None) ps then Inr None
      else case all_results (map astimezone_utc (List.map_filter ip_data_as_of ps)) of
             Inl e \<Rightarrow> Inl e
           | Inr [] \<Rightarrow> Inl (ValueError ''min() iterable argument is empty'')
           | Inr (t # ts) \<Rightarrow> Inr (Some (fold (\<lambda>x m. if dt_local x < dt_local m then x else m) ts t)))"

definition common_time_range :: "calculation_input_provenance list \<Rightarrow> time_range option" where
  "common_time_range ps =
     (case map ip_time_range ps of
        [] \<Rightarrow> None
      | v # vs \<Rightarrow> if None \<in> set (v # vs) then None else if list_all (\<lambda>x. x = v) vs then v else None)"

section \<open>Running the calculation\<close>

abbreviation refuse_calculation :: "string \<Rightarrow> 'a result" where
  "refuse_calculation code \<equiv> Inl (CustomCalculationExecutionError code)"

definition by_role :: "('a \<Rightarrow> string) \<Rightarrow> 'a list \<Rightarrow> (string, 'a) dict" where
  "by_role f xs = fold (\<lambda>x d. dset (f x) x d) xs []"

fun bind_inputs ::
  "(string \<Rightarrow> string) \<Rightarrow> (py_datetime \<Rightarrow> string) \<Rightarrow> (string, resolved_calculation_input) dict \<Rightarrow>
   (string, calculation_input_spec) dict \<Rightarrow> (string, scalar option) dict \<Rightarrow> calculation_input_provenance list \<Rightarrow>
   ((string, scalar option) dict \<times> calculation_input_provenance list) result" where
  "bind_inputs h stamp supplied [] ins ps = Inr (ins, ps)"
| "bind_inputs h stamp supplied ((role, requirement) # wanted) ins ps =
     (case dget supplied role of
        None \<Rightarrow> if ci_required requirement then refuse_calculation ''calculation_input_missing''
                else bind_inputs h stamp supplied wanted ins ps
      | Some r \<Rightarrow>
          if ci_metric_key requirement \<noteq> Some (rv_metric_key r) then refuse_calculation ''calculation_input_metric_mismatch''
          else if rv_provenance r \<noteq> ci_provenance requirement then refuse_calculation ''calculation_input_provenance_mismatch''
          else if rv_status r = InputUnavailable then
            (if ci_required requirement then refuse_calculation ''calculation_input_unavailable''
             else bind_inputs h stamp supplied wanted ins ps)
          else
            (case project_provenance h stamp r of
               Inl e \<Rightarrow> Inl e
             | Inr p \<Rightarrow> bind_inputs h stamp supplied wanted (dset role (map_option runtime_scalar (rv_value r)) ins) (ps @ [p])))"

text \<open>\<open>except RuntimeError\<close> around the evaluator: its own error keeps its code.\<close>

fun as_execution_error :: "exn \<Rightarrow> exn" where
  "as_execution_error (CalculationRuntimeError c) = CustomCalculationExecutionError c"
| "as_execution_error (RuntimeError _) = CustomCalculationExecutionError ''calculation_runtime_failed''"
| "as_execution_error e = e"

definition result_unit :: "calculation_spec \<Rightarrow> string" where
  "result_unit spec = (case cs_custom_unit_id spec of Some u \<Rightarrow> u | None \<Rightarrow> unit_text (cs_unit spec))"

definition execute_custom_calculation ::
  "(string \<Rightarrow> string) \<Rightarrow> (py_datetime \<Rightarrow> string) \<Rightarrow> calculation_spec \<Rightarrow> calculation_execution_binding \<Rightarrow>
   resolved_calculation_input list \<Rightarrow> custom_calculation_execution_result result" where
  "execute_custom_calculation h stamp spec b inputs =
     (case binding_failures h b spec of c # _ \<Rightarrow> refuse_calculation c | [] \<Rightarrow>
      if \<not> distinct (map rv_role inputs) then refuse_calculation ''calculation_input_role_duplicate''
      else let wanted = by_role ci_role (cs_inputs spec); supplied = by_role rv_role inputs in
      if \<not> set (map fst supplied) \<subseteq> set (map fst wanted) then refuse_calculation ''calculation_input_role_unknown''
      else case bind_inputs h stamp supplied wanted [] [] of Inl e \<Rightarrow> Inl e | Inr (ins, ps) \<Rightarrow>
        (case evaluate_calculation spec ins (Some b) of Inl e \<Rightarrow> Inl (as_execution_error e) | Inr evaluated \<Rightarrow>
        (case conservative_data_as_of ps of Inl e \<Rightarrow> Inl e | Inr as_of \<Rightarrow>
           mk_custom_calculation_execution_result
             \<lparr>cx_calculation_id = cs_calculation_id spec, cx_spec_checksum = spec_checksum h spec,
              cx_binding_checksum = binding_checksum h b, cx_value = er_value evaluated, cx_unit = result_unit spec,
              cx_input_provenance = ps, cx_data_as_of = as_of, cx_time_range = common_time_range ps\<rparr>)))"

section \<open>Resolving governed inputs\<close>

datatype date_mode = LatestAuthoritative | ExactDate

record definition_execution_context =
  dc_date_mode :: date_mode
  dc_exact_date :: "date option"

definition default_context :: definition_execution_context where
  "default_context = \<lparr>dc_date_mode = LatestAuthoritative, dc_exact_date = None\<rparr>"

definition mk_definition_execution_context :: "definition_execution_context \<Rightarrow> definition_execution_context result" where
  "mk_definition_execution_context c = validated
     [(opt_bad date_ok (dc_exact_date c), FieldError ''exact_date''),
      (dc_date_mode c = LatestAuthoritative \<and> dc_exact_date c \<noteq> None, ValueError ''exact_date is only valid with date_mode=exact_date''),
      (dc_date_mode c = ExactDate \<and> dc_exact_date c = None, ValueError ''exact_date is required with date_mode=exact_date'')] c"

text \<open>What a fetch gives: an exception, an object of another class, or an input.  The fetcher sees the owner, the role,
  the metric, the required provenance and the date context, nothing else.\<close>

datatype fetched = FetchedOther | FetchedInput resolved_calculation_input

type_synonym 'w fetcher =
  "string \<Rightarrow> string \<Rightarrow> string \<Rightarrow> input_provenance \<Rightarrow> definition_execution_context \<Rightarrow> 'w \<Rightarrow> fetched result \<times> 'w"

abbreviation refuse_input :: "string \<Rightarrow> exn" where
  "refuse_input \<equiv> GovernedMetricInputResolutionError"

definition accept_evidence ::
  "bool \<Rightarrow> calculation_input_spec \<Rightarrow> string \<Rightarrow> fetched \<Rightarrow> resolved_calculation_input result" where
  "accept_evidence require_as_of requirement key f =
     (case f of FetchedOther \<Rightarrow> Inl (refuse_input ''calculation_input_evidence_invalid'')
      | FetchedInput c \<Rightarrow> validated
          [(rv_role c \<noteq> ci_role requirement, refuse_input ''calculation_input_role_mismatch''),
           (rv_metric_key c \<noteq> key, refuse_input ''calculation_input_metric_mismatch''),
           (rv_provenance c \<noteq> ci_provenance requirement, refuse_input ''calculation_input_provenance_mismatch''),
           (rv_status c \<noteq> InputResolved, refuse_input ''calculation_input_unavailable''),
           (require_as_of \<and> rv_data_as_of c = None, refuse_input ''calculation_input_data_as_of_missing''),
           (rv_source_id c = None \<or> rv_receipt_step_id c = None \<or> rv_fact_id c = None,
            refuse_input ''calculation_input_provenance_incomplete'')] c)"

fun resolve_loop_inputs ::
  "'w fetcher \<Rightarrow> bool \<Rightarrow> string \<Rightarrow> definition_execution_context \<Rightarrow> calculation_input_spec list \<Rightarrow>
   resolved_calculation_input list \<Rightarrow> 'w \<Rightarrow> resolved_calculation_input list result \<times> 'w" where
  "resolve_loop_inputs fetch require_as_of owner ctx [] acc w = (Inr acc, w)"
| "resolve_loop_inputs fetch require_as_of owner ctx (requirement # rest) acc w =
     (case ci_metric_key requirement of
        None \<Rightarrow> (Inl (refuse_input ''calculation_input_metric_unbound''), w)
      | Some key \<Rightarrow>
          (case fetch owner (ci_role requirement) key (ci_provenance requirement) ctx w of
             (Inl e, w') \<Rightarrow> (Inl e, w')
           | (Inr f, w') \<Rightarrow>
               (case accept_evidence require_as_of requirement key f of
                  Inl e \<Rightarrow> (Inl e, w')
                | Inr c \<Rightarrow> resolve_loop_inputs fetch require_as_of owner ctx rest (acc @ [c]) w')))"

type_synonym 'w input_resolver =
  "string \<Rightarrow> definition_version \<Rightarrow> calculation_execution_binding \<Rightarrow> definition_execution_context option \<Rightarrow> 'w \<Rightarrow>
   resolved_calculation_input list result \<times> 'w"

definition typed_input_resolver :: "'w fetcher \<Rightarrow> bool \<Rightarrow> 'w input_resolver" where
  "typed_input_resolver fetch require_as_of owner exact b ctx w =
     (let context = (case ctx of None \<Rightarrow> default_context | Some c \<Rightarrow> c); wanted = cs_inputs (dv_calculation exact) in
      if wanted = [] \<or> \<not> distinct (map ci_role wanted)
      then (Inl (refuse_input ''calculation_input_role_contract_invalid''), w)
      else case resolve_loop_inputs fetch require_as_of owner context wanted [] w of
             (Inl e, w') \<Rightarrow> (Inl e, w')
           | (Inr resolved, w') \<Rightarrow>
               if map rv_role resolved \<noteq> map ci_role wanted \<or> \<not> distinct (map rv_role resolved)
               then (Inl (refuse_input ''calculation_input_role_resolution_incomplete''), w')
               else (Inr resolved, w'))"

section \<open>The execution service\<close>

record custom_definition_execution_outcome =
  eo_definition_id :: string
  eo_version :: nat
  eo_definition_checksum :: string
  eo_result :: custom_calculation_execution_result

definition execute_definition ::
  "(string \<Rightarrow> string) \<Rightarrow> (py_datetime \<Rightarrow> string) \<Rightarrow> 'w input_resolver option \<Rightarrow> definition_store \<Rightarrow> string \<Rightarrow> string \<Rightarrow> nat \<Rightarrow>
   calculation_execution_binding \<Rightarrow> definition_execution_context option \<Rightarrow> 'w \<Rightarrow> custom_definition_execution_outcome result \<times> 'w" where
  "execute_definition h stamp resolver s owner i v b ctx w =
     (case get_exact_version s owner i v of Inl e \<Rightarrow> (Inl e, w) | Inr found \<Rightarrow>
     (case mk_definition_execution_binding
        \<lparr>xb_definition_id = i, xb_version = v, xb_definition_checksum = version_checksum h found, xb_binding = b\<rparr> of
        Inl e \<Rightarrow> (Inl e, w) | Inr db \<Rightarrow>
     (case execute_version h s owner i v db of Inl e \<Rightarrow> (Inl e, w) | Inr exact \<Rightarrow>
     (case resolver of None \<Rightarrow> (Inl CalculationInputResolverUnavailable, w) | Some resolve \<Rightarrow>
     (case resolve owner exact b (Some (case ctx of None \<Rightarrow> default_context | Some c \<Rightarrow> c)) w of
        (Inl e, w') \<Rightarrow> (Inl e, w')
      | (Inr inputs, w') \<Rightarrow>
          (case execute_custom_calculation h stamp (dv_calculation exact) b inputs of
             Inl e \<Rightarrow> (Inl e, w')
           | Inr x \<Rightarrow> (Inr \<lparr>eo_definition_id = dv_definition_id exact, eo_version = dv_version exact,
                          eo_definition_checksum = version_checksum h exact, eo_result = x\<rparr>, w')))))))"

section \<open>What a resolver promises\<close>

text \<open>The evidence a declared input must have.\<close>

definition governed_input :: "calculation_input_spec \<Rightarrow> resolved_calculation_input \<Rightarrow> bool" where
  "governed_input req c \<longleftrightarrow> rv_role c = ci_role req \<and> ci_metric_key req = Some (rv_metric_key c) \<and>
     rv_provenance c = ci_provenance req \<and> rv_status c = InputResolved \<and>
     rv_source_id c \<noteq> None \<and> rv_receipt_step_id c \<noteq> None \<and> rv_fact_id c \<noteq> None"

definition runtime_entry :: "resolved_calculation_input \<Rightarrow> string \<times> scalar option" where
  "runtime_entry c = (rv_role c, map_option runtime_scalar (rv_value c))"

lemma dset_fresh: "k \<notin> fst ` set d \<Longrightarrow> dset k v d = d @ [(k, v)]"
  by (induction d) auto

lemma by_role_append:
  "distinct (map fst d @ map f xs) \<Longrightarrow> fold (\<lambda>x d. dset (f x) x d) xs d = d @ map (\<lambda>x. (f x, x)) xs"
proof (induction xs arbitrary: d)
  case (Cons x xs)
  then have "dset (f x) x d = d @ [(f x, x)]" by (auto intro: dset_fresh)
  then show ?case using Cons.IH[of "d @ [(f x, x)]"] Cons.prems by auto
qed simp

lemma by_role_distinct: "distinct (map f xs) \<Longrightarrow> by_role f xs = map (\<lambda>x. (f x, x)) xs"
  using by_role_append[of "[]" f xs] by (simp add: by_role_def)

lemma by_role_get: "distinct (map f xs) \<Longrightarrow> x \<in> set xs \<Longrightarrow> dget (by_role f xs) (f x) = Some x"
  by (auto simp: by_role_distinct comp_def intro!: map_of_is_SomeI)

lemma governed_roles: "list_all2 governed_input reqs cs \<Longrightarrow> map rv_role cs = map ci_role reqs"
  by (induction rule: list_all2_induct) (auto simp: governed_input_def)

lemma bind_inputs_governed:
  assumes "list_all2 governed_input reqs cs" "\<And>c. c \<in> set cs \<Longrightarrow> dget supplied (rv_role c) = Some c"
    "distinct (map fst ins @ map ci_role reqs)"
  shows "bind_inputs h stamp supplied (map (\<lambda>r. (ci_role r, r)) reqs) ins ps =
    map_sum id (\<lambda>qs. (ins @ map runtime_entry cs, ps @ qs)) (all_results (map (project_provenance h stamp) cs))"
  using assms
proof (induction arbitrary: ins ps rule: list_all2_induct)
  case (Cons req reqs c cs)
  have role: "rv_role c = ci_role req" using Cons.hyps(1) by (simp add: governed_input_def)
  with Cons.prems(1)[of c] have c: "dget supplied (ci_role req) = Some c" "rv_role c = ci_role req" by simp_all
  have fresh: "dset (ci_role req) v ins = ins @ [(ci_role req, v)]" for v
    using Cons.prems(2) by (intro dset_fresh) auto
  show ?case
  proof (cases "project_provenance h stamp c")
    case (Inl e)
    then show ?thesis using Cons.hyps(1) c by (simp add: governed_input_def)
  next
    case (Inr p)
    have IH: "bind_inputs h stamp supplied (map (\<lambda>r. (ci_role r, r)) reqs) (ins @ [runtime_entry c]) (ps @ [p]) =
        map_sum id (\<lambda>qs. ((ins @ [runtime_entry c]) @ map runtime_entry cs, (ps @ [p]) @ qs)) (all_results (map (project_provenance h stamp) cs))"
      using Cons.prems c(2) by (intro Cons.IH) (auto simp: runtime_entry_def)
    show ?thesis using Inr Cons.hyps(1) c fresh IH
      by (cases "all_results (map (project_provenance h stamp) cs)") (simp_all add: governed_input_def runtime_entry_def)
  qed
qed simp

text \<open>The calculation on inputs that carry their evidence: no input is missing, unknown, duplicated or mismatched.\<close>

lemma execute_governed:
  assumes "list_all2 governed_input (cs_inputs spec) cs" "distinct (map ci_role (cs_inputs spec))" "binding_failures h b spec = []"
  shows "execute_custom_calculation h stamp spec b cs =
    (case all_results (map (project_provenance h stamp) cs) of Inl e \<Rightarrow> Inl e | Inr ps \<Rightarrow>
     (case evaluate_calculation spec (map runtime_entry cs) (Some b) of Inl e \<Rightarrow> Inl (as_execution_error e) | Inr evaluated \<Rightarrow>
     (case conservative_data_as_of ps of Inl e \<Rightarrow> Inl e | Inr as_of \<Rightarrow>
        mk_custom_calculation_execution_result
          \<lparr>cx_calculation_id = cs_calculation_id spec, cx_spec_checksum = spec_checksum h spec,
           cx_binding_checksum = binding_checksum h b, cx_value = er_value evaluated, cx_unit = result_unit spec,
           cx_input_provenance = ps, cx_data_as_of = as_of, cx_time_range = common_time_range ps\<rparr>)))"
proof -
  note roles = governed_roles[OF assms(1)]
  have d: "distinct (map rv_role cs)" using roles assms(2) by simp
  have "bind_inputs h stamp (by_role rv_role cs) (by_role ci_role (cs_inputs spec)) [] [] =
      map_sum id (\<lambda>qs. (map runtime_entry cs, qs)) (all_results (map (project_provenance h stamp) cs))"
    using bind_inputs_governed[of "cs_inputs spec" cs "by_role rv_role cs" "[]" h stamp "[]"] assms(1,2) by_role_get[OF d]
    by (simp add: by_role_distinct)
  moreover have "set (map fst (by_role rv_role cs)) \<subseteq> set (map fst (by_role ci_role (cs_inputs spec)))"
    using d assms(2) arg_cong[OF roles, of set] by (simp add: by_role_distinct comp_def image_image)
  ultimately show ?thesis using assms(3) d
    by (cases "all_results (map (project_provenance h stamp) cs)") (simp_all add: execute_custom_calculation_def Let_def del: set_map)
qed

text \<open>A resolver in the sense of the protocol: what it returns are the declared inputs, each with its evidence.\<close>

locale governed_resolver =
  fixes resolve :: "'w input_resolver"
  assumes resolved_governed: "resolve owner exact b ctx w = (Inr inputs, w') \<Longrightarrow>
      list_all2 governed_input (cs_inputs (dv_calculation exact)) inputs \<and> distinct (map ci_role (cs_inputs (dv_calculation exact)))"
begin

lemma run_cases:
  assumes "execute_definition h stamp (Some resolve) s owner i v b ctx w = (Inr out, w')"
  obtains exact inputs ps r as_of where
    "get_exact_version s owner i v = Inr exact" "dv_definition_id exact = i" "dv_version exact = v"
    "binding_failures h b (dv_calculation exact) = []"
    "resolve owner exact b (Some (case ctx of None \<Rightarrow> default_context | Some c \<Rightarrow> c)) w = (Inr inputs, w')"
    "list_all2 governed_input (cs_inputs (dv_calculation exact)) inputs"
    "list_all2 (\<lambda>c p. project_provenance h stamp c = Inr p) inputs ps"
    "evaluate_calculation (dv_calculation exact) (map runtime_entry inputs) (Some b) = Inr r"
    "conservative_data_as_of ps = Inr as_of"
    "out = \<lparr>eo_definition_id = i, eo_version = v, eo_definition_checksum = version_checksum h exact,
       eo_result = \<lparr>cx_calculation_id = cs_calculation_id (dv_calculation exact), cx_spec_checksum = spec_checksum h (dv_calculation exact),
           cx_binding_checksum = binding_checksum h b, cx_value = er_value r, cx_unit = result_unit (dv_calculation exact),
           cx_input_provenance = ps, cx_data_as_of = as_of, cx_time_range = common_time_range ps\<rparr>\<rparr>"
proof -
  let ?ctx = "Some (case ctx of None \<Rightarrow> default_context | Some c \<Rightarrow> c)"
  from assms obtain exact inputs x where exact: "get_exact_version s owner i v = Inr exact"
    and ids: "dv_definition_id exact = i" "dv_version exact = v" and b: "binding_failures h b (dv_calculation exact) = []"
    and res: "resolve owner exact b ?ctx w = (Inr inputs, w')"
    and x: "execute_custom_calculation h stamp (dv_calculation exact) b inputs = Inr x"
    and out: "out = \<lparr>eo_definition_id = i, eo_version = v, eo_definition_checksum = version_checksum h exact, eo_result = x\<rparr>"
    by (auto simp: execute_definition_def execute_version_def mk_definition_execution_binding_def split: sum.splits prod.splits)
  note g = resolved_governed[OF res]
  from x obtain ps r as_of where "all_results (map (project_provenance h stamp) inputs) = Inr ps"
    and more: "evaluate_calculation (dv_calculation exact) (map runtime_entry inputs) (Some b) = Inr r" "conservative_data_as_of ps = Inr as_of"
    and "x = \<lparr>cx_calculation_id = cs_calculation_id (dv_calculation exact), cx_spec_checksum = spec_checksum h (dv_calculation exact),
           cx_binding_checksum = binding_checksum h b, cx_value = er_value r, cx_unit = result_unit (dv_calculation exact),
           cx_input_provenance = ps, cx_data_as_of = as_of, cx_time_range = common_time_range ps\<rparr>"
    by (auto simp: execute_governed[OF g[THEN conjunct1] g[THEN conjunct2] b] mk_custom_calculation_execution_result_def split: sum.splits)
  with exact ids b res g more out show ?thesis by (intro that[of exact inputs ps r as_of]) (auto simp: all_results_Inr)
qed

end

lemma accept_evidence_governed:
  "ci_metric_key req = Some key \<Longrightarrow> accept_evidence require_as_of req key f = Inr c \<Longrightarrow>
   f = FetchedInput c \<and> governed_input req c \<and> (require_as_of \<longrightarrow> rv_data_as_of c \<noteq> None)"
  by (auto simp: accept_evidence_def governed_input_def split: fetched.splits)

text \<open>An input was answered by the fetcher for exactly the owner, role, metric and provenance asked for.\<close>

definition fetched_for ::
  "'w fetcher \<Rightarrow> string \<Rightarrow> definition_execution_context \<Rightarrow> calculation_input_spec \<Rightarrow> resolved_calculation_input \<Rightarrow> bool" where
  "fetched_for fetch owner ctx req c \<longleftrightarrow>
     (\<exists>u. fst (fetch owner (ci_role req) (rv_metric_key c) (ci_provenance req) ctx u) = Inr (FetchedInput c))"

lemma resolve_loop_inputs_ok:
  "resolve_loop_inputs fetch req_as_of owner ctx reqs acc w = (Inr cs, w') \<Longrightarrow>
   \<exists>new. cs = acc @ new \<and> list_all2 (\<lambda>req c. governed_input req c \<and> fetched_for fetch owner ctx req c \<and> (req_as_of \<longrightarrow> rv_data_as_of c \<noteq> None)) reqs new"
proof (induction reqs arbitrary: acc w)
  case (Cons req reqs)
  from Cons.prems obtain key f u c where key: "ci_metric_key req = Some key"
    and f: "fetch owner (ci_role req) key (ci_provenance req) ctx w = (Inr f, u)"
    and c: "accept_evidence req_as_of req key f = Inr c"
    and rest: "resolve_loop_inputs fetch req_as_of owner ctx reqs (acc @ [c]) u = (Inr cs, w')"
    by (auto split: option.splits prod.splits sum.splits)
  note g = accept_evidence_governed[OF key c]
  then have "fetched_for fetch owner ctx req c" using f key by (auto simp: fetched_for_def governed_input_def intro!: exI[of _ w])
  with Cons.IH[OF rest] g show ?case by auto
qed simp

lemma typed_resolver_ok:
  assumes "typed_input_resolver fetch req_as_of owner exact b ctx w = (Inr cs, w')"
  shows "list_all2 governed_input (cs_inputs (dv_calculation exact)) cs" "distinct (map ci_role (cs_inputs (dv_calculation exact)))"
    "cs_inputs (dv_calculation exact) \<noteq> []"
    "list_all2 (fetched_for fetch owner (case ctx of None \<Rightarrow> default_context | Some c \<Rightarrow> c)) (cs_inputs (dv_calculation exact)) cs"
    "req_as_of \<Longrightarrow> c \<in> set cs \<Longrightarrow> rv_data_as_of c \<noteq> None"
proof -
  let ?ctx = "case ctx of None \<Rightarrow> default_context | Some c \<Rightarrow> c" and ?reqs = "cs_inputs (dv_calculation exact)"
  have run: "resolve_loop_inputs fetch req_as_of owner ?ctx ?reqs [] w = (Inr cs, w')"
    and d: "distinct (map ci_role ?reqs)" "?reqs \<noteq> []"
    using assms by (auto simp: typed_input_resolver_def Let_def split: if_splits prod.splits sum.splits)
  from resolve_loop_inputs_ok[OF run] have all: "list_all2 (\<lambda>req c. governed_input req c \<and> fetched_for fetch owner ?ctx req c \<and>
      (req_as_of \<longrightarrow> rv_data_as_of c \<noteq> None)) ?reqs cs" by simp
  then show "list_all2 governed_input ?reqs cs" "list_all2 (fetched_for fetch owner ?ctx) ?reqs cs"
    by (auto elim!: list_all2_mono)
  show "distinct (map ci_role ?reqs)" "?reqs \<noteq> []" by fact+
  show "req_as_of \<Longrightarrow> c \<in> set cs \<Longrightarrow> rv_data_as_of c \<noteq> None"
    using all by (auto simp: list_all2_conv_all_nth in_set_conv_nth)
qed

interpretation typed: governed_resolver "typed_input_resolver fetch req_as_of" for fetch :: "'w fetcher" and req_as_of
  by unfold_locales (intro conjI; erule typed_resolver_ok)

section \<open>A run is exact\<close>

lemma fold_least:
  "dt_local (fold (\<lambda>x m. if dt_local x < dt_local m then x else m) ts t) \<le> dt_local t \<and>
   (\<forall>x \<in> set ts. dt_local (fold (\<lambda>x m. if dt_local x < dt_local m then x else m) ts t) \<le> dt_local x)"
proof (induction ts arbitrary: t)
  case (Cons y ts)
  from Cons.IH[of y] Cons.IH[of t] show ?case by auto
qed simp

lemma conservative_oldest:
  assumes "conservative_data_as_of ps = Inr (Some t)" "p \<in> set ps"
  shows "\<exists>d off. ip_data_as_of p = Some d \<and> dt_offset d = Some off \<and> dt_local t \<le> dt_local d - off"
proof -
  from assms(1) obtain x xs where aware: "\<not> list_ex (\<lambda>p. case ip_data_as_of p of None \<Rightarrow> True | Some t \<Rightarrow> dt_offset t = None) ps"
    and utc: "all_results (map astimezone_utc (List.map_filter ip_data_as_of ps)) = Inr (x # xs)"
    and t: "t = fold (\<lambda>x m. if dt_local x < dt_local m then x else m) xs x"
    by (auto simp: conservative_data_as_of_def split: if_splits sum.splits list.splits)
  from aware assms(2) obtain d off where d: "ip_data_as_of p = Some d" "dt_offset d = Some off"
    by (auto simp: list_ex_iff split: option.splits)
  then have "d \<in> set (List.map_filter ip_data_as_of ps)" using assms(2) by (force simp: map_filter_def)
  then obtain n where n: "n < length (List.map_filter ip_data_as_of ps)" "List.map_filter ip_data_as_of ps ! n = d"
    by (metis in_set_conv_nth)
  define u where "u = (x # xs) ! n"
  from utc have "list_all2 (\<lambda>x y. astimezone_utc x = Inr y) (List.map_filter ip_data_as_of ps) (x # xs)" by (simp only: all_results_Inr)
  from list_all2_nthD[OF this n(1)] list_all2_lengthD[OF this] n have u: "u \<in> set (x # xs)" "astimezone_utc d = Inr u"
    unfolding u_def by (metis nth_mem, simp)
  then have "dt_local u = dt_local d - off" using d by (auto simp: astimezone_utc_def Let_def split: if_splits)
  moreover have "dt_local t \<le> dt_local u" using fold_least[of xs x] u(1) t by auto
  ultimately show ?thesis using d by auto
qed

lemma conservative_unknown:
  "conservative_data_as_of ps = Inr None \<Longrightarrow> \<exists>p \<in> set ps. case ip_data_as_of p of None \<Rightarrow> True | Some d \<Rightarrow> dt_offset d = None"
  by (auto simp: conservative_data_as_of_def list_ex_iff split: if_splits sum.splits list.splits)

lemma project_provenance_fields:
  "project_provenance h stamp c = Inr p \<Longrightarrow>
   ip_role p = rv_role c \<and> ip_data_as_of p = rv_data_as_of c \<and> ip_input_checksum p = resolved_input_checksum h stamp c"
  by (auto simp: project_provenance_def mk_calculation_input_provenance_def)

text \<open>The timestamp of a result against the inputs it was computed from: never newer than the oldest of them, and
  absent only when one of them has no absolute time.\<close>

definition as_of_sound :: "resolved_calculation_input list \<Rightarrow> py_datetime option \<Rightarrow> bool" where
  "as_of_sound cs as_of \<longleftrightarrow> (case as_of of
       Some t \<Rightarrow> \<forall>c \<in> set cs. \<exists>d off. rv_data_as_of c = Some d \<and> dt_offset d = Some off \<and> dt_local t \<le> dt_local d - off
     | None \<Rightarrow> \<exists>c \<in> set cs. case rv_data_as_of c of None \<Rightarrow> True | Some d \<Rightarrow> dt_offset d = None)"

lemma projected_inputs:
  assumes "list_all2 (\<lambda>c p. project_provenance h stamp c = Inr p) cs ps"
  shows "map ip_input_checksum ps = map (resolved_input_checksum h stamp) cs" "map ip_role ps = map rv_role cs"
    "map ip_data_as_of ps = map rv_data_as_of cs"
  using assms by (induction rule: list_all2_induct) (simp_all add: project_provenance_fields)

lemma conservative_sound:
  assumes "list_all2 (\<lambda>c p. project_provenance h stamp c = Inr p) cs ps" "conservative_data_as_of ps = Inr as_of"
  shows "as_of_sound cs as_of"
proof -
  have e: "(\<exists>p \<in> set ps. P (ip_data_as_of p)) = (\<exists>c \<in> set cs. P (rv_data_as_of c))" "(\<forall>p \<in> set ps. P (ip_data_as_of p)) = (\<forall>c \<in> set cs. P (rv_data_as_of c))" for P
    using arg_cong[OF projected_inputs(3)[OF assms(1)], of "\<lambda>xs. list_ex P xs"] arg_cong[OF projected_inputs(3)[OF assms(1)], of "\<lambda>xs. list_all P xs"]
    by (simp_all add: list_ex_iff list_all_iff)
  show ?thesis
  proof (cases as_of)
    case None
    then show ?thesis using conservative_unknown[of ps] assms(2) e(1)[of "\<lambda>d. case d of None \<Rightarrow> True | Some d \<Rightarrow> dt_offset d = None"]
      by (simp add: as_of_sound_def)
  next
    case (Some t)
    then show ?thesis using conservative_oldest[of ps t] assms(2)
        e(2)[of "\<lambda>x. \<exists>d off. x = Some d \<and> dt_offset d = Some off \<and> dt_local t \<le> dt_local d - off"]
      by (simp add: as_of_sound_def)
  qed
qed

text \<open>C39. A successful run is exactly the stored version on governed inputs: the binding fits the owner's version, every
  declared input was answered by the fetcher for this owner, role, metric and provenance with complete evidence, the
  value is the evaluator's on these values, the provenance names each input with its checksum, and the result's
  timestamp is never newer than its oldest input.\<close>

theorem definition_run_exact:
  assumes "execute_definition h stamp (Some (typed_input_resolver fetch req_as_of)) s owner i v b ctx w = (Inr out, w')"
  shows "\<exists>exact inputs r. get_exact_version s owner i v = Inr exact \<and>
    eo_definition_id out = i \<and> eo_version out = v \<and> eo_definition_checksum out = version_checksum h exact \<and>
    binding_failures h b (dv_calculation exact) = [] \<and>
    list_all2 (fetched_for fetch owner (case ctx of None \<Rightarrow> default_context | Some c \<Rightarrow> c)) (cs_inputs (dv_calculation exact)) inputs \<and>
    list_all2 governed_input (cs_inputs (dv_calculation exact)) inputs \<and>
    evaluate_calculation (dv_calculation exact) (map runtime_entry inputs) (Some b) = Inr r \<and>
    cx_value (eo_result out) = er_value r \<and> cx_unit (eo_result out) = result_unit (dv_calculation exact) \<and>
    map ip_role (cx_input_provenance (eo_result out)) = map ci_role (cs_inputs (dv_calculation exact)) \<and>
    map ip_input_checksum (cx_input_provenance (eo_result out)) = map (resolved_input_checksum h stamp) inputs \<and>
    as_of_sound inputs (cx_data_as_of (eo_result out))"
proof -
  from assms obtain exact inputs ps r as_of where run: "get_exact_version s owner i v = Inr exact"
      "binding_failures h b (dv_calculation exact) = []"
      "typed_input_resolver fetch req_as_of owner exact b (Some (case ctx of None \<Rightarrow> default_context | Some c \<Rightarrow> c)) w = (Inr inputs, w')"
      "list_all2 governed_input (cs_inputs (dv_calculation exact)) inputs"
      "list_all2 (\<lambda>c p. project_provenance h stamp c = Inr p) inputs ps"
      "evaluate_calculation (dv_calculation exact) (map runtime_entry inputs) (Some b) = Inr r"
      "conservative_data_as_of ps = Inr as_of"
    and out: "out = \<lparr>eo_definition_id = i, eo_version = v, eo_definition_checksum = version_checksum h exact,
       eo_result = \<lparr>cx_calculation_id = cs_calculation_id (dv_calculation exact), cx_spec_checksum = spec_checksum h (dv_calculation exact),
           cx_binding_checksum = binding_checksum h b, cx_value = er_value r, cx_unit = result_unit (dv_calculation exact),
           cx_input_provenance = ps, cx_data_as_of = as_of, cx_time_range = common_time_range ps\<rparr>\<rparr>"
    by (rule typed.run_cases)
  have "list_all2 (fetched_for fetch owner (case ctx of None \<Rightarrow> default_context | Some c \<Rightarrow> c)) (cs_inputs (dv_calculation exact)) inputs"
    using typed_resolver_ok(4)[OF run(3)] by simp
  with run out projected_inputs[OF run(5)] governed_roles[OF run(4)] conservative_sound[OF run(5,7)]
  show ?thesis by (intro exI[of _ exact] exI[of _ inputs] exI[of _ r]) simp
qed

section \<open>How a run fails\<close>

lemma exact_version_fits:
  assumes "store_inv s" "get_exact_version s owner i v = Inr exact"
  shows "is_definition_id i" "dv_definition_id exact = i" "dv_version exact = v"
proof -
  from assms(1) have view: "view_ok i (view_of s i)" by (simp add: store_inv_def)
  from assms(2) obtain d where d: "owned s owner i = Inr d" by (auto simp: get_exact_version_def split: sum.splits)
  from view_ok_definition[OF view d] obtain r where r: "dget (st_drafts s) i = Some r" "definition_ok i (view_of s i) d r" .
  then have same: "same_content r (cd_current_version d)" and ids: "dv_definition_id r = i" "is_definition_id i" by (auto simp: definition_ok_def)
  have ver: "dget (st_versions s) (i, v) = Some x \<Longrightarrow> dv_definition_id x = i \<and> dv_version x = v" for x
    using view_ok_parts(1)[OF view, of v x] by (simp add: view_of_def)
  have "case dget (st_versions s) (i, v) of Some x \<Rightarrow> exact = x
      | None \<Rightarrow> dv_version exact = v \<and> (exact = r \<or> exact = cd_current_version d)"
    using assms(2) d r(1) by (simp add: get_exact_version_def split: option.splits if_splits)
  then have "dv_definition_id exact = i \<and> dv_version exact = v"
    using ver ids(1) same_content_fields(1)[OF same] by (cases "dget (st_versions s) (i, v)") auto
  then show "is_definition_id i" "dv_definition_id exact = i" "dv_version exact = v" using ids(2) by simp_all
qed

definition resolution_codes :: "string list" where
  "resolution_codes =
     [''calculation_input_metric_unbound'', ''calculation_input_evidence_invalid'', ''calculation_input_role_mismatch'',
      ''calculation_input_metric_mismatch'', ''calculation_input_provenance_mismatch'', ''calculation_input_unavailable'',
      ''calculation_input_data_as_of_missing'', ''calculation_input_provenance_incomplete'']"

definition fetch_raises :: "'w fetcher \<Rightarrow> string \<Rightarrow> exn \<Rightarrow> bool" where
  "fetch_raises fetch owner e \<longleftrightarrow> (\<exists>role key p ctx u. fst (fetch owner role key p ctx u) = Inl e)"

lemma accept_evidence_errors: "accept_evidence req_as_of req key f = Inl e \<Longrightarrow> e \<in> refuse_input ` set resolution_codes"
  by (auto simp: accept_evidence_def validated_eval resolution_codes_def split: fetched.splits if_splits)

lemma resolve_loop_errors:
  "resolve_loop_inputs fetch req_as_of owner ctx reqs acc w = (Inl e, w') \<Longrightarrow>
   e \<in> refuse_input ` set resolution_codes \<or> fetch_raises fetch owner e"
proof (induction reqs arbitrary: acc w)
  case (Cons req reqs)
  show ?case
  proof (cases "ci_metric_key req")
    case None
    with Cons.prems show ?thesis by (simp add: resolution_codes_def)
  next
    case (Some key)
    obtain f u where f: "fetch owner (ci_role req) key (ci_provenance req) ctx w = (f, u)" by fastforce
    show ?thesis
    proof (cases f)
      case (Inl x)
      then have "fetch_raises fetch owner x" using f unfolding fetch_raises_def by (metis fst_conv)
      then show ?thesis using Cons.prems f Some Inl by simp
    next
      case (Inr g)
      then show ?thesis using Cons.prems f Some Cons.IH accept_evidence_errors[of req_as_of req key g]
        by (auto split: sum.splits)
    qed
  qed
qed simp

lemma typed_resolver_errors:
  assumes "typed_input_resolver fetch req_as_of owner exact b ctx w = (Inl e, w')"
    "cs_inputs (dv_calculation exact) \<noteq> []" "distinct (map ci_role (cs_inputs (dv_calculation exact)))"
  shows "e \<in> refuse_input ` set resolution_codes \<or> fetch_raises fetch owner e"
proof -
  let ?ctx = "case ctx of None \<Rightarrow> default_context | Some c \<Rightarrow> c" and ?reqs = "cs_inputs (dv_calculation exact)"
  obtain r u where run: "resolve_loop_inputs fetch req_as_of owner ?ctx ?reqs [] w = (r, u)" by fastforce
  show ?thesis
  proof (cases r)
    case (Inl x)
    then show ?thesis using resolve_loop_errors[of fetch req_as_of owner ?ctx ?reqs "[]" w x u] run assms
      by (simp add: typed_input_resolver_def Let_def)
  next
    case (Inr cs)
    with resolve_loop_inputs_ok[of fetch req_as_of owner ?ctx ?reqs "[]" w cs u] run
    have "list_all2 governed_input ?reqs cs" by (auto elim!: list_all2_mono)
    from governed_roles[OF this] show ?thesis using Inr run assms by (simp add: typed_input_resolver_def Let_def)
  qed
qed

lemma project_valid_input:
  "mk_resolved_calculation_input c = Inr c \<Longrightarrow> (\<And>t. is_hex64 (h t)) \<Longrightarrow> \<exists>p. project_provenance h stamp c = Inr p"
  by (auto simp: mk_resolved_calculation_input_def project_provenance_def mk_calculation_input_provenance_def
      resolved_input_checksum_def checksum_of_def)

lemma conservative_errors:
  assumes "conservative_data_as_of ps = Inl e" "ps \<noteq> []"
  shows "e = OverflowError ''date value out of range''"
proof -
  have aware: "\<not> list_ex (\<lambda>p. case ip_data_as_of p of None \<Rightarrow> True | Some t \<Rightarrow> dt_offset t = None) ps"
    using assms(1) by (auto simp: conservative_data_as_of_def)
  then have "List.map_filter ip_data_as_of ps \<noteq> []" using assms(2)
    by (cases ps) (auto simp: map_filter_def split: option.splits)
  moreover have "e = OverflowError ''date value out of range''" if "all_results (map astimezone_utc ts) = Inl e" for ts
    using all_results_Inl[OF that] by (auto simp: astimezone_utc_def Let_def split: if_splits)
  moreover have "all_results (map astimezone_utc ts) = Inr [] \<Longrightarrow> ts = []" for ts by (simp add: all_results_Inr)
  ultimately show ?thesis using assms(1) aware
    by (auto simp: conservative_data_as_of_def split: sum.splits list.splits)
qed

lemma result_unit_nonempty: "mk_calculation_spec keys s = Inr spec \<Longrightarrow> result_unit spec \<noteq> []"
  using validate_semantics_ok(1)[OF mk_calculation_spec_ok(1), of keys s spec]
  by (cases "cs_unit spec") (auto simp: mk_calculation_spec_def result_unit_def custom_unit_id_ok_def split: sum.splits option.splits list.splits)

lemma binding_covers:
  assumes "mk_calculation_spec keys s = Inr spec" "n \<in> set (preorder (cs_expression spec))"
    "set (map ci_role (cs_inputs spec)) \<subseteq> fst ` set ins" "set base_codes \<union> {''calculation_parameter_missing''} \<subseteq> A"
  shows "node_covered A ins ps n"
proof (cases n)
  case (InputRefOperand r)
  then have "r \<in> fst ` set ins" using validate_semantics_ok(3)[OF mk_calculation_spec_ok(1)[OF assms(1)] assms(2), of r] assms(3) by auto
  then show ?thesis using InputRefOperand by (auto simp: node_covered_def map_of_eq_None_iff)
qed (use assms(4) in \<open>auto simp: node_covered_def\<close>)

definition calculation_codes :: "string list" where
  "calculation_codes = ''calculation_parameter_missing'' # base_codes @ boundary_codes"

lemma governed_calculation_errors:
  assumes spec: "mk_calculation_spec keys s = Inr spec" and unit: "length (result_unit spec) \<le> 64"
    and hex: "\<And>t. is_hex64 (h t)" and gov: "list_all2 governed_input (cs_inputs spec) cs"
    and valid: "\<And>c. c \<in> set cs \<Longrightarrow> mk_resolved_calculation_input c = Inr c" and b: "binding_failures h b spec = []"
    and fails: "execute_custom_calculation h stamp spec b cs = Inl e"
  shows "e \<in> CustomCalculationExecutionError ` set calculation_codes \<or> e = OverflowError ''date value out of range''"
proof -
  note ok = mk_calculation_spec_ok[OF spec] and sem = validate_semantics_ok[OF mk_calculation_spec_ok(1)[OF spec]]
  have d: "distinct (map ci_role (cs_inputs spec))" using ok(4) sem(1) by simp
  have sizes: "cs_inputs spec \<noteq> []" "length (cs_inputs spec) \<le> 32" "calculation_id_ok (cs_calculation_id spec)"
    using spec sem(1) by (auto simp: mk_calculation_spec_def split: sum.splits)
  have "\<not> is_err (all_results (map (project_provenance h stamp) cs))"
  proof
    assume "is_err (all_results (map (project_provenance h stamp) cs))"
    then obtain x c where "c \<in> set cs" "project_provenance h stamp c = Inl x" using all_results_Inl by blast
    with project_valid_input[OF valid, of c h stamp] hex show False by simp
  qed
  then obtain ps where ps: "all_results (map (project_provenance h stamp) cs) = Inr ps"
    by (cases "all_results (map (project_provenance h stamp) cs)") auto
  then have all: "list_all2 (\<lambda>c p. project_provenance h stamp c = Inr p) cs ps" by (simp add: all_results_Inr)
  have roles: "map ip_role ps = map ci_role (cs_inputs spec)" using projected_inputs(2)[OF all] governed_roles[OF gov] by simp
  from arg_cong[OF roles, of length] have len: "length ps = length (cs_inputs spec)" by simp
  show ?thesis
  proof (cases "evaluate_calculation spec (map runtime_entry cs) (Some b)")
    case (Inl x)
    have "set (map ci_role (cs_inputs spec)) \<subseteq> fst ` set (map runtime_entry cs)"
      using arg_cong[OF governed_roles[OF gov], of set] by (simp add: runtime_entry_def image_image)
    then have cov: "node_covered (set base_codes \<union> {''calculation_parameter_missing''}) (map runtime_entry cs) ps' n"
      if "n \<in> set (preorder (cs_expression spec))" for ps' n
      using binding_covers[OF spec that _ subset_refl] by blast
    from evaluate_calculation_errors[OF spec _ cov Inl]
    obtain c where "x = CalculationRuntimeError c" "c \<in> set calculation_codes" by (auto simp: calculation_codes_def)
    then show ?thesis using fails ps Inl by (auto simp: execute_governed[OF gov d b])
  next
    case (Inr r)
    show ?thesis
    proof (cases "conservative_data_as_of ps")
      case (Inl x)
      moreover have "ps \<noteq> []" using len sizes(1) by auto
      ultimately show ?thesis using conservative_errors[OF Inl] fails ps Inr by (simp add: execute_governed[OF gov d b])
    next
      case as_of: (Inr t)
      then show ?thesis using fails ps Inr len sizes unit hex d roles result_unit_nonempty[OF spec]
        by (auto simp: execute_governed[OF gov d b] mk_custom_calculation_execution_result_def validated_eval length_in_def
            spec_checksum_def binding_checksum_def checksum_of_def Suc_le_eq split: if_splits)
    qed
  qed
qed


section \<open>A sample run\<close>

definition demo_stamp :: "py_datetime \<Rightarrow> string" where
  "demo_stamp t = []"

text \<open>A fetcher that counts its calls and answers the role \<open>won\<close> with 0 and every other role with \<open>k\<close>, observed at a
  fixed time in UTC+8.\<close>

definition demo_input :: "int \<Rightarrow> string \<Rightarrow> string \<Rightarrow> input_provenance \<Rightarrow> resolved_calculation_input" where
  "demo_input k role key p = \<lparr>rv_role = role, rv_metric_key = key, rv_status = InputResolved,
     rv_value = Some (RsInt (if role = ''won'' then 0 else k)), rv_unit = ''count'',
     rv_data_as_of = Some \<lparr>dt_local = 63000000000000000, dt_offset = Some 28800000000\<rparr>, rv_time_range = None,
     rv_provenance = p, rv_source_id = Some ''ledger'', rv_receipt_step_id = Some ''s1'', rv_fact_id = Some (zero_hash [])\<rparr>"

definition demo_fetch :: "int \<Rightarrow> nat fetcher" where
  "demo_fetch k owner role key p ctx n =
     (map_sum id FetchedInput (mk_resolved_calculation_input (demo_input k role key p)), n + 1)"

definition run_binding :: "string \<Rightarrow> calculation_execution_binding" where
  "run_binding d = \<lparr>eb_calculation_id = ''rate'', eb_spec_checksum = zero_hash [],
     eb_parameters = [\<lparr>pb_name = ''day'', pb_value = PStr d\<rparr>]\<rparr>"

abbreviation demo_run :: "int \<Rightarrow> custom_definition_execution_outcome result \<times> nat" where
  "demo_run k \<equiv> execute_definition zero_hash demo_stamp (Some (typed_input_resolver (demo_fetch k) True)) demo_saved demo_owner demo_id 1
     (run_binding ''2024-02-29'') None 0"

lemma demo_exact: "get_exact_version demo_saved demo_owner demo_id 1 = Inr demo_version"
  using demo_states(1) demo_versions(1) by (auto simp: get_exact_version_def owned_def split: option.splits)

lemma demo_input_valid: "role_name role \<Longrightarrow> length_in 1 256 key \<Longrightarrow> mk_resolved_calculation_input (demo_input k role key p) = Inr (demo_input k role key p)"
proof -
  have "calculation_id_ok ''ledger''" "plan_step_id ''s1''" by code_simp+
  then show "role_name role \<Longrightarrow> length_in 1 256 key \<Longrightarrow> mk_resolved_calculation_input (demo_input k role key p) = Inr (demo_input k role key p)"
    using zero_hash_hex by (simp add: mk_resolved_calculation_input_def demo_input_def opt_bad_def length_in_def)
qed

lemma demo_resolved:
  "typed_input_resolver (demo_fetch k) True demo_owner demo_version b ctx 0 =
     (Inr [demo_input k ''won'' ''gold.won'' PublishedGold, demo_input k ''all'' ''gold.all'' PublishedGold], 2)"
proof -
  have n: "role_name ''won''" "role_name ''all''" by code_simp+
  then show ?thesis
    by (simp add: typed_input_resolver_def demo_version_def demo_calculation_def demo_fetch_def demo_input_valid length_in_def
        accept_evidence_def validated_eval Let_def) (simp add: demo_input_def)
qed

lemma demo_bound: "binding_failures zero_hash (run_binding ''2024-02-29'') demo_calculation = []"
proof -
  have "is_iso_calendar_date ''2024-02-29''" by code_simp
  then show ?thesis
    by (simp add: binding_failures_def run_binding_def demo_calculation_def sample_spec_def parameter_failures_def bound_value_def
        spec_checksum_def checksum_of_def zero_hash_def)
qed

lemma demo_run_eq:
  "demo_run k = (case execute_custom_calculation zero_hash demo_stamp demo_calculation (run_binding ''2024-02-29'')
       [demo_input k ''won'' ''gold.won'' PublishedGold, demo_input k ''all'' ''gold.all'' PublishedGold] of
     Inl e \<Rightarrow> (Inl e, 2)
   | Inr x \<Rightarrow> (Inr \<lparr>eo_definition_id = demo_id, eo_version = 1, eo_definition_checksum = zero_hash [], eo_result = x\<rparr>, 2))"
proof -
  have id: "is_definition_id demo_id" by code_simp
  have fields: "dv_definition_id demo_version = demo_id" "dv_version demo_version = 1" "dv_calculation demo_version = demo_calculation"
    by (simp_all add: demo_version_def)
  have sum: "version_checksum zero_hash demo_version = zero_hash []" by (simp add: version_checksum_def checksum_of_def zero_hash_def)
  show ?thesis using id demo_exact demo_resolved[of k] demo_bound zero_hash_hex fields sum
    by (simp add: execute_definition_def mk_definition_execution_binding_def execute_version_def validated_eval del: One_nat_def cong: sum.case_cong)
qed

definition demo_provenance :: "string \<Rightarrow> string \<Rightarrow> calculation_input_provenance" where
  "demo_provenance role key = \<lparr>ip_role = role, ip_metric_key = key, ip_status = InputResolved, ip_unit = ''count'',
     ip_data_as_of = Some \<lparr>dt_local = 63000000000000000, dt_offset = Some 28800000000\<rparr>, ip_time_range = None,
     ip_provenance = PublishedGold, ip_source_id = Some ''ledger'', ip_receipt_step_id = Some ''s1'', ip_fact_id = Some (zero_hash []),
     ip_input_checksum = zero_hash []\<rparr>"

lemma demo_projected:
  assumes "role_name role" "length_in 1 256 key"
  shows "project_provenance zero_hash demo_stamp (demo_input k role key PublishedGold) = Inr (demo_provenance role key)"
proof -
  have sum: "resolved_input_checksum zero_hash demo_stamp c = zero_hash []" for c
    by (simp add: resolved_input_checksum_def checksum_of_def zero_hash_def)
  from project_valid_input[OF demo_input_valid[OF assms], of zero_hash demo_stamp] zero_hash_hex
  obtain p where "project_provenance zero_hash demo_stamp (demo_input k role key PublishedGold) = Inr p" by blast
  then show ?thesis by (auto simp: project_provenance_def mk_calculation_input_provenance_def demo_input_def demo_provenance_def sum)
qed

lemma demo_evaluated:
  "evaluate_calculation demo_calculation (map runtime_entry [demo_input 3 ''won'' ''gold.won'' PublishedGold, demo_input 3 ''all'' ''gold.all'' PublishedGold])
     (Some (run_binding ''2024-02-29'')) = Inr \<lparr>er_value = Dec False 0 (-2), er_precision = Some 2\<rparr>"
  "evaluate_calculation demo_calculation (map runtime_entry [demo_input 0 ''won'' ''gold.won'' PublishedGold, demo_input 0 ''all'' ''gold.all'' PublishedGold])
     (Some (run_binding ''2024-02-29'')) = Inl (CalculationRuntimeError ''calculation_undefined_division_by_zero'')"
  by code_simp+

lemma demo_governed_inputs:
  "list_all2 governed_input (cs_inputs demo_calculation)
     [demo_input k ''won'' ''gold.won'' PublishedGold, demo_input k ''all'' ''gold.all'' PublishedGold]"
  by (simp add: demo_calculation_def governed_input_def demo_input_def)

lemma demo_core:
  "execute_custom_calculation zero_hash demo_stamp demo_calculation (run_binding ''2024-02-29'')
     [demo_input k ''won'' ''gold.won'' PublishedGold, demo_input k ''all'' ''gold.all'' PublishedGold] =
   (case evaluate_calculation demo_calculation
       (map runtime_entry [demo_input k ''won'' ''gold.won'' PublishedGold, demo_input k ''all'' ''gold.all'' PublishedGold])
       (Some (run_binding ''2024-02-29'')) of
      Inl e \<Rightarrow> Inl (as_execution_error e)
    | Inr r \<Rightarrow> Inr \<lparr>cx_calculation_id = ''rate'', cx_spec_checksum = zero_hash [], cx_binding_checksum = zero_hash [],
        cx_value = er_value r, cx_unit = ''ratio'', cx_input_provenance = [demo_provenance ''won'' ''gold.won'', demo_provenance ''all'' ''gold.all''],
        cx_data_as_of = Some \<lparr>dt_local = 62999971200000000, dt_offset = Some 0\<rparr>, cx_time_range = None\<rparr>)"
proof -
  let ?ps = "[demo_provenance ''won'' ''gold.won'', demo_provenance ''all'' ''gold.all'']"
  have n: "role_name ''won''" "role_name ''all''" "calculation_id_ok ''rate''" by code_simp+
  have d: "distinct (map ci_role (cs_inputs demo_calculation))" by (simp add: demo_calculation_def)
  have ps: "all_results (map (project_provenance zero_hash demo_stamp)
      [demo_input k ''won'' ''gold.won'' PublishedGold, demo_input k ''all'' ''gold.all'' PublishedGold]) = Inr ?ps"
    using demo_projected n by (simp add: length_in_def)
  have as_of: "conservative_data_as_of ?ps = Inr (Some \<lparr>dt_local = 62999971200000000, dt_offset = Some 0\<rparr>)"
    by (simp add: conservative_data_as_of_def demo_provenance_def map_filter_simps astimezone_utc_def max_instant_def)
  have sums: "spec_checksum zero_hash s = zero_hash []" "binding_checksum zero_hash b = zero_hash []" for s b
    by (simp_all add: spec_checksum_def binding_checksum_def checksum_of_def zero_hash_def)
  have spec: "cs_calculation_id demo_calculation = ''rate''" "result_unit demo_calculation = ''ratio''"
    by (simp_all add: demo_calculation_def sample_spec_def result_unit_def)
  have "mk_custom_calculation_execution_result \<lparr>cx_calculation_id = ''rate'', cx_spec_checksum = zero_hash [], cx_binding_checksum = zero_hash [],
        cx_value = x, cx_unit = ''ratio'', cx_input_provenance = ?ps, cx_data_as_of = t, cx_time_range = common_time_range ?ps\<rparr> =
     Inr \<lparr>cx_calculation_id = ''rate'', cx_spec_checksum = zero_hash [], cx_binding_checksum = zero_hash [],
        cx_value = x, cx_unit = ''ratio'', cx_input_provenance = ?ps, cx_data_as_of = t, cx_time_range = None\<rparr>" for x t
    using n(3) zero_hash_hex
    by (simp add: mk_custom_calculation_execution_result_def length_in_def demo_provenance_def common_time_range_def)
  then show ?thesis unfolding execute_governed[OF demo_governed_inputs d demo_bound] ps
    by (simp add: as_of sums spec cong: sum.case_cong)
qed

lemma demo_fetch_errors: "\<not> fetch_raises (demo_fetch k) owner (CustomCalculationExecutionError c)"
  by (auto simp: fetch_raises_def demo_fetch_def mk_resolved_calculation_input_def validated_eval)

text \<open>Zero of three is 0.00, dated 63000000000000000 microseconds minus eight hours.\<close>

theorem definition_run_exact_witness:
  "\<exists>out exact inputs. demo_run 3 = (Inr out, 2) \<and> get_exact_version demo_saved demo_owner demo_id 1 = Inr exact \<and>
     list_all2 governed_input (cs_inputs (dv_calculation exact)) inputs \<and>
     cx_value (eo_result out) = Dec False 0 (-2) \<and> as_of_sound inputs (cx_data_as_of (eo_result out))"
proof -
  obtain out where out: "demo_run 3 = (Inr out, 2)" and v: "cx_value (eo_result out) = Dec False 0 (-2)"
    unfolding demo_run_eq demo_core demo_evaluated(1) by simp
  from definition_run_exact[OF out] v out show ?thesis by blast
qed


section \<open>Two gaps of the calculation core\<close>

text \<open>
  A specification may declare only optional inputs.  When none is supplied and the expression does not need them, the
  evaluation succeeds and the timestamp is computed as the minimum of nothing: a bare \<open>ValueError\<close> instead of a result or
  a stable code.
\<close>

definition optional_spec :: calculation_spec where
  "optional_spec = sample_spec\<lparr>cs_parameters := [], cs_precision := None,
     cs_inputs := [\<lparr>ci_role = ''won'', ci_provenance = PublishedGold, ci_metric_key = Some ''gold.won'', ci_required = False\<rparr>],
     cs_expression := CaseOperand [(CompareOperand Gt (LiteralOperand (Dec False 1 0)) (LiteralOperand (Dec False 0 0)), LiteralOperand (Dec False 5 0))]
       (Some (InputRefOperand ''won''))\<rparr>"

lemma optional_inputs_raise:
  "mk_calculation_spec [''inputs''] optional_spec = Inr optional_spec"
  "execute_custom_calculation zero_hash demo_stamp optional_spec ((run_binding [])\<lparr>eb_parameters := []\<rparr>) [] =
     Inl (ValueError ''min() iterable argument is empty'')"
proof -
  let ?b = "(run_binding [])\<lparr>eb_parameters := []\<rparr>"
  show "mk_calculation_spec [''inputs''] optional_spec = Inr optional_spec" by code_simp
  have "evaluate_calculation optional_spec [] (Some ?b) = Inr \<lparr>er_value = Dec False 5 0, er_precision = None\<rparr>" by code_simp
  moreover have "binding_failures zero_hash ?b optional_spec = []"
    by (simp add: binding_failures_def run_binding_def optional_spec_def sample_spec_def spec_checksum_def checksum_of_def zero_hash_def)
  moreover have "cs_inputs optional_spec = [\<lparr>ci_role = ''won'', ci_provenance = PublishedGold, ci_metric_key = Some ''gold.won'', ci_required = False\<rparr>]"
    by (simp add: optional_spec_def)
  ultimately show "execute_custom_calculation zero_hash demo_stamp optional_spec ?b [] = Inl (ValueError ''min() iterable argument is empty'')"
    by (simp add: execute_custom_calculation_def by_role_def Let_def conservative_data_as_of_def map_filter_simps)
qed

text \<open>A custom unit identity has no length bound, the unit of a result has: no calculation in a longer unit ever returns.\<close>

lemma long_unit_never_returns:
  "custom_unit_id_ok (replicate 65 CHR ''u'')"
  "64 < length (result_unit spec) \<Longrightarrow> execute_custom_calculation h stamp spec b cs \<noteq> Inr x"
proof -
  show "custom_unit_id_ok (replicate 65 CHR ''u'')" by code_simp
  show "64 < length (result_unit spec) \<Longrightarrow> execute_custom_calculation h stamp spec b cs \<noteq> Inr x"
    by (auto simp: execute_custom_calculation_def Let_def mk_custom_calculation_execution_result_def length_in_def
        split: list.splits sum.splits if_splits)
qed

end
