(* ===== verification/Spec2Isabelle.thy ===== *)
theory Spec2Isabelle
  imports Ledger Routing Mode_Contract Capacity Calculation_Runtime Artifact_Repository Conflict_Product Authorization Plan_Run Candidates Custom_Calculation
begin

text \<open>
  Verification of the governed analytics service (\<open>src/src/nl2sql\<close>).

  \<^bold>\<open>The program.\<close>  A question is routed by risk to one of several routes, each with a budget; a run has a
  product mode with a closed set of capabilities; database work passes a bounded concurrency limiter.
  Users author metric definitions: a calculation in a small expression language, evaluated in exact
  decimal arithmetic, versioned, confirmed, saved, published to a shared catalogue, certified by a
  local administrator, and installed, starred or forked by other users.  A definition is run on governed inputs; a
  question is answered by executing a typed plan of fetches, calculations and checks; competing SQL candidates are
  verified before one is chosen; a saved definition and an installed one of the same name are compared, never
  silently exchanged.  Every request carries an identity and, where configured, an authorization.

  \<^bold>\<open>Theories.\<close>
  \<^item> \<open>Prelude\<close>: exceptions and results, guarded validation, insertion-ordered dictionaries, the locales
    \<open>invariant_system\<close> and \<open>preserved_relation\<close> that turn step preservation into facts about all reachable states, and
    \<open>prefix_code\<close>, \<open>terminated_code\<close> for texts that can be read back uniquely.
  \<^item> \<open>Budget\<close>, \<open>Ledger\<close> (\<open>orchestration/budget.py\<close>, the budget records of \<open>contracts.py\<close>): route policies,
    call budgets and the counting ledger with its checkpoint record.  Counters never pass their limits,
    a stop is final, checkpoints restore exactly.
  \<^item> \<open>Routing\<close> (\<open>orchestration/routing.py\<close>): the risk score and route choice, monotone in the risk.
  \<^item> \<open>Mode_Contract\<close> (\<open>orchestration/mode_contract.py\<close>): modes, capabilities, envelopes.
  \<^item> \<open>Capacity\<close> (\<open>infra/governance/semaphore.py\<close>): the limiter as a step relation over tasks; each segment
    between two awaits is one step, so every interleaving the event loop allows is a path.
  \<^item> \<open>Decimal_Model\<close>, \<open>Canonical_Json\<close>: what the code uses of Python's decimal (precision 64, the four
    rounding modes, traps for overflow, division by zero and invalid operation) and of \<open>json.dumps\<close> with sorted keys.
  \<^item> \<open>Calculation_Contract\<close>, \<open>Calculation_Runtime\<close> (\<open>semantic/calculation_contract.py\<close>,
    \<open>semantic/calculation_runtime.py\<close>): expressions, validation, checksums, evaluation.
  \<^item> \<open>Custom_Definition\<close>, \<open>Definition_Service\<close> (\<open>artifacts/custom_definition.py\<close>, \<open>artifacts/service.py\<close>):
    axes, versions and the service's operations on its four dictionaries.
  \<^item> \<open>Owned_Store\<close>, \<open>Artifact_Repository\<close> (\<open>artifacts/contracts.py\<close>, \<open>artifacts/repository.py\<close>): the locale
    \<open>owned_store\<close> states what an owner-scoped store promises; the repository is an interpretation.
  \<^item> \<open>Publication\<close>, \<open>Publication_Service\<close>, \<open>Library\<close>, \<open>Product_Library\<close> (the files of those names under
    \<open>artifacts/\<close>): the shared catalogue, publishing, personal state, and the authority decisions over all.
  \<^item> \<open>Custom_Calculation\<close> (\<open>orchestration/custom_calculation_execution.py\<close>, \<open>governed_calculation_inputs.py\<close>,
    \<open>artifacts/custom_definition_execution_service.py\<close>): running a stored definition.  The resolver protocol is the
    locale \<open>governed_resolver\<close>, interpreted by the typed resolver.  A result is the evaluator's on evidenced inputs, and
    failures are a closed vocabulary.
  \<^item> \<open>Query_Plan\<close>, \<open>Plan_Contract\<close> (\<open>contracts.py\<close>): time ranges, filters, query plans, execution plans and their receipts.
    The plan validator accepts exactly the acyclic, fully declared plans.
  \<^item> \<open>Plan_Executor\<close>, \<open>Plan_Run\<close> (\<open>orchestration/execution.py\<close>): the trust boundary, the topological order and the run
    against the budget ledger.  A runner is a function on a world state whose outcome is a value, an exception,
    the deadline or cancellation; \<open>runners_ok\<close> states the interface they must keep.  A run always ends in a valid record
    unless cancelled, acts only on validated plans and stays in its budget.
  \<^item> \<open>Candidates\<close> (\<open>orchestration/candidates.py\<close>): the five gates, row digests and the choice among candidates, which
    accepts only proven candidates and does not depend on their order.  The SQL policy engine is an argument.
  \<^item> \<open>Authorization\<close> (\<open>contracts.py\<close>, \<open>ownership.py\<close>): identities, the fail-closed decision, checkpoint keys that no two
    users share, and the configuration that carries the authorization.
  \<^item> \<open>Personal_Conflict\<close>, \<open>Conflict_Service\<close>, \<open>Conflict_Product\<close> (\<open>semantic/personal_conflict_contract.py\<close>,
    \<open>semantic/personal_conflict_service.py\<close>, \<open>artifacts/personal_conflict_product_service.py\<close>): candidates, their material
    differences, and selections that take effect once, for the user who made them.

  \<^bold>\<open>Conventions.\<close>  An operation takes its state last and returns a result and the new state; a raise is an
  \<open>Inl\<close> of the exception.  Values the code takes from its environment are arguments: the clock, fresh
  UUID text, the SHA-256 function, the metric resolver, the runners and fetchers of live data.  Theorems that need the hash to separate the
  texts involved say so.  An \<open>async\<close> method that awaits nothing but other such methods of process-local
  stores runs without interleaving and is one step.

  \<^bold>\<open>Bounds.\<close>  The expression walkers are loops with a stack; their recursion carries the budget of
  64 nodes the code itself checks, and \<open>walkers_compute_traversals\<close> shows it is exact.  The decimal digit
  loops recurse on the number of digits, the ordering and dependency loops of plans on the steps left to place.  No other
  fuel is used.

  \<^bold>\<open>Not modelled.\<close>  The orchestration engine and agents (language-model calls, LangGraph), the SQL
  compiler and gateway (sqlglot trees, asyncpg), the PostgreSQL control stores, the HTTP layer, schema
  introspection, the live fetchers and the release tooling: they are I/O around third-party code whose behaviour is
  not in this repository.  The semantic registry and lexical matching, the planning, decision and evidence
  records, and the observability filters are further pure code beside this core that the development does not cover.
\<close>

end
